theory Spec2Isabelle
  imports Main "HOL-Library.AList"
begin

section \<open>JavaScript values and the string primitives the generators use\<close>

text \<open>
  The three generators of \<^verbatim>\<open>packages/core/lib/codegen\<close> work on plain JavaScript data.
  A value is \<open>undefined\<close>, \<open>null\<close>, a boolean, a number, a string, an array or an object.
  Objects are association lists in insertion order (the order \<open>Object.entries\<close> reports for
  keys that are not array indices); numbers are integers (the decimal form JavaScript prints
  below \<open>10^21\<close>); strings are lists of bytes. A content node \<open>{type, props}\<close> is the object
  \<open>ComponentData t ps\<close>, a codegen expression \<open>{__codegen: code}\<close> the object
  \<open>CodegenExpression code\<close>. Function values do not occur in the data.
\<close>

datatype jsval =
    JUndefined
  | JNull
  | JBool bool
  | JNum int
  | JStr string
  | JArr "jsval list"
  | JObj "(string \<times> jsval) list"

definition ComponentData :: "string \<Rightarrow> (string \<times> jsval) list \<Rightarrow> jsval" where
  "ComponentData t ps = JObj [(''type'', JStr t), (''props'', JObj ps)]"

definition CodegenExpression :: "string \<Rightarrow> jsval" where
  "CodegenExpression code = JObj [(''__codegen'', JStr code)]"

datatype error =
    UnknownComponentType string
  | ImportConflict string
  | TypeError

text \<open>\<open>Boolean(v)\<close>, and \<open>v.k\<close> for a value that is neither \<open>null\<close> nor \<open>undefined\<close> and a
  key that no prototype defines (\<open>type\<close>, \<open>props\<close>, \<open>id\<close>, \<open>__codegen\<close>).\<close>

fun truthy :: "jsval \<Rightarrow> bool" where
  "truthy JUndefined = False"
| "truthy JNull = False"
| "truthy (JBool b) = b"
| "truthy (JNum n) = (n \<noteq> 0)"
| "truthy (JStr s) = (s \<noteq> [])"
| "truthy (JArr xs) = True"
| "truthy (JObj kvs) = True"

fun nullish :: "jsval \<Rightarrow> bool" where
  "nullish JUndefined = True"
| "nullish JNull = True"
| "nullish v = False"

definition lookup :: "(string \<times> jsval) list \<Rightarrow> string \<Rightarrow> jsval" where
  "lookup kvs k = (case map_of kvs k of Some v \<Rightarrow> v | None \<Rightarrow> JUndefined)"

fun getprop :: "jsval \<Rightarrow> string \<Rightarrow> jsval" where
  "getprop (JObj kvs) k = lookup kvs k"
| "getprop v k = JUndefined"

subsection \<open>Numbers and strings\<close>

definition digit :: "nat \<Rightarrow> char" where
  "digit d = char_of (48 + d)"

fun show_nat :: "nat \<Rightarrow> string" where
  "show_nat n = (if n < 10 then [digit n] else show_nat (n div 10) @ [digit (n mod 10)])"

declare show_nat.simps [simp del]

text \<open>The decimal form of an integer, which is what JavaScript prints for an integral number
  of magnitude below \<open>10^21\<close>; the numbers of the model are the integers.\<close>

definition show_int :: "int \<Rightarrow> string" where
  "show_int i = (if i < 0 then CHR ''-'' # show_nat (nat (- i)) else show_nat (nat i))"

fun join :: "string \<Rightarrow> string list \<Rightarrow> string" where
  "join sep [] = []"
| "join sep [x] = x"
| "join sep (x # y # ys) = x @ sep @ join sep (y # ys)"

fun split :: "char \<Rightarrow> string \<Rightarrow> string list" where
  "split c [] = [[]]"
| "split c (x # xs) =
     (if x = c then [] # split c xs
      else (case split c xs of [] \<Rightarrow> [[x]] | l # ls \<Rightarrow> (x # l) # ls))"

definition newline :: char where
  "newline = CHR 0x0A"

text \<open>The white space that \<open>trim\<close> and \<open>\s\<close> strip, among the characters of the model: the
  strings here are 8-bit, read as ASCII text. (JavaScript also strips U+00A0, U+FEFF and the
  Unicode space separators.)\<close>

definition is_space :: "char \<Rightarrow> bool" where
  "is_space c = (c \<in> {CHR 0x09, CHR 0x0A, CHR 0x0B, CHR 0x0C, CHR 0x0D, CHR '' ''})"

definition trimStart :: "string \<Rightarrow> string" where
  "trimStart s = dropWhile is_space s"

definition trimEnd :: "string \<Rightarrow> string" where
  "trimEnd s = rev (dropWhile is_space (rev s))"

definition trim :: "string \<Rightarrow> string" where
  "trim s = trimEnd (trimStart s)"

definition includes_newline :: "string \<Rightarrow> bool" where
  "includes_newline s = (newline \<in> set s)"

text \<open>\<open>String(v)\<close>, which is also the coercion of a property key and of a template hole.\<close>

fun js_String :: "jsval \<Rightarrow> string" where
  "js_String JUndefined = ''undefined''"
| "js_String JNull = ''null''"
| "js_String (JBool b) = (if b then ''true'' else ''false'')"
| "js_String (JNum n) = show_int n"
| "js_String (JStr s) = s"
| "js_String (JArr xs) = join '','' (map (\<lambda>x. if nullish x then [] else js_String x) xs)"
| "js_String (JObj kvs) = ''[object Object]''"

text \<open>\<open>{...v}\<close> and \<open>Object.entries(v)\<close>: the own enumerable properties.\<close>

fun spread :: "jsval \<Rightarrow> (string \<times> jsval) list" where
  "spread (JObj kvs) = kvs"
| "spread (JArr xs) = zip (map show_nat [0..<length xs]) xs"
| "spread (JStr s) = zip (map show_nat [0..<length s]) (map (\<lambda>c. JStr [c]) s)"
| "spread v = []"

subsection \<open>\<open>JSON.stringify\<close>\<close>

definition hex_digit :: "nat \<Rightarrow> char" where
  "hex_digit d = (if d < 10 then char_of (48 + d) else char_of (87 + d))"

definition json_char :: "char \<Rightarrow> string" where
  "json_char c =
     (if c = CHR 0x22 then [CHR 0x5C, CHR 0x22]
      else if c = CHR 0x5C then [CHR 0x5C, CHR 0x5C]
      else if c = CHR 0x08 then [CHR 0x5C, CHR ''b'']
      else if c = CHR 0x0C then [CHR 0x5C, CHR ''f'']
      else if c = CHR 0x0A then [CHR 0x5C, CHR ''n'']
      else if c = CHR 0x0D then [CHR 0x5C, CHR ''r'']
      else if c = CHR 0x09 then [CHR 0x5C, CHR ''t'']
      else if of_char c < (32 :: nat)
        then [CHR 0x5C, CHR ''u'', CHR ''0'', CHR ''0'',
              hex_digit (of_char c div 16), hex_digit (of_char c mod 16)]
      else [c])"

definition json_quote :: "string \<Rightarrow> string" where
  "json_quote s = CHR 0x22 # concat (map json_char s) @ [CHR 0x22]"

fun json_stringify :: "jsval \<Rightarrow> string option" where
  "json_stringify JUndefined = None"
| "json_stringify JNull = Some ''null''"
| "json_stringify (JBool b) = Some (if b then ''true'' else ''false'')"
| "json_stringify (JNum n) = Some (show_int n)"
| "json_stringify (JStr s) = Some (json_quote s)"
| "json_stringify (JArr xs) =
     Some (''['' @ join '',''
       (map (\<lambda>x. case json_stringify x of None \<Rightarrow> ''null'' | Some s \<Rightarrow> s) xs) @ '']'')"
| "json_stringify (JObj kvs) =
     Some (''{'' @ join '',''
       (concat (map (\<lambda>(k, v). case json_stringify v of None \<Rightarrow> []
                                | Some s \<Rightarrow> [json_quote k @ '':'' @ s]) kvs)) @ ''}'')"


section \<open>The schema: field descriptors and component configs\<close>

datatype field =
  Field (ftype: string)
        (arrayFields: "(string \<times> field) list option")
        (objectFields: "(string \<times> field) list option")

datatype 'a one_or_many = One 'a | Many "'a list"

fun specs_of :: "'a one_or_many option \<Rightarrow> 'a list" where
  "specs_of None = []"
| "specs_of (Some (One x)) = [x]"
| "specs_of (Some (Many xs)) = xs"

definition truthy_str :: "string option \<Rightarrow> bool" where
  "truthy_str s = (case s of None \<Rightarrow> False | Some x \<Rightarrow> x \<noteq> [])"

text \<open>\<open>Array.prototype.sort\<close> with a comparator: a stable sort. \<open>localeCompare\<close> is the
  platform's collation; it is a parameter \<open>lc\<close> of every function that sorts.\<close>

fun insert_by :: "('a \<Rightarrow> 'a \<Rightarrow> int) \<Rightarrow> 'a \<Rightarrow> 'a list \<Rightarrow> 'a list" where
  "insert_by c x [] = [x]"
| "insert_by c x (y # ys) = (if c x y \<le> 0 then x # y # ys else y # insert_by c x ys)"

definition sort_by :: "('a \<Rightarrow> 'a \<Rightarrow> int) \<Rightarrow> 'a list \<Rightarrow> 'a list" where
  "sort_by c xs = foldr (insert_by c) xs []"

text \<open>What sorting needs of the comparator: any two keys are comparable, and the order is
  transitive. A comparator is read as \<open>a\<close> before or equal to \<open>b\<close> when \<open>c a b \<le> 0\<close>.\<close>

definition consistent :: "('a \<Rightarrow> 'a \<Rightarrow> int) \<Rightarrow> bool" where
  "consistent c = ((\<forall>a b. c a b \<le> 0 \<or> c b a \<le> 0)
                 \<and> (\<forall>a b d. c a b \<le> 0 \<longrightarrow> c b d \<le> 0 \<longrightarrow> c a d \<le> 0))"

text \<open>One collation, by code unit, to run the generators on concrete inputs.\<close>

fun compareCodeUnits :: "string \<Rightarrow> string \<Rightarrow> int" where
  "compareCodeUnits [] [] = 0"
| "compareCodeUnits [] (y # ys) = - 1"
| "compareCodeUnits (x # xs) [] = 1"
| "compareCodeUnits (x # xs) (y # ys) =
     (if x = y then compareCodeUnits xs ys
      else if (of_char x :: nat) < of_char y then - 1 else 1)"

section \<open>codegen/index.ts: generateJSX and generateComponent\<close>

text \<open>\<open>ComponentCodegenImport\<close>: \<open>{path, name, alias?}\<close> or \<open>{path, default}\<close>.\<close>

datatype ComponentCodegenImport =
    NamedImport string string "string option"
  | DefaultImport string string

fun import_path :: "ComponentCodegenImport \<Rightarrow> string" where
  "import_path (NamedImport p n a) = p"
| "import_path (DefaultImport p d) = p"

text \<open>\<open>ComponentCodegenConfig\<close>. The hook \<open>mapProps\<close> takes the props and the slot
  expressions and returns an object or \<open>undefined\<close>.\<close>

record ComponentCodegenConfig =
  cg_component :: "string option"
  cg_import :: "ComponentCodegenImport one_or_many option"
  cg_mapProps :: "((string \<times> jsval) list \<Rightarrow> (string \<times> jsval) list \<Rightarrow> jsval) option"
  cg_skip :: bool

record ComponentConfig =
  cc_fields :: "(string \<times> field) list option"
  cc_codegen :: "ComponentCodegenConfig option"

type_synonym Config = "(string \<times> ComponentConfig) list"

text \<open>\<open>config.components[type]\<close> reads a plain object: besides its own keys it answers to the
  names that \<open>Object.prototype\<close> defines, with a value that is truthy and has neither
  \<open>fields\<close> nor \<open>codegen\<close>.\<close>

definition objectPrototypeKeys :: "string list" where
  "objectPrototypeKeys =
     [''constructor'', ''__defineGetter__'', ''__defineSetter__'', ''hasOwnProperty'',
      ''__lookupGetter__'', ''__lookupSetter__'', ''isPrototypeOf'', ''propertyIsEnumerable'',
      ''toString'', ''valueOf'', ''__proto__'', ''toLocaleString'']"

definition componentConfigOf :: "Config \<Rightarrow> string \<Rightarrow> ComponentConfig option" where
  "componentConfigOf components key =
     (case map_of components key of
        Some cc \<Rightarrow> Some cc
      | None \<Rightarrow> if key \<in> set objectPrototypeKeys
                then Some \<lparr>cc_fields = None, cc_codegen = None\<rparr> else None)"

record ImportEntry =
  ie_default :: "string option"
  ie_named :: "(string \<times> string option) list"

type_synonym ImportRegistry = "(string \<times> ImportEntry) list"

record GeneratedImport =
  gi_path :: string
  gi_default :: "string option"
  gi_named :: "(string \<times> string option) list"

record GeneratedTree =
  gt_jsx :: string
  gt_imports :: "GeneratedImport list"

record GeneratedComponent = GeneratedTree +
  gc_code :: string
  gc_importStatements :: "string list"

record GenerateJSXOptions =
  opt_config :: Config
  opt_content :: "jsval list option"
  opt_baseDepth :: "int option"
  opt_indentSize :: "nat option"

record GenerateComponentOptions = GenerateJSXOptions +
  opt_componentName :: "string option"

definition DEFAULT_COMPONENT_NAME :: string where
  "DEFAULT_COMPONENT_NAME = ''PuckComponent''"

subsection \<open>The import registry\<close>

definition registerSpec :: "ImportRegistry \<Rightarrow> ComponentCodegenImport \<Rightarrow> ImportRegistry" where
  "registerSpec registry spec =
     (let next = (case map_of registry (import_path spec) of
                    Some e \<Rightarrow> e
                  | None \<Rightarrow> \<lparr>ie_default = None, ie_named = []\<rparr>)
      in AList.update (import_path spec)
           (case spec of
              DefaultImport p d \<Rightarrow>
                (if \<not> truthy_str (ie_default next) then next\<lparr>ie_default := Some d\<rparr> else next)
            | NamedImport p n a \<Rightarrow> next\<lparr>ie_named := AList.update n a (ie_named next)\<rparr>)
           registry)"

definition registerImport ::
  "ImportRegistry \<Rightarrow> ComponentCodegenImport one_or_many option \<Rightarrow> ImportRegistry" where
  "registerImport registry importConfig = foldl registerSpec registry (specs_of importConfig)"

definition formatImports ::
  "(string \<Rightarrow> string \<Rightarrow> int) \<Rightarrow> ImportRegistry \<Rightarrow> GeneratedImport list" where
  "formatImports lc registry =
     sort_by (\<lambda>a b. lc (gi_path a) (gi_path b))
       (map (\<lambda>entry. entry\<lparr>gi_named := sort_by (\<lambda>a b. lc (fst a) (fst b)) (gi_named entry)\<rparr>)
         (filter (\<lambda>entry. truthy_str (gi_default entry) \<or> gi_named entry \<noteq> [])
           (map (\<lambda>(path, spec).
                  \<lparr>gi_path = path, gi_default = ie_default spec, gi_named = ie_named spec\<rparr>)
                registry)))"

definition formatSpecifier :: "string \<times> string option \<Rightarrow> string" where
  "formatSpecifier specifier =
     (if truthy_str (snd specifier) then fst specifier @ '' as '' @ the (snd specifier)
      else fst specifier)"

definition formatImportStatement :: "GeneratedImport \<Rightarrow> string option" where
  "formatImportStatement entry =
     (let named = join '', '' (map formatSpecifier (gi_named entry));
          parts = (if truthy_str (gi_default entry) then [the (gi_default entry)] else [])
                  @ (if named \<noteq> [] then [''{ '' @ named @ '' }''] else [])
      in if parts = [] then None
         else Some (''import '' @ join '', '' parts @ '' from '' @ [CHR 0x22] @ gi_path entry
                    @ [CHR 0x22] @ '';''))"

definition formatImportStatements :: "GeneratedImport list \<Rightarrow> string list" where
  "formatImportStatements imports = List.map_filter formatImportStatement imports"


subsection \<open>Strings of the output\<close>

definition indent :: "int \<Rightarrow> nat \<Rightarrow> string" where
  "indent depth indentSize =
     (if depth \<le> 0 then [] else replicate (nat depth * indentSize) CHR '' '')"

definition indentLines :: "string \<Rightarrow> int \<Rightarrow> nat \<Rightarrow> string" where
  "indentLines code depth indentSize =
     (if code = [] then code
      else join [newline]
             (map (\<lambda>line. if line \<noteq> [] then indent depth indentSize @ line else line)
                  (split newline code)))"

definition shiftIndent :: "string \<Rightarrow> int \<Rightarrow> int \<Rightarrow> nat \<Rightarrow> string" where
  "shiftIndent code fromDepth toDepth indentSize =
     (if code = [] \<or> trim code = [] then []
      else if toDepth \<le> fromDepth then code
      else join [newline]
             (map (\<lambda>line. if line \<noteq> [] then indent (toDepth - fromDepth) indentSize @ line
                          else line)
                  (split newline code)))"

definition codegenExpression :: "string \<Rightarrow> jsval" where
  "codegenExpression code =
     CodegenExpression (if includes_newline code then trimEnd code else trim code)"

definition wrapInFragment :: "string \<Rightarrow> string" where
  "wrapInFragment code =
     (let trimmed = trim code
      in if trimmed = [] then []
         else if \<not> includes_newline trimmed then ''<>'' @ trimmed @ ''</>''
         else ''<>'' @ [newline] @ code @ [newline] @ ''</>'')"

definition createSlotExpressions :: "(string \<times> string) list \<Rightarrow> (string \<times> jsval) list" where
  "createSlotExpressions slotStrings =
     foldl (\<lambda>acc (key, code).
              AList.update key
                (if trim code \<noteq> [] then codegenExpression (wrapInFragment code) else JNull) acc)
           [] slotStrings"

definition isCodegenExpression :: "jsval \<Rightarrow> bool" where
  "isCodegenExpression v =
     (case v of JObj kvs \<Rightarrow> ''__codegen'' \<in> set (map fst kvs) | _ \<Rightarrow> False)"

definition formatAttribute :: "string \<Rightarrow> jsval \<Rightarrow> int \<Rightarrow> nat \<Rightarrow> error + string option" where
  "formatAttribute key v depth indentSize =
     (if v = JUndefined then Inr None
      else if isCodegenExpression v then
        (case getprop v ''__codegen'' of
           JStr code \<Rightarrow>
             (if \<not> includes_newline code then Inr (Some (key @ ''={'' @ code @ ''}''))
              else Inr (Some (key @ ''={'' @ [newline] @ indentLines code (depth + 1) indentSize
                              @ [newline] @ indent depth indentSize @ ''}'')))
         | JArr xs \<Rightarrow>
             (if JStr [newline] \<in> set xs then Inl TypeError
              else Inr (Some (key @ ''={'' @ js_String (JArr xs) @ ''}'')))
         | _ \<Rightarrow> Inl TypeError)
      else (case v of
              JNull \<Rightarrow> Inr (Some (key @ ''={null}''))
            | JStr s \<Rightarrow> Inr (Some (key @ ''='' @ json_quote s))
            | JNum n \<Rightarrow> Inr (Some (key @ ''={'' @ show_int n @ ''}''))
            | JBool b \<Rightarrow> Inr (Some (key @ ''={'' @ js_String (JBool b) @ ''}''))
            | _ \<Rightarrow> Inr (Some (key @ ''={'' @ the (json_stringify v) @ ''}''))))"

definition buildElement :: "string \<Rightarrow> string list \<Rightarrow> string \<Rightarrow> int \<Rightarrow> nat \<Rightarrow> string" where
  "buildElement name attributes children depth indentSize =
     (let indentBase = indent depth indentSize;
          attrBlock =
            (if attributes \<noteq> [] then
               [newline]
               @ join [newline] (map (\<lambda>attribute. indent (depth + 1) indentSize @ attribute) attributes)
               @ [newline] @ indentBase
             else [])
      in if trim children = [] then indentBase @ ''<'' @ name @ attrBlock @ '' />''
         else indentBase @ ''<'' @ name @ attrBlock @ ''>'' @ [newline] @ children @ [newline]
              @ indentBase @ ''</'' @ name @ ''>'')"

definition getSlotFieldNames :: "(string \<times> field) list option \<Rightarrow> string list" where
  "getSlotFieldNames flds =
     (case flds of
        None \<Rightarrow> []
      | Some fs \<Rightarrow> map fst (filter (\<lambda>(key, f). ftype f = ''slot'') fs))"

subsection \<open>Rendering\<close>

text \<open>A \<open>map\<close> or \<open>forEach\<close> whose callback reads and writes the registry and may throw:
  the first exception ends the loop.\<close>

fun mapM_reg :: "('a \<Rightarrow> 's \<Rightarrow> error + ('b \<times> 's)) \<Rightarrow> 'a list \<Rightarrow> 's \<Rightarrow> error + ('b list \<times> 's)" where
  "mapM_reg f [] s = Inr ([], s)"
| "mapM_reg f (x # xs) s =
     (case f x s of
        Inl e \<Rightarrow> Inl e
      | Inr (y, s') \<Rightarrow>
          (case mapM_reg f xs s' of Inl e \<Rightarrow> Inl e | Inr (ys, s'') \<Rightarrow> Inr (y # ys, s'')))"

fun mapM_err :: "('a \<Rightarrow> error + 'b) \<Rightarrow> 'a list \<Rightarrow> error + 'b list" where
  "mapM_err f [] = Inr []"
| "mapM_err f (x # xs) =
     (case f x of
        Inl e \<Rightarrow> Inl e
      | Inr y \<Rightarrow> (case mapM_err f xs of Inl e \<Rightarrow> Inl e | Inr ys \<Rightarrow> Inr (y # ys)))"

definition filterBoolean :: "string option list \<Rightarrow> string list" where
  "filterBoolean xs = concat (map (\<lambda>x. case x of None \<Rightarrow> [] | Some s \<Rightarrow> if s = [] then [] else [s]) xs)"

text \<open>The first reduce of \<open>renderNode\<close>: the content of each slot field, taken out of the
  props.\<close>

definition slotStep ::
  "(string \<times> jsval list) list \<times> (string \<times> jsval) list \<Rightarrow> string
   \<Rightarrow> (string \<times> jsval list) list \<times> (string \<times> jsval) list" where
  "slotStep st slotName =
     (AList.update slotName (case lookup (snd st) slotName of JArr xs \<Rightarrow> xs | _ \<Rightarrow> []) (fst st),
      AList.delete slotName (snd st))"

definition collectSlots ::
  "string list \<Rightarrow> (string \<times> jsval) list \<Rightarrow> (string \<times> jsval list) list \<times> (string \<times> jsval) list" where
  "collectSlots slotNames props = foldl slotStep ([], props) slotNames"

definition nodeProps :: "jsval \<Rightarrow> (string \<times> jsval) list" where
  "nodeProps item = (if truthy (getprop item ''props'') then spread (getprop item ''props'') else [])"

definition nodeSlots :: "ComponentConfig \<Rightarrow> jsval \<Rightarrow> (string \<times> jsval list) list" where
  "nodeSlots cc item = fst (collectSlots (getSlotFieldNames (cc_fields cc)) (nodeProps item))"

text \<open>The rest of \<open>renderNode\<close> once the slots are rendered (lines 186 to 245).\<close>

definition finishNode ::
  "nat \<Rightarrow> ComponentConfig \<Rightarrow> jsval \<Rightarrow> int \<Rightarrow> (string \<times> string) list \<Rightarrow> ImportRegistry
   \<Rightarrow> error + (string option \<times> ImportRegistry)" where
  "finishNode indentSize cc item depth slotStrings registry =
     (let props = AList.delete ''puck'' (AList.delete ''id''
                    (snd (collectSlots (getSlotFieldNames (cc_fields cc)) (nodeProps item))));
          mapProps = (case cc_codegen cc of None \<Rightarrow> None | Some g \<Rightarrow> cg_mapProps g);
          slotExpressions = createSlotExpressions slotStrings;
          mappedProps =
            (case mapProps of
               None \<Rightarrow> JObj props
             | Some f \<Rightarrow> (let r = f props slotExpressions in if nullish r then JObj props else r))
      in case mapM_err (\<lambda>(key, v). formatAttribute key v (depth + 1) indentSize)
                (if truthy mappedProps then spread mappedProps else []) of
           Inl e \<Rightarrow> Inl e
         | Inr attrs \<Rightarrow>
            (case (if Option.is_none mapProps then
                     mapM_err (\<lambda>(slotName, expression).
                                 if slotName = ''children'' \<or> \<not> truthy expression then Inr None
                                 else formatAttribute slotName expression (depth + 1) indentSize)
                              slotExpressions
                   else Inr []) of
               Inl e \<Rightarrow> Inl e
             | Inr slotAttrs \<Rightarrow>
                 Inr (Some (buildElement
                        (case cc_codegen cc of
                           None \<Rightarrow> js_String (getprop item ''type'')
                         | Some g \<Rightarrow> if truthy_str (cg_component g) then the (cg_component g)
                                     else js_String (getprop item ''type''))
                        (filterBoolean attrs @ filterBoolean slotAttrs)
                        (if Option.is_none mapProps \<and> truthy_str (map_of slotStrings ''children'')
                         then shiftIndent (the (map_of slotStrings ''children'')) 1 (depth + 1) indentSize
                         else [])
                        depth indentSize),
                      registerImport registry
                        (case cc_codegen cc of None \<Rightarrow> None | Some g \<Rightarrow> cg_import g))))"


text \<open>The recursion of \<open>renderContent\<close> and \<open>renderNode\<close> follows the data: a slot's
  content is part of the node's props, so the size of the value decreases.\<close>

lemma mapM_reg_cong [fundef_cong]:
  "xs = ys \<Longrightarrow> s = t \<Longrightarrow> (\<And>x r. x \<in> set ys \<Longrightarrow> f x r = g x r) \<Longrightarrow> mapM_reg f xs s = mapM_reg g ys t"
proof (induction ys arbitrary: xs s t)
  case Nil then show ?case by simp
next
  case (Cons y ys)
  then show ?case by (auto split: sum.splits)
qed


lemma size_list_member_less: "x \<in> set xs \<Longrightarrow> f x < size_list f xs"
  by (induction xs) auto

lemma size_lookup_le: "size (lookup kvs k) \<le> size_list (size_prod (\<lambda>_. 0) size) kvs"
proof (cases "map_of kvs k")
  case None then show ?thesis by (simp add: lookup_def)
next
  case (Some v)
  then have "(k, v) \<in> set kvs" by (rule map_of_SomeD)
  then have "size_prod (\<lambda>_. 0) size (k, v) \<le> size_list (size_prod (\<lambda>_. 0) size) kvs"
    by (simp add: size_list_estimation')
  with Some show ?thesis by (simp add: lookup_def)
qed

lemma size_getprop_le: "size (getprop item k) \<le> size item"
  using size_lookup_le [of _ k] by (cases item) (auto simp: le_Suc_eq)

lemma size_spread_le: "(k, v) \<in> set (spread p) \<Longrightarrow> size v \<le> size p"
proof (cases p)
  case (JArr xs)
  assume "(k, v) \<in> set (spread p)"
  with JArr have "v \<in> set xs" by (auto dest: set_zip_rightD)
  then have "size v \<le> size_list size xs" by (simp add: size_list_estimation')
  with JArr show ?thesis by simp
next
  case (JObj kvs)
  assume "(k, v) \<in> set (spread p)"
  with JObj have "size_prod (\<lambda>_. 0) size (k, v) \<le> size_list (size_prod (\<lambda>_. 0) size) kvs"
    by (simp add: size_list_estimation')
  with JObj show ?thesis by simp
qed (auto dest!: set_zip_rightD)

lemma size_nodeProps_le: "(k, v) \<in> set (nodeProps item) \<Longrightarrow> size v \<le> size item"
  using size_spread_le [of k v "getprop item ''props''"] size_getprop_le [of item "''props''"]
  by (auto simp: nodeProps_def split: if_splits)

definition slots_bounded :: "nat \<Rightarrow> (string \<times> jsval list) list \<times> (string \<times> jsval) list \<Rightarrow> bool" where
  "slots_bounded n st = ((\<forall>x \<in> set (fst st). size_list size (snd x) \<le> n) \<and> (\<forall>x \<in> set (snd st). size (snd x) \<le> n))"

lemma set_update_subset: "x \<in> set (AList.update k v al) \<Longrightarrow> x = (k, v) \<or> x \<in> set al"
  by (induction al) (auto split: if_splits)

lemma slotStep_bounded: "slots_bounded n st \<Longrightarrow> slots_bounded n (slotStep st name)"
proof -
  assume b: "slots_bounded n st"
  have "size_list size (case lookup (snd st) name of JArr xs \<Rightarrow> xs | _ \<Rightarrow> []) \<le> n"
  proof (cases "lookup (snd st) name")
    case (JArr xs)
    then have "map_of (snd st) name = Some (JArr xs)"
      by (auto simp: lookup_def split: option.splits)
    then have "(name, JArr xs) \<in> set (snd st)" by (rule map_of_SomeD)
    with b have "size (JArr xs) \<le> n" by (auto simp: slots_bounded_def)
    with JArr show ?thesis by simp
  qed simp_all
  with b show ?thesis
    by (auto simp: slots_bounded_def slotStep_def AList.delete_eq dest!: set_update_subset)
qed

lemma collectSlots_bounded_aux: "slots_bounded n st \<Longrightarrow> slots_bounded n (foldl slotStep st names)"
  by (induction names arbitrary: st) (simp_all add: slotStep_bounded)

lemma size_nodeSlots_le: "x \<in> set (nodeSlots cc item) \<Longrightarrow> size_list size (snd x) \<le> size item"
proof -
  have "slots_bounded (size item) ([], nodeProps item)"
    by (auto simp: slots_bounded_def dest: size_nodeProps_le)
  then have "slots_bounded (size item) (collectSlots (getSlotFieldNames (cc_fields cc)) (nodeProps item))"
    unfolding collectSlots_def by (rule collectSlots_bounded_aux)
  then show "x \<in> set (nodeSlots cc item) \<Longrightarrow> size_list size (snd x) \<le> size item"
    by (simp add: slots_bounded_def nodeSlots_def)
qed

function renderContent :: "Config \<Rightarrow> nat \<Rightarrow> jsval list \<Rightarrow> int \<Rightarrow> ImportRegistry \<Rightarrow> error + (string \<times> ImportRegistry)"
  and renderNode :: "Config \<Rightarrow> nat \<Rightarrow> jsval \<Rightarrow> int \<Rightarrow> ImportRegistry \<Rightarrow> error + (string option \<times> ImportRegistry)"
where
  "renderContent config indentSize content depth registry =
     (if content = [] then Inr ([], registry)
      else (case mapM_reg (\<lambda>item r. renderNode config indentSize item depth r) content registry of
              Inl e \<Rightarrow> Inl e
            | Inr (nodes, registry') \<Rightarrow> Inr (join [newline] (filterBoolean nodes), registry')))"
| "renderNode config indentSize item depth registry =
     (if nullish item then Inl TypeError
      else (case componentConfigOf config (js_String (getprop item ''type'')) of
              None \<Rightarrow> Inl (UnknownComponentType (js_String (getprop item ''type'')))
            | Some cc \<Rightarrow>
                (if (case cc_codegen cc of None \<Rightarrow> False | Some g \<Rightarrow> cg_skip g) then Inr (None, registry)
                 else (case mapM_reg
                              (\<lambda>slot r. case renderContent config indentSize (snd slot) 1 r of
                                           Inl e \<Rightarrow> Inl e
                                         | Inr (code, r') \<Rightarrow> Inr ((fst slot, code), r'))
                              (nodeSlots cc item) registry of
                         Inl e \<Rightarrow> Inl e
                       | Inr (slotStrings, registry') \<Rightarrow>
                           finishNode indentSize cc item depth slotStrings registry'))))"
  by pat_completeness auto
termination
proof (relation "measure (\<lambda>x. case x of Inl (c, i, content, d, r) \<Rightarrow> 2 * size_list size content
                                   | Inr (c, i, item, d, r) \<Rightarrow> 2 * size item + 1)", goal_cases)
  case 1
  show ?case by simp
next
  case (2 config indentSize content depth registry x r)
  then have "size x < size_list size content" by (simp add: size_list_member_less)
  then show ?case by simp
next
  case (3 config indentSize item depth registry cc x r)
  then have "size_list size (snd x) \<le> size item" by (simp add: size_nodeSlots_le)
  then show ?case by simp
qed

declare renderContent.simps [simp del] renderNode.simps [simp del]


definition generateJSX ::
  "(string \<Rightarrow> string \<Rightarrow> int) \<Rightarrow> GenerateJSXOptions \<Rightarrow> error + GeneratedTree" where
  "generateJSX lc options =
     (let baseDepth = (case opt_baseDepth options of None \<Rightarrow> 0 | Some d \<Rightarrow> d);
          indentSize = (case opt_indentSize options of None \<Rightarrow> 2 | Some i \<Rightarrow> i);
          content = (case opt_content options of None \<Rightarrow> [] | Some c \<Rightarrow> c)
      in case renderContent (opt_config options) indentSize content (baseDepth + 1) [] of
           Inl e \<Rightarrow> Inl e
         | Inr (body, registry) \<Rightarrow>
             Inr \<lparr>gt_jsx =
                    (if trim body \<noteq> [] then
                       indent baseDepth indentSize @ ''<>'' @ [newline] @ body @ [newline]
                       @ indent baseDepth indentSize @ ''</>''
                     else indent baseDepth indentSize @ ''<></>''),
                  gt_imports = formatImports lc registry\<rparr>)"

definition generateComponent ::
  "(string \<Rightarrow> string \<Rightarrow> int) \<Rightarrow> GenerateComponentOptions \<Rightarrow> error + GeneratedComponent" where
  "generateComponent lc options =
     (let componentName =
            (case opt_componentName options of None \<Rightarrow> DEFAULT_COMPONENT_NAME | Some n \<Rightarrow> n);
          baseDepth = (case opt_baseDepth options of None \<Rightarrow> 2 | Some d \<Rightarrow> d)
      in case generateJSX lc
                \<lparr>opt_config = opt_config options, opt_content = opt_content options,
                 opt_baseDepth = Some baseDepth, opt_indentSize = opt_indentSize options\<rparr> of
           Inl e \<Rightarrow> Inl e
         | Inr tree \<Rightarrow>
             (let importStatements = formatImportStatements (gt_imports tree);
                  component = ''export function '' @ componentName @ ''() {'' @ [newline]
                    @ ''  return ('' @ [newline] @ gt_jsx tree @ [newline] @ ''  );'' @ [newline] @ ''}''
              in Inr \<lparr>gt_jsx = gt_jsx tree, gt_imports = gt_imports tree,
                      gc_code =
                        (if importStatements \<noteq> [] then
                           join [newline] importStatements @ [newline, newline] @ component
                         else component),
                      gc_importStatements = importStatements\<rparr>))"

section \<open>generate-react.ts: generateReactComponent\<close>

text \<open>A call that may not return: \<open>OutOfFuel\<close> stands for a recursion deeper than the fuel.\<close>

datatype 'a outcome = Returns 'a | Throws error | OutOfFuel

fun bind_out :: "'a outcome \<Rightarrow> ('a \<Rightarrow> 'b outcome) \<Rightarrow> 'b outcome" where
  "bind_out (Returns x) f = f x"
| "bind_out (Throws e) f = Throws e"
| "bind_out OutOfFuel f = OutOfFuel"

fun mapM_out :: "('a \<Rightarrow> 's \<Rightarrow> ('b \<times> 's) outcome) \<Rightarrow> 'a list \<Rightarrow> 's \<Rightarrow> ('b list \<times> 's) outcome" where
  "mapM_out f [] s = Returns ([], s)"
| "mapM_out f (x # xs) s =
     bind_out (f x s) (\<lambda>(y, s'). bind_out (mapM_out f xs s') (\<lambda>(ys, s''). Returns (y # ys, s'')))"

lemma bind_out_cong [fundef_cong]:
  "m = m' \<Longrightarrow> (\<And>x. m' = Returns x \<Longrightarrow> f x = g x) \<Longrightarrow> bind_out m f = bind_out m' g"
  by (cases m') auto

lemma mapM_out_cong [fundef_cong]:
  "xs = ys \<Longrightarrow> s = t \<Longrightarrow> (\<And>x r. x \<in> set ys \<Longrightarrow> f x r = g x r) \<Longrightarrow> mapM_out f xs s = mapM_out g ys t"
proof (induction ys arbitrary: xs s t)
  case Nil then show ?case by simp
next
  case (Cons y ys)
  have "\<And>s'. mapM_out f ys s' = mapM_out g ys s'"
    using Cons.IH [OF refl refl] Cons.prems(3) by simp
  with Cons.prems show ?case by simp
qed

text \<open>The Babel nodes the generator builds. An object property keeps its key as a string:
  \<open>createObjectKey\<close> prints it as an identifier when it is one, as a string literal when not.\<close>

datatype ast =
    NullLiteral
  | StringLiteral string
  | NumericLiteral int
  | BooleanLiteral bool
  | Identifier string
  | UnaryExpression string ast
  | ArrayExpression "ast list"
  | ObjectExpression "(string \<times> ast) list"
  | JSXText string
  | JSXExpressionContainer ast
  | JSXElement string "(string \<times> ast) list" "ast list"
  | JSXFragment "ast list"

datatype import_specifier = ImportDefaultSpecifier string | ImportSpecifier string string

datatype statement =
    ImportDeclaration "import_specifier list" string
  | ExportNamedFunction string ast

fun declaration_path :: "statement \<Rightarrow> string" where
  "declaration_path (ImportDeclaration specifiers path) = path"
| "declaration_path (ExportNamedFunction name body) = []"

fun declaration_specifiers :: "statement \<Rightarrow> import_specifier list" where
  "declaration_specifiers (ImportDeclaration specifiers path) = specifiers"
| "declaration_specifiers (ExportNamedFunction name body) = []"

fun is_default_specifier :: "import_specifier \<Rightarrow> bool" where
  "is_default_specifier (ImportDefaultSpecifier l) = True"
| "is_default_specifier (ImportSpecifier l i) = False"

fun imported_name :: "import_specifier \<Rightarrow> string" where
  "imported_name (ImportDefaultSpecifier l) = l"
| "imported_name (ImportSpecifier l i) = i"

text \<open>\<open>t.valueToNode\<close> of \<^verbatim>\<open>@babel/types\<close>.\<close>

fun valueToNode :: "jsval \<Rightarrow> ast" where
  "valueToNode JUndefined = Identifier ''undefined''"
| "valueToNode JNull = NullLiteral"
| "valueToNode (JBool b) = BooleanLiteral b"
| "valueToNode (JStr s) = StringLiteral s"
| "valueToNode (JNum n) =
     (if n < 0 then UnaryExpression ''-'' (NumericLiteral (- n)) else NumericLiteral n)"
| "valueToNode (JArr xs) = ArrayExpression (map valueToNode xs)"
| "valueToNode (JObj kvs) = ObjectExpression (map (\<lambda>(k, v). (k, valueToNode v)) kvs)"

datatype CodegenImport =
    NamedImportSpec string string "string option"
  | DefaultImportSpec string string

record CodegenComponentTransform =
  tr_as :: "string option"
  tr_import :: "CodegenImport one_or_many option"
  tr_mapProps :: "(jsval \<Rightarrow> jsval) option"
  tr_slotProps :: "(string \<times> string) list"

record ImportBucket =
  ib_named :: "(string \<times> string option) list"
  ib_defaultName :: "string option"

type_synonym ImportBuckets = "(string \<times> ImportBucket) list"

record GenerateReactComponentOptions =
  rc_config :: Config
  rc_content :: "jsval list option"
  rc_componentName :: "string option"
  rc_components :: "(string \<times> CodegenComponentTransform) list option"
  rc_includeIds :: "bool option"
  rc_reactImport :: "bool option"

record RenderEnv =
  env_config :: Config
  env_components :: "(string \<times> CodegenComponentTransform) list"
  env_includeIds :: bool

definition getBucket :: "ImportBuckets \<Rightarrow> string \<Rightarrow> ImportBucket" where
  "getBucket importBuckets path =
     (case map_of importBuckets path of
        Some b \<Rightarrow> b
      | None \<Rightarrow> \<lparr>ib_named = [], ib_defaultName = None\<rparr>)"

definition registerEntry :: "ImportBuckets \<Rightarrow> CodegenImport \<Rightarrow> ImportBuckets outcome" where
  "registerEntry importBuckets entry =
     (case entry of
        DefaultImportSpec path d \<Rightarrow>
          (let bucket = getBucket importBuckets path
           in if truthy_str (ib_defaultName bucket) \<and> ib_defaultName bucket \<noteq> Some d
              then Throws (ImportConflict path)
              else Returns (AList.update path (bucket\<lparr>ib_defaultName := Some d\<rparr>) importBuckets))
      | NamedImportSpec path imp alias \<Rightarrow>
          (let bucket = getBucket importBuckets path;
               existingAlias = (case map_of (ib_named bucket) imp of None \<Rightarrow> None | Some a \<Rightarrow> a)
           in if truthy_str existingAlias \<and> existingAlias \<noteq> alias
              then Throws (ImportConflict path)
              else Returns (AList.update path
                     (bucket\<lparr>ib_named := AList.update imp alias (ib_named bucket)\<rparr>) importBuckets)))"

fun registerEntries :: "ImportBuckets \<Rightarrow> CodegenImport list \<Rightarrow> ImportBuckets outcome" where
  "registerEntries importBuckets [] = Returns importBuckets"
| "registerEntries importBuckets (entry # specs) =
     bind_out (registerEntry importBuckets entry) (\<lambda>b. registerEntries b specs)"

definition registerImport_react ::
  "ImportBuckets \<Rightarrow> CodegenImport one_or_many option \<Rightarrow> ImportBuckets outcome" where
  "registerImport_react importBuckets spec = registerEntries importBuckets (specs_of spec)"

definition pushChild :: "ast \<Rightarrow> ast list" where
  "pushChild node =
     (case node of
        NullLiteral \<Rightarrow> []
      | StringLiteral s \<Rightarrow> [JSXText s]
      | JSXElement name attrs cs \<Rightarrow> [node]
      | JSXFragment cs \<Rightarrow> [node]
      | _ \<Rightarrow> [JSXExpressionContainer node])"

definition attributeFor :: "string \<Rightarrow> ast \<Rightarrow> string \<times> ast" where
  "attributeFor mappedName node =
     (case node of
        StringLiteral s \<Rightarrow> (mappedName, node)
      | _ \<Rightarrow> (mappedName, JSXExpressionContainer node))"

definition fieldOf :: "(string \<times> field) list option \<Rightarrow> string \<Rightarrow> field option" where
  "fieldOf flds name = (case flds of None \<Rightarrow> None | Some fs \<Rightarrow> map_of fs name)"

definition isSlot :: "field option \<Rightarrow> bool" where
  "isSlot f = (case f of None \<Rightarrow> False | Some fd \<Rightarrow> ftype fd = ''slot'')"

definition mappedNameOf :: "CodegenComponentTransform option \<Rightarrow> field option \<Rightarrow> string \<Rightarrow> string" where
  "mappedNameOf transform f name =
     (case transform of
        None \<Rightarrow> name
      | Some tr \<Rightarrow>
          (if isSlot f \<and> truthy_str (map_of (tr_slotProps tr) name)
           then the (map_of (tr_slotProps tr) name) else name))"

text \<open>The element of \<open>createComponent\<close>, once the attributes and children are known
  (lines 336 to 361).\<close>

definition finishComponent ::
  "jsval \<Rightarrow> CodegenComponentTransform option \<Rightarrow> bool \<Rightarrow> (string \<times> ast) list \<Rightarrow> ast list
   \<Rightarrow> ast outcome" where
  "finishComponent component transform addKey attributes children =
     (let props = getprop component ''props'';
          ident = (if nullish props then JUndefined else getprop props ''id'');
          as = (case transform of None \<Rightarrow> None | Some tr \<Rightarrow> tr_as tr)
      in bind_out
           (if addKey \<and> truthy ident \<and> ''key'' \<notin> set (map fst attributes) then
              (case ident of
                 JStr s \<Rightarrow> Returns ((''key'', StringLiteral s) # attributes)
               | _ \<Rightarrow> Throws TypeError)
            else Returns attributes)
           (\<lambda>attrs.
              if truthy_str as then Returns (JSXElement (the as) attrs children)
              else (case getprop component ''type'' of
                      JStr t \<Rightarrow> Returns (JSXElement t attrs children)
                    | _ \<Rightarrow> Throws TypeError)))"


text \<open>The six closures of \<open>generateReactComponent\<close> call each other. Each body is written
  once, over the closures it calls; \<open>createComponent\<close> and \<open>createFieldValueNode\<close> then
  close the recursion, one unit of fuel per call.\<close>

type_synonym 'a gen = "ImportBuckets \<Rightarrow> ('a \<times> ImportBuckets) outcome"

definition createSlotChildren_body ::
  "(jsval \<Rightarrow> bool \<Rightarrow> ast gen) \<Rightarrow> jsval \<Rightarrow> (ast list) gen" where
  "createSlotChildren_body createComponent' content importBuckets =
     (case content of
        JArr xs \<Rightarrow> mapM_out (\<lambda>child. createComponent' child True) xs importBuckets
      | _ \<Rightarrow> Returns ([], importBuckets))"

definition createObjectExpression_body ::
  "(jsval \<Rightarrow> field option \<Rightarrow> (ast option) gen) \<Rightarrow> jsval \<Rightarrow> (string \<times> field) list option
   \<Rightarrow> ast gen" where
  "createObjectExpression_body createFieldValueNode' v flds importBuckets =
     bind_out
       (mapM_out
          (\<lambda>entry b.
             bind_out (createFieldValueNode' (snd entry) (fieldOf flds (fst entry)) b)
               (\<lambda>(node, b').
                  case node of
                    None \<Rightarrow> Returns ([], b')
                  | Some nd \<Rightarrow> Returns ([(fst entry, nd)], b')))
          (filter (\<lambda>entry. snd entry \<noteq> JUndefined) (if truthy v then spread v else []))
          importBuckets)
       (\<lambda>(properties, b). Returns (ObjectExpression (concat properties), b))"

definition createArrayExpression_body ::
  "(jsval \<Rightarrow> (string \<times> field) list option \<Rightarrow> ast gen) \<Rightarrow> jsval
   \<Rightarrow> (string \<times> field) list option \<Rightarrow> ast gen" where
  "createArrayExpression_body createObjectExpression' vs flds importBuckets =
     (if \<not> truthy vs then Returns (ArrayExpression [], importBuckets)
      else (case vs of
              JArr xs \<Rightarrow>
                bind_out
                  (mapM_out
                     (\<lambda>item b.
                        case item of
                          JUndefined \<Rightarrow> Returns (NullLiteral, b)
                        | JObj kvs \<Rightarrow> createObjectExpression' item flds b
                        | _ \<Rightarrow> Returns (valueToNode item, b))
                     xs importBuckets)
                  (\<lambda>(elements, b). Returns (ArrayExpression elements, b))
            | _ \<Rightarrow> Throws TypeError))"

definition createFieldValueNode_body ::
  "(jsval \<Rightarrow> (ast list) gen) \<Rightarrow> (jsval \<Rightarrow> (string \<times> field) list option \<Rightarrow> ast gen)
   \<Rightarrow> (jsval \<Rightarrow> (string \<times> field) list option \<Rightarrow> ast gen)
   \<Rightarrow> jsval \<Rightarrow> field option \<Rightarrow> (ast option) gen" where
  "createFieldValueNode_body createSlotChildren' createArrayExpression' createObjectExpression'
       v f importBuckets =
     (if v = JUndefined then Returns (None, importBuckets)
      else (case f of
              None \<Rightarrow> Returns (Some (valueToNode v), importBuckets)
            | Some fd \<Rightarrow>
                (if ftype fd = ''slot'' then
                   bind_out (createSlotChildren' v importBuckets)
                     (\<lambda>(slotChildren, b).
                        Returns (Some (case slotChildren of
                                         [] \<Rightarrow> NullLiteral
                                       | [c] \<Rightarrow> c
                                       | _ \<Rightarrow> JSXFragment slotChildren), b))
                 else if ftype fd = ''array'' then
                   bind_out (createArrayExpression' (if nullish v then JArr [] else v)
                               (arrayFields fd) importBuckets)
                     (\<lambda>(e, b). Returns (Some e, b))
                 else if ftype fd = ''object'' then
                   bind_out (createObjectExpression' (if nullish v then JObj [] else v)
                               (objectFields fd) importBuckets)
                     (\<lambda>(e, b). Returns (Some e, b))
                 else Returns (Some (valueToNode v), importBuckets))))"

text \<open>One turn of the \<open>forEach\<close> of \<open>createAttributes\<close>: the attributes and the children
  this prop adds.\<close>

definition createAttribute_body ::
  "(jsval \<Rightarrow> (ast list) gen) \<Rightarrow> (jsval \<Rightarrow> field option \<Rightarrow> (ast option) gen)
   \<Rightarrow> bool \<Rightarrow> (string \<times> field) list option \<Rightarrow> CodegenComponentTransform option
   \<Rightarrow> string \<times> jsval \<Rightarrow> ((string \<times> ast) list \<times> ast list) gen" where
  "createAttribute_body createSlotChildren' createFieldValueNode' includeIds flds transform entry b =
     (let name = fst entry; v = snd entry; f = fieldOf flds name;
          mappedName = mappedNameOf transform f name
      in if \<not> includeIds \<and> name = ''id'' then Returns (([], []), b)
         else if mappedName = ''children'' then
           (if isSlot f then
              bind_out (createSlotChildren' v b)
                (\<lambda>(slotChildren, b'). Returns (([], slotChildren), b'))
            else
              bind_out (createFieldValueNode' v f b)
                (\<lambda>(node, b').
                   case node of
                     None \<Rightarrow> Returns (([], []), b')
                   | Some nd \<Rightarrow> Returns (([], pushChild nd), b')))
         else if isSlot f then
           bind_out (createSlotChildren' v b)
             (\<lambda>(slotChildren, b1).
                if (mappedName = ''children'' \<or> name = ''children'') \<and> slotChildren \<noteq> []
                then Returns (([], slotChildren), b1)
                else
                  bind_out (createFieldValueNode' v f b1)
                    (\<lambda>(slotExpression, b2).
                       case slotExpression of
                         None \<Rightarrow> Returns (([], []), b2)
                       | Some e \<Rightarrow> Returns (([(mappedName, JSXExpressionContainer e)], []), b2)))
         else
           bind_out (createFieldValueNode' v f b)
             (\<lambda>(node, b').
                case node of
                  None \<Rightarrow> Returns (([], []), b')
                | Some nd \<Rightarrow> Returns (([attributeFor mappedName nd], []), b')))"

definition createAttributes_body ::
  "(jsval \<Rightarrow> (ast list) gen) \<Rightarrow> (jsval \<Rightarrow> field option \<Rightarrow> (ast option) gen)
   \<Rightarrow> bool \<Rightarrow> jsval \<Rightarrow> (string \<times> field) list option \<Rightarrow> CodegenComponentTransform option
   \<Rightarrow> ((string \<times> ast) list \<times> ast list) gen" where
  "createAttributes_body createSlotChildren' createFieldValueNode' includeIds props flds transform
       importBuckets =
     bind_out
       (mapM_out
          (createAttribute_body createSlotChildren' createFieldValueNode' includeIds flds transform)
          (if truthy props then spread props else []) importBuckets)
       (\<lambda>(parts, b). Returns ((concat (map fst parts), concat (map snd parts)), b))"

text \<open>Lines 321 to 323: the props the attributes are made of.\<close>

definition transformedProps :: "CodegenComponentTransform option \<Rightarrow> jsval \<Rightarrow> jsval" where
  "transformedProps transform component =
     (let props0 = (if truthy (getprop component ''props'')
                    then getprop component ''props'' else JObj [])
      in case transform of
           None \<Rightarrow> props0
         | Some tr \<Rightarrow> (case tr_mapProps tr of None \<Rightarrow> props0 | Some f \<Rightarrow> f props0))"

definition createComponent_body ::
  "(jsval \<Rightarrow> (string \<times> field) list option \<Rightarrow> CodegenComponentTransform option
      \<Rightarrow> ((string \<times> ast) list \<times> ast list) gen)
   \<Rightarrow> RenderEnv \<Rightarrow> jsval \<Rightarrow> bool \<Rightarrow> ast gen" where
  "createComponent_body createAttributes' env component addKey importBuckets =
     (if nullish component then Throws TypeError
      else (case componentConfigOf (env_config env) (js_String (getprop component ''type'')) of
              None \<Rightarrow> Throws (UnknownComponentType (js_String (getprop component ''type'')))
            | Some componentConfig \<Rightarrow>
                (let transform = map_of (env_components env) (js_String (getprop component ''type''));
                     props = transformedProps transform component
                 in bind_out
                      (registerImport_react importBuckets
                         (case transform of None \<Rightarrow> None | Some tr \<Rightarrow> tr_import tr))
                      (\<lambda>b1.
                         bind_out (createAttributes' props (cc_fields componentConfig) transform b1)
                           (\<lambda>((attributes, children), b2).
                              bind_out
                                (finishComponent component transform addKey attributes children)
                                (\<lambda>element. Returns (element, b2)))))))"

fun createComponent :: "nat \<Rightarrow> RenderEnv \<Rightarrow> jsval \<Rightarrow> bool \<Rightarrow> ast gen"
  and createFieldValueNode :: "nat \<Rightarrow> RenderEnv \<Rightarrow> jsval \<Rightarrow> field option \<Rightarrow> (ast option) gen"
where
  "createComponent 0 env = (\<lambda>component addKey importBuckets. OutOfFuel)"
| "createComponent (Suc n) env =
     createComponent_body
       (createAttributes_body (createSlotChildren_body (createComponent n env))
          (createFieldValueNode n env) (env_includeIds env))
       env"
| "createFieldValueNode 0 env = (\<lambda>v f importBuckets. OutOfFuel)"
| "createFieldValueNode (Suc n) env =
     createFieldValueNode_body
       (createSlotChildren_body (createComponent n env))
       (createArrayExpression_body (createObjectExpression_body (createFieldValueNode n env)))
       (createObjectExpression_body (createFieldValueNode n env))"

definition createSlotChildren :: "nat \<Rightarrow> RenderEnv \<Rightarrow> jsval \<Rightarrow> (ast list) gen" where
  "createSlotChildren n env = createSlotChildren_body (createComponent n env)"

definition createObjectExpression ::
  "nat \<Rightarrow> RenderEnv \<Rightarrow> jsval \<Rightarrow> (string \<times> field) list option \<Rightarrow> ast gen" where
  "createObjectExpression n env = createObjectExpression_body (createFieldValueNode n env)"

definition createArrayExpression ::
  "nat \<Rightarrow> RenderEnv \<Rightarrow> jsval \<Rightarrow> (string \<times> field) list option \<Rightarrow> ast gen" where
  "createArrayExpression n env = createArrayExpression_body (createObjectExpression n env)"



text \<open>Lines 385 to 410: one declaration per bucket, the buckets sorted by path, the named
  imports of a bucket sorted by name.\<close>

definition importDeclaration :: "(string \<Rightarrow> string \<Rightarrow> int) \<Rightarrow> string \<times> ImportBucket \<Rightarrow> statement" where
  "importDeclaration lc entry =
     ImportDeclaration
       ((if truthy_str (ib_defaultName (snd entry))
         then [ImportDefaultSpecifier (the (ib_defaultName (snd entry)))] else [])
        @ map (\<lambda>(importName, alias).
                 ImportSpecifier (if truthy_str alias then the alias else importName) importName)
              (sort_by (\<lambda>a b. lc (fst a) (fst b)) (ib_named (snd entry))))
       (fst entry)"

definition importDeclarations :: "(string \<Rightarrow> string \<Rightarrow> int) \<Rightarrow> ImportBuckets \<Rightarrow> statement list" where
  "importDeclarations lc importBuckets =
     map (importDeclaration lc) (sort_by (\<lambda>a b. lc (fst a) (fst b)) importBuckets)"

text \<open>The result is the program handed to Babel's printer: the statements in order.\<close>

definition renderEnv :: "GenerateReactComponentOptions \<Rightarrow> RenderEnv" where
  "renderEnv options =
     \<lparr>env_config = rc_config options,
      env_components = (case rc_components options of None \<Rightarrow> [] | Some c \<Rightarrow> c),
      env_includeIds = (case rc_includeIds options of None \<Rightarrow> False | Some b \<Rightarrow> b)\<rparr>"

definition generateReactComponent ::
  "(string \<Rightarrow> string \<Rightarrow> int) \<Rightarrow> nat \<Rightarrow> GenerateReactComponentOptions \<Rightarrow> statement list outcome" where
  "generateReactComponent lc fuel options =
     (let env = renderEnv options
      in bind_out
           (mapM_out (\<lambda>component. createComponent fuel env component False)
              (case rc_content options of None \<Rightarrow> [] | Some c \<Rightarrow> c) [])
           (\<lambda>(rootChildren, importBuckets).
              Returns
                ((if (case rc_reactImport options of None \<Rightarrow> True | Some b \<Rightarrow> b)
                  then [ImportDeclaration [ImportDefaultSpecifier ''React''] ''react''] else [])
                 @ importDeclarations lc importBuckets
                 @ [ExportNamedFunction
                      (case rc_componentName options of None \<Rightarrow> ''GeneratedPage'' | Some n \<Rightarrow> n)
                      (JSXFragment rootChildren)])))"

section \<open>generate-react-code.ts: generateReactCode\<close>

text \<open>\<open>CodegenImport\<close> is \<open>{path, name?, default?}\<close>; \<open>CodegenComponentConfig\<close> has the hook
  \<open>transformProps\<close>, which takes the component and its cleaned props. This generator never
  reads the schema: \<open>config\<close> is among its options and is not used.\<close>

record CodegenImportConfig =
  ci_path :: string
  ci_name :: "string option"
  ci_default :: "bool option"

record CodegenComponentConfig =
  cm_as :: "string option"
  cm_import :: "CodegenImportConfig option"
  cm_omitProps :: "string list option"
  cm_preserveId :: "bool option"
  cm_transformProps :: "(jsval \<Rightarrow> (string \<times> jsval) list \<Rightarrow> jsval) option"

record ImportRecord =
  ir_defaultImport :: "string option"
  ir_named :: "(string \<times> string option) list"

type_synonym ImportMap = "(string \<times> ImportRecord) list"

record InternalContext =
  ctx_componentMap :: "(string \<times> CodegenComponentConfig) list option"
  ctx_omitIds :: bool

record Wrapper =
  wr_open :: string
  wr_close :: string

record GenerateReactCodeOptions =
  co_content :: "jsval list option"
  co_componentMap :: "(string \<times> CodegenComponentConfig) list option"
  co_componentName :: "string option"
  co_exportDefault :: "bool option"
  co_includeImports :: "bool option"
  co_includeReactImport :: "bool option"
  co_omitIds :: "bool option"
  co_wrapper :: "Wrapper option"

record GenerateReactCodeResult =
  res_code :: string
  res_imports :: "string list"

datatype prop_kind = KindString | KindExpression

definition indent_code :: "nat \<Rightarrow> string" where
  "indent_code level = concat (replicate level ''  '')"

definition isComponentData :: "jsval \<Rightarrow> bool" where
  "isComponentData v =
     (case v of
        JObj kvs \<Rightarrow> ''type'' \<in> set (map fst kvs) \<and> ''props'' \<in> set (map fst kvs)
      | _ \<Rightarrow> False)"

definition registerImport_code :: "string \<Rightarrow> CodegenImportConfig \<Rightarrow> ImportMap \<Rightarrow> ImportMap" where
  "registerImport_code localName importConfig imports =
     (let record = (case map_of imports (ci_path importConfig) of
                      Some r \<Rightarrow> r
                    | None \<Rightarrow> \<lparr>ir_defaultImport = None, ir_named = []\<rparr>)
      in if ci_default importConfig = Some True then
           AList.update (ci_path importConfig) (record\<lparr>ir_defaultImport := Some localName\<rparr>) imports
         else
           (let importName = (case ci_name importConfig of None \<Rightarrow> localName | Some n \<Rightarrow> n)
            in AList.update (ci_path importConfig)
                 (if \<not> (\<exists>entry \<in> set (ir_named record).
                           fst entry = importName \<and> snd entry = Some localName)
                  then record\<lparr>ir_named := ir_named record
                         @ [if localName = importName then (importName, None)
                            else (importName, Some localName)]\<rparr>
                  else record)
                 imports))"

definition buildImportLines :: "string \<times> ImportRecord \<Rightarrow> string list" where
  "buildImportLines entry =
     (let path = fst entry; record = snd entry;
          named = join '', ''
            (map (\<lambda>e. if truthy_str (snd e) \<and> snd e \<noteq> Some (fst e)
                       then fst e @ '' as '' @ the (snd e) else fst e)
                 (ir_named record));
          hasDefault = truthy_str (ir_defaultImport record);
          hasNamed = (named \<noteq> []);
          from = '' from '' @ [CHR 0x22] @ path @ [CHR 0x22] @ '';''
      in if \<not> hasDefault \<and> \<not> hasNamed then []
         else if hasDefault \<and> hasNamed then
           [''import '' @ the (ir_defaultImport record) @ from, ''import { '' @ named @ '' }'' @ from]
         else if hasDefault then [''import '' @ the (ir_defaultImport record) @ from]
         else [''import { '' @ named @ '' }'' @ from])"

definition REACT_IMPORT :: string where
  "REACT_IMPORT = ''import React from '' @ [CHR 0x22] @ ''react'' @ [CHR 0x22] @ '';''"

definition buildImports :: "(string \<Rightarrow> string \<Rightarrow> int) \<Rightarrow> ImportMap \<Rightarrow> bool \<Rightarrow> string list" where
  "buildImports lc imports includeReact =
     (if includeReact then [REACT_IMPORT] else [])
     @ concat (map buildImportLines (sort_by (\<lambda>a b. lc (fst a) (fst b)) imports))"

type_synonym 'a gen_code = "ImportMap \<Rightarrow> ('a \<times> ImportMap) outcome"

definition formatPropValue_body ::
  "(jsval \<Rightarrow> nat \<Rightarrow> string gen_code) \<Rightarrow> (jsval \<Rightarrow> nat \<Rightarrow> (prop_kind \<times> string) gen_code)
   \<Rightarrow> jsval \<Rightarrow> nat \<Rightarrow> (prop_kind \<times> string) gen_code" where
  "formatPropValue_body renderComponent' formatPropValue' v depth imports =
     (case v of
        JUndefined \<Rightarrow> Returns ((KindExpression, ''undefined''), imports)
      | JStr s \<Rightarrow> Returns ((KindString, json_quote s), imports)
      | JNum n \<Rightarrow> Returns ((KindExpression, js_String v), imports)
      | JBool b \<Rightarrow> Returns ((KindExpression, js_String v), imports)
      | JNull \<Rightarrow> Returns ((KindExpression, ''null''), imports)
      | JArr xs \<Rightarrow>
          (if xs = [] then Returns ((KindExpression, ''[]''), imports)
           else
             bind_out
               (mapM_out
                  (\<lambda>item im.
                     if isComponentData item then renderComponent' item (depth + 1) im
                     else bind_out (formatPropValue' item (depth + 1) im)
                            (\<lambda>(formatted, im'). Returns (indent_code (depth + 1) @ snd formatted, im')))
                  xs imports)
               (\<lambda>(inner, im).
                  Returns ((KindExpression,
                            ''['' @ [newline] @ join ('','' @ [newline]) inner @ [newline]
                            @ indent_code depth @ '']''), im)))
      | JObj kvs \<Rightarrow>
          (if isComponentData v then
             bind_out (renderComponent' v (depth + 2) imports)
               (\<lambda>(rendered, im).
                  Returns ((KindExpression,
                            ''('' @ [newline] @ rendered @ [newline] @ indent_code (depth + 1) @ '')''),
                           im))
           else
             (let entries = filter (\<lambda>e. snd e \<noteq> JUndefined) kvs
              in if entries = [] then Returns ((KindExpression, ''{}''), imports)
                 else
                   bind_out
                     (mapM_out
                        (\<lambda>e im.
                           bind_out (formatPropValue' (snd e) (depth + 1) im)
                             (\<lambda>(formatted, im').
                                Returns (indent_code (depth + 1) @ fst e @ '': '' @ snd formatted, im')))
                        entries imports)
                     (\<lambda>(lines, im).
                        Returns ((KindExpression,
                                  ''{'' @ [newline] @ join ('','' @ [newline]) lines @ [newline]
                                  @ indent_code depth @ ''}''), im)))))"

definition formatChild ::
  "(jsval \<Rightarrow> nat \<Rightarrow> string gen_code) \<Rightarrow> (jsval \<Rightarrow> nat \<Rightarrow> (prop_kind \<times> string) gen_code)
   \<Rightarrow> nat \<Rightarrow> jsval \<Rightarrow> string gen_code" where
  "formatChild renderComponent' formatPropValue' depth child im =
     (if isComponentData child then renderComponent' child depth im
      else bind_out (formatPropValue' child depth im)
             (\<lambda>(formatted, im'). Returns (indent_code depth @ ''{'' @ snd formatted @ ''}'', im')))"

definition formatChildren_body ::
  "(jsval \<Rightarrow> nat \<Rightarrow> string gen_code) \<Rightarrow> (jsval \<Rightarrow> nat \<Rightarrow> (prop_kind \<times> string) gen_code)
   \<Rightarrow> jsval \<Rightarrow> nat \<Rightarrow> (string option) gen_code" where
  "formatChildren_body renderComponent' formatPropValue' v depth imports =
     (if nullish v then Returns (None, imports)
      else (case v of
              JArr xs \<Rightarrow>
                (if xs = [] then Returns (None, imports)
                 else bind_out
                        (mapM_out (formatChild renderComponent' formatPropValue' depth) xs imports)
                        (\<lambda>(cs, im). Returns (Some (join [newline] cs), im)))
            | _ \<Rightarrow>
                bind_out (formatChild renderComponent' formatPropValue' depth v imports)
                  (\<lambda>(c, im). Returns (Some c, im))))"

definition cleanProps :: "InternalContext \<Rightarrow> CodegenComponentConfig option \<Rightarrow> jsval \<Rightarrow> (string \<times> jsval) list" where
  "cleanProps ctx mapEntry component =
     (let omitId = (ctx_omitIds ctx
                    \<and> \<not> (case mapEntry of None \<Rightarrow> False | Some m \<Rightarrow> cm_preserveId m = Some True));
          cleaned0 = AList.delete ''editMode'' (AList.delete ''puck'' (spread (getprop component ''props'')));
          cleaned1 = (if omitId then AList.delete ''id'' cleaned0 else cleaned0)
      in foldl (\<lambda>ps p. AList.delete p ps) cleaned1
           (case mapEntry of
              None \<Rightarrow> []
            | Some m \<Rightarrow> (case cm_omitProps m of None \<Rightarrow> [] | Some ps \<Rightarrow> ps)))"

definition renderComponent_body ::
  "(jsval \<Rightarrow> nat \<Rightarrow> (prop_kind \<times> string) gen_code) \<Rightarrow> (jsval \<Rightarrow> nat \<Rightarrow> (string option) gen_code)
   \<Rightarrow> InternalContext \<Rightarrow> jsval \<Rightarrow> nat \<Rightarrow> string gen_code" where
  "renderComponent_body formatPropValue' formatChildren' ctx component depth imports =
     (if nullish component then Throws TypeError
      else
        (let mapEntry = (case ctx_componentMap ctx of
                           None \<Rightarrow> None
                         | Some m \<Rightarrow> map_of m (js_String (getprop component ''type'')));
             componentName = (case (case mapEntry of None \<Rightarrow> None | Some m \<Rightarrow> cm_as m) of
                                Some a \<Rightarrow> a
                              | None \<Rightarrow> js_String (getprop component ''type''));
             imports1 = (case (case mapEntry of None \<Rightarrow> None | Some m \<Rightarrow> cm_import m) of
                           Some i \<Rightarrow> registerImport_code componentName i imports
                         | None \<Rightarrow> imports);
             cleanedProps = cleanProps ctx mapEntry component;
             transformedProps =
               (case (case mapEntry of None \<Rightarrow> None | Some m \<Rightarrow> cm_transformProps m) of
                  Some f \<Rightarrow> f component cleanedProps
                | None \<Rightarrow> JObj cleanedProps)
         in if nullish transformedProps then Throws TypeError
            else
              bind_out
                (mapM_out
                   (\<lambda>entry im.
                      bind_out (formatPropValue' (snd entry) depth im)
                        (\<lambda>(formatted, im').
                           Returns
                             (if fst formatted = KindString
                              then indent_code depth @ fst entry @ ''='' @ snd formatted
                              else indent_code depth @ fst entry @ ''={'' @ snd formatted @ ''}'',
                              im')))
                   (filter (\<lambda>e. snd e \<noteq> JUndefined)
                      (AList.delete ''children'' (spread transformedProps)))
                   imports1)
                (\<lambda>(propLines, im2).
                   bind_out (formatChildren' (getprop transformedProps ''children'') (depth + 1) im2)
                     (\<lambda>(childrenContent, im3).
                        Returns
                          (if propLines = [] \<and> \<not> truthy_str childrenContent then
                             indent_code depth @ ''<'' @ componentName @ '' />''
                           else if \<not> truthy_str childrenContent then
                             indent_code depth @ ''<'' @ componentName @ [newline]
                             @ join [newline] propLines @ [newline] @ indent_code depth @ '' />''
                           else
                             indent_code depth @ ''<'' @ componentName
                             @ (if propLines \<noteq> [] then
                                  [newline] @ join [newline] propLines @ [newline] @ indent_code depth
                                else [])
                             @ ''>'' @ [newline] @ the childrenContent @ [newline] @ indent_code depth
                             @ ''</'' @ componentName @ ''>'',
                           im3)))))"

fun renderComponent :: "nat \<Rightarrow> InternalContext \<Rightarrow> jsval \<Rightarrow> nat \<Rightarrow> string gen_code"
  and formatPropValue :: "nat \<Rightarrow> InternalContext \<Rightarrow> jsval \<Rightarrow> nat \<Rightarrow> (prop_kind \<times> string) gen_code"
where
  "renderComponent 0 ctx = (\<lambda>component depth imports. OutOfFuel)"
| "renderComponent (Suc n) ctx =
     renderComponent_body (formatPropValue n ctx)
       (formatChildren_body (renderComponent n ctx) (formatPropValue n ctx)) ctx"
| "formatPropValue 0 ctx = (\<lambda>v depth imports. OutOfFuel)"
| "formatPropValue (Suc n) ctx = formatPropValue_body (renderComponent n ctx) (formatPropValue n ctx)"

definition formatChildren :: "nat \<Rightarrow> InternalContext \<Rightarrow> jsval \<Rightarrow> nat \<Rightarrow> (string option) gen_code" where
  "formatChildren n ctx = formatChildren_body (renderComponent n ctx) (formatPropValue n ctx)"

definition generateReactCode ::
  "(string \<Rightarrow> string \<Rightarrow> int) \<Rightarrow> nat \<Rightarrow> GenerateReactCodeOptions \<Rightarrow> GenerateReactCodeResult outcome" where
  "generateReactCode lc fuel options =
     (let componentName = (case co_componentName options of None \<Rightarrow> ''GeneratedPage'' | Some n \<Rightarrow> n);
          exportDefault = (case co_exportDefault options of None \<Rightarrow> False | Some b \<Rightarrow> b);
          includeImports = (case co_includeImports options of None \<Rightarrow> True | Some b \<Rightarrow> b);
          includeReactImport = (case co_includeReactImport options of None \<Rightarrow> False | Some b \<Rightarrow> b);
          wrapper = (case co_wrapper options of
                       None \<Rightarrow> \<lparr>wr_open = ''<>'', wr_close = ''</>''\<rparr>
                     | Some w \<Rightarrow> w);
          ctx = \<lparr>ctx_componentMap = co_componentMap options,
                 ctx_omitIds = (case co_omitIds options of None \<Rightarrow> True | Some b \<Rightarrow> b)\<rparr>
      in bind_out
           (mapM_out (\<lambda>component. renderComponent fuel ctx component 2)
              (case co_content options of None \<Rightarrow> [] | Some c \<Rightarrow> c) [])
           (\<lambda>(rendered, imports).
              (let bodyContent =
                     (if rendered \<noteq> [] then join [newline, newline] rendered
                      else indent_code 3 @ ''{/* No components in data */}'');
                   componentBody =
                     [''export '' @ (if exportDefault then ''default '' else []) @ ''function ''
                        @ componentName @ ''() {'',
                      ''  return ('',
                      ''    '' @ wr_open wrapper,
                      bodyContent,
                      ''    '' @ wr_close wrapper,
                      ''  );'',
                      ''}''];
                   importLines =
                     (if includeImports then buildImports lc imports includeReactImport
                      else if includeReactImport then [REACT_IMPORT] else [])
               in Returns
                    \<lparr>res_code =
                       (if importLines \<noteq> [] then
                          join [newline] importLines @ [newline, newline] @ join [newline] componentBody
                        else join [newline] componentBody),
                     res_imports = importLines\<rparr>)))"


text \<open>The body of \<open>generateReactCode\<close> (lines 95 to 103) when nothing was rendered.\<close>

definition emptyBody :: "GenerateReactCodeOptions \<Rightarrow> string" where
  "emptyBody options =
     join [newline]
       [''export '' @ (if (case co_exportDefault options of None \<Rightarrow> False | Some b \<Rightarrow> b)
                      then ''default '' else [])
          @ ''function ''
          @ (case co_componentName options of None \<Rightarrow> ''GeneratedPage'' | Some n \<Rightarrow> n)
          @ ''() {'',
        ''  return ('',
        ''    '' @ wr_open (case co_wrapper options of
                             None \<Rightarrow> \<lparr>wr_open = ''<>'', wr_close = ''</>''\<rparr> | Some w \<Rightarrow> w),
        indent_code 3 @ ''{/* No components in data */}'',
        ''    '' @ wr_close (case co_wrapper options of
                              None \<Rightarrow> \<lparr>wr_open = ''<>'', wr_close = ''</>''\<rparr> | Some w \<Rightarrow> w),
        ''  );'',
        ''}'']"

section \<open>Named parts of the generators\<close>

text \<open>The second reduce of \<open>renderNode\<close> (part_001, lines 189 to 195): every slot is rendered
  at depth 1, in the order of the slot names, on the registry the slot before it left.\<close>

definition renderSlots ::
  "Config \<Rightarrow> nat \<Rightarrow> (string \<times> jsval list) list \<Rightarrow> ImportRegistry
   \<Rightarrow> error + ((string \<times> string) list \<times> ImportRegistry)" where
  "renderSlots config indentSize slots registry =
     mapM_reg (\<lambda>slot r. case renderContent config indentSize (snd slot) 1 r of
                           Inl e \<Rightarrow> Inl e
                         | Inr (code, r') \<Rightarrow> Inr ((fst slot, code), r'))
              slots registry"



text \<open>\<open>.filter(Boolean)\<close> on the attributes of a loop that may have thrown.\<close>

definition strip :: "error + string option list \<Rightarrow> error + string list" where
  "strip m = (case m of Inl e \<Rightarrow> Inl e | Inr ys \<Rightarrow> Inr (filterBoolean ys))"

text \<open>The callback of \<open>value.map\<close> in \<open>formatPropValue\<close> (generate-react-code.ts, lines 191
  to 198), for the calls that \<open>formatPropValue\<close> makes with fuel \<open>n\<close> left.\<close>

definition arrayElement_code :: "nat \<Rightarrow> InternalContext \<Rightarrow> nat \<Rightarrow> jsval \<Rightarrow> string gen_code" where
  "arrayElement_code n ctx depth item im =
     (if isComponentData item then renderComponent n ctx item (depth + 1) im
      else bind_out (formatPropValue n ctx item (depth + 1) im)
             (\<lambda>(formatted, im'). Returns (indent_code (depth + 1) @ snd formatted, im')))"

text \<open>The three texts \<open>renderComponent\<close> returns (lines 324 to 342).\<close>

definition elementText :: "nat \<Rightarrow> string \<Rightarrow> string list \<Rightarrow> string option \<Rightarrow> string" where
  "elementText depth componentName propLines childrenContent =
     (if propLines = [] \<and> \<not> truthy_str childrenContent then
        indent_code depth @ ''<'' @ componentName @ '' />''
      else if \<not> truthy_str childrenContent then
        indent_code depth @ ''<'' @ componentName @ [newline]
        @ join [newline] propLines @ [newline] @ indent_code depth @ '' />''
      else
        indent_code depth @ ''<'' @ componentName
        @ (if propLines \<noteq> [] then
             [newline] @ join [newline] propLines @ [newline] @ indent_code depth
           else [])
        @ ''>'' @ [newline] @ the childrenContent @ [newline] @ indent_code depth
        @ ''</'' @ componentName @ ''>'')"

text \<open>A context none of whose component-map entries has a \<open>transformProps\<close> hook: the
  recursion of \<open>generateReactCode\<close> then follows the data alone.\<close>

definition hookFree :: "InternalContext \<Rightarrow> bool" where
  "hookFree ctx =
     (\<forall>entry \<in> set (case ctx_componentMap ctx of None \<Rightarrow> [] | Some m \<Rightarrow> m).
        cm_transformProps (snd entry) = None)"

text \<open>The callback of \<open>(values || []).map\<close> in \<open>createArrayExpression\<close> (generate-react.ts,
  lines 131 to 141), for the calls that \<open>createFieldValueNode\<close> makes with fuel \<open>n\<close> left.\<close>

definition arrayElement ::
  "nat \<Rightarrow> RenderEnv \<Rightarrow> (string \<times> field) list option \<Rightarrow> jsval \<Rightarrow> ast gen" where
  "arrayElement n env flds item b =
     (case item of
        JUndefined \<Rightarrow> Returns (NullLiteral, b)
      | JObj kvs \<Rightarrow> createObjectExpression n env item flds b
      | _ \<Rightarrow> Returns (valueToNode item, b))"

text \<open>An item schema none of whose fields is a slot, an array or an object: every property
  of an item is then a plain value.\<close>

definition scalarFields :: "(string \<times> field) list option \<Rightarrow> bool" where
  "scalarFields flds =
     (\<forall>entry \<in> set (case flds of None \<Rightarrow> [] | Some fs \<Rightarrow> fs).
        ftype (snd entry) \<noteq> ''slot'' \<and> ftype (snd entry) \<noteq> ''array''
        \<and> ftype (snd entry) \<noteq> ''object'')"

section \<open>Nodes of unregistered type\<close>

text \<open>The nodes of a content tree that \<open>generateJSX\<close> reaches: a node of the content, or a
  node in a slot of a registered node that is not marked \<open>skip\<close>. \<open>unknown_in config item\<close>
  says that the tree under \<open>item\<close> holds such a node whose type the schema lookup does not
  find.\<close>

inductive unknown_in :: "Config \<Rightarrow> jsval \<Rightarrow> bool" for config :: Config where
  unknown_here:
    "\<not> nullish item \<Longrightarrow> componentConfigOf config (js_String (getprop item ''type'')) = None
     \<Longrightarrow> unknown_in config item"
| unknown_below:
    "\<not> nullish item \<Longrightarrow> componentConfigOf config (js_String (getprop item ''type'')) = Some cc
     \<Longrightarrow> \<not> (case cc_codegen cc of None \<Rightarrow> False | Some g \<Rightarrow> cg_skip g)
     \<Longrightarrow> slot \<in> set (nodeSlots cc item) \<Longrightarrow> child \<in> set (snd slot)
     \<Longrightarrow> unknown_in config child
     \<Longrightarrow> unknown_in config item"

text \<open>The same for \<open>generateReactComponent\<close>, which walks the props that \<open>mapProps\<close>
  returned: a node in an array under a slot field of those props (the prop \<open>id\<close> is left out
  unless ids are included).\<close>

inductive unknown_in_react :: "RenderEnv \<Rightarrow> jsval \<Rightarrow> bool" for env :: RenderEnv where
  unknown_here_react:
    "\<not> nullish component
     \<Longrightarrow> componentConfigOf (env_config env) (js_String (getprop component ''type'')) = None
     \<Longrightarrow> unknown_in_react env component"
| unknown_below_react:
    "\<not> nullish component
     \<Longrightarrow> componentConfigOf (env_config env) (js_String (getprop component ''type'')) = Some cc
     \<Longrightarrow> props = transformedProps
                   (map_of (env_components env) (js_String (getprop component ''type''))) component
     \<Longrightarrow> truthy props \<Longrightarrow> (name, JArr xs) \<in> set (spread props)
     \<Longrightarrow> env_includeIds env \<or> name \<noteq> ''id''
     \<Longrightarrow> isSlot (fieldOf (cc_fields cc) name)
     \<Longrightarrow> child \<in> set xs \<Longrightarrow> unknown_in_react env child
     \<Longrightarrow> unknown_in_react env component"

text \<open>The walk of \<open>generateJSX\<close> reaches a node of unregistered type before anything else
  fails: \<open>unknown_first config indentSize item registry t\<close> says that \<open>item\<close>, rendered on
  \<open>registry\<close>, is such a node of type \<open>t\<close>, or holds one in a slot, where the slots before that
  slot and the siblings before that node all render.\<close>

inductive unknown_first :: "Config \<Rightarrow> nat \<Rightarrow> jsval \<Rightarrow> ImportRegistry \<Rightarrow> string \<Rightarrow> bool"
  for config :: Config and indentSize :: nat where
  unknown_first_here:
    "\<not> nullish item \<Longrightarrow> componentConfigOf config (js_String (getprop item ''type'')) = None
     \<Longrightarrow> unknown_first config indentSize item registry (js_String (getprop item ''type''))"
| unknown_first_below:
    "\<not> nullish item \<Longrightarrow> componentConfigOf config (js_String (getprop item ''type'')) = Some cc
     \<Longrightarrow> \<not> (case cc_codegen cc of None \<Rightarrow> False | Some g \<Rightarrow> cg_skip g)
     \<Longrightarrow> nodeSlots cc item = slotsBefore @ (name, before @ child # after) # slotsAfter
     \<Longrightarrow> renderSlots config indentSize slotsBefore registry = Inr (slotStrings, registryS)
     \<Longrightarrow> renderContent config indentSize before 1 registryS = Inr (code, registryC)
     \<Longrightarrow> unknown_first config indentSize child registryC t
     \<Longrightarrow> unknown_first config indentSize item registry t"

text \<open>The same for \<open>generateReactComponent\<close>, with \<open>n\<close> the fuel of the call on \<open>component\<close>:
  the import of the node registers, the props before the slot give their attributes, and the
  siblings before the node in the slot render.\<close>

inductive unknown_first_react ::
  "RenderEnv \<Rightarrow> nat \<Rightarrow> jsval \<Rightarrow> ImportBuckets \<Rightarrow> string \<Rightarrow> bool" for env :: RenderEnv where
  unknown_first_here_react:
    "\<not> nullish component
     \<Longrightarrow> componentConfigOf (env_config env) (js_String (getprop component ''type'')) = None
     \<Longrightarrow> unknown_first_react env (Suc n) component importBuckets
           (js_String (getprop component ''type''))"
| unknown_first_below_react:
    "\<not> nullish component
     \<Longrightarrow> componentConfigOf (env_config env) (js_String (getprop component ''type'')) = Some cc
     \<Longrightarrow> transform = map_of (env_components env) (js_String (getprop component ''type''))
     \<Longrightarrow> registerImport_react importBuckets
           (case transform of None \<Rightarrow> None | Some tr \<Rightarrow> tr_import tr) = Returns bI
     \<Longrightarrow> props = transformedProps transform component
     \<Longrightarrow> truthy props
     \<Longrightarrow> spread props = entriesBefore @ (name, JArr (before @ child # after)) # entriesAfter
     \<Longrightarrow> mapM_out (createAttribute_body (createSlotChildren n env) (createFieldValueNode n env)
                    (env_includeIds env) (cc_fields cc) transform) entriesBefore bI
         = Returns (parts, bA)
     \<Longrightarrow> env_includeIds env \<or> name \<noteq> ''id''
     \<Longrightarrow> isSlot (fieldOf (cc_fields cc) name)
     \<Longrightarrow> mapM_out (\<lambda>c. createComponent n env c True) before bA = Returns (elements, bC)
     \<Longrightarrow> unknown_first_react env n child bC t
     \<Longrightarrow> unknown_first_react env (Suc n) component importBuckets t"

text \<open>The errors a walk can end with: an \<open>UnknownComponentType\<close> names a type the schema
  lookup does not find.\<close>

definition error_of_walk :: "Config \<Rightarrow> error \<Rightarrow> bool" where
  "error_of_walk config e =
     (case e of
        UnknownComponentType t \<Rightarrow> componentConfigOf config t = None
      | _ \<Rightarrow> True)"

section \<open>The result does not depend on the fuel\<close>

text \<open>\<open>settled m m'\<close>: once a call has an outcome other than \<open>OutOfFuel\<close>, a call with more
  fuel has the same outcome.\<close>

definition settled :: "'a outcome \<Rightarrow> 'a outcome \<Rightarrow> bool" where
  "settled m m' = (m \<noteq> OutOfFuel \<longrightarrow> m' = m)"

section \<open>Lemmas about the shared primitives\<close>

lemma sort_by_Nil [simp]: "sort_by c [] = []"
  by (simp add: sort_by_def)

lemma trim_Nil [simp]: "trim [] = []"
  by (simp add: trim_def trimEnd_def trimStart_def)

lemma consistent_key: "consistent c \<Longrightarrow> consistent (\<lambda>a b. c (f a) (f b))"
  unfolding consistent_def by blast

lemma set_insert_by [simp]: "set (insert_by c x xs) = insert x (set xs)"
  by (induction xs) auto

lemma set_sort_by [simp]: "set (sort_by c xs) = set xs"
  by (induction xs) (simp_all add: sort_by_def)

lemma length_insert_by [simp]: "length (insert_by c x xs) = Suc (length xs)"
  by (induction xs) auto

lemma length_sort_by [simp]: "length (sort_by c xs) = length xs"
  by (induction xs) (simp_all add: sort_by_def)

lemma sorted_insert_by:
  assumes "consistent c" and "sorted_wrt (\<lambda>a b. c a b \<le> 0) xs"
  shows "sorted_wrt (\<lambda>a b. c a b \<le> 0) (insert_by c x xs)"
  using assms(2)
proof (induction xs)
  case Nil
  then show ?case by simp
next
  case (Cons y ys)
  show ?case
  proof (cases "c x y \<le> 0")
    case True
    have "\<forall>z \<in> set ys. c x z \<le> 0"
      using True Cons.prems assms(1) unfolding consistent_def by (metis sorted_wrt.simps(2))
    with True Cons.prems show ?thesis by simp
  next
    case False
    then have "c y x \<le> 0" using assms(1) unfolding consistent_def by blast
    with False Cons show ?thesis by auto
  qed
qed

lemma sorted_sort_by: "consistent c \<Longrightarrow> sorted_wrt (\<lambda>a b. c a b \<le> 0) (sort_by c xs)"
  by (induction xs) (simp_all add: sort_by_def sorted_insert_by)

lemma consistent_compareCodeUnits_aux1: "compareCodeUnits a b \<le> 0 \<or> compareCodeUnits b a \<le> 0"
  by (induction a b rule: compareCodeUnits.induct) auto

lemma compareCodeUnits_trans:
  "compareCodeUnits a b \<le> 0 \<Longrightarrow> compareCodeUnits b d \<le> 0 \<Longrightarrow> compareCodeUnits a d \<le> 0"
proof (induction a b arbitrary: d rule: compareCodeUnits.induct)
  case 1
  then show ?case by simp
next
  case (2 y ys)
  then show ?case by (cases d) auto
next
  case (3 x xs)
  then show ?case by simp
next
  case (4 x xs y ys)
  then show ?case by (cases d) (auto split: if_splits)
qed

lemma consistent_compareCodeUnits: "consistent compareCodeUnits"
  unfolding consistent_def using consistent_compareCodeUnits_aux1 compareCodeUnits_trans by blast

section \<open>Empty content\<close>

lemma formatImports_Nil [simp]: "formatImports lc [] = []"
  by (simp add: formatImports_def)

lemma renderContent_Nil [simp]:
  "renderContent config indentSize [] depth registry = Inr ([], registry)"
  by (simp add: renderContent.simps)

lemma generateJSX_empty:
  assumes "opt_content options = None \<or> opt_content options = Some []"
  shows "generateJSX lc options =
           Inr \<lparr>gt_jsx = indent (case opt_baseDepth options of None \<Rightarrow> 0 | Some d \<Rightarrow> d)
                            (case opt_indentSize options of None \<Rightarrow> 2 | Some i \<Rightarrow> i) @ ''<></>'',
                gt_imports = []\<rparr>"
  using assms by (auto simp: generateJSX_def)

lemma generateReactComponent_empty:
  assumes "rc_content options = None \<or> rc_content options = Some []"
  shows "generateReactComponent lc fuel options =
           Returns ((if (case rc_reactImport options of None \<Rightarrow> True | Some b \<Rightarrow> b)
                     then [ImportDeclaration [ImportDefaultSpecifier ''React''] ''react''] else [])
                    @ [ExportNamedFunction
                         (case rc_componentName options of None \<Rightarrow> ''GeneratedPage'' | Some n \<Rightarrow> n)
                         (JSXFragment [])])"
  using assms by (auto simp: generateReactComponent_def importDeclarations_def)

lemma generateReactCode_empty:
  assumes "co_content options = None \<or> co_content options = Some []"
  shows "generateReactCode lc fuel options =
           Returns
             (if (case co_includeReactImport options of None \<Rightarrow> False | Some b \<Rightarrow> b)
              then \<lparr>res_code = REACT_IMPORT @ [newline, newline] @ emptyBody options,
                    res_imports = [REACT_IMPORT]\<rparr>
              else \<lparr>res_code = emptyBody options, res_imports = []\<rparr>)"
proof -
  have c: "(case co_content options of None \<Rightarrow> [] | Some c \<Rightarrow> c) = []"
    using assms by auto
  show ?thesis
    unfolding generateReactCode_def Let_def c emptyBody_def
    by (simp del: join.simps add: buildImports_def join.simps(2))
qed

section \<open>The finalized import list\<close>

lemma importDeclarations_sorted:
  assumes "consistent lc"
  shows "sorted_wrt (\<lambda>s t. lc (declaration_path s) (declaration_path t) \<le> 0)
           (importDeclarations lc importBuckets)"
proof -
  have "sorted_wrt (\<lambda>a b. lc (fst a) (fst b) \<le> 0) (sort_by (\<lambda>a b. lc (fst a) (fst b)) importBuckets)"
    using sorted_sort_by [OF consistent_key [OF assms, of fst]] .
  then show ?thesis
    by (simp add: importDeclarations_def sorted_wrt_map importDeclaration_def)
qed

lemma importDeclaration_specifiers:
  assumes "consistent lc"
  shows "\<exists>ds ns. declaration_specifiers (importDeclaration lc entry) = ds @ ns
           \<and> length ds \<le> 1 \<and> (\<forall>d \<in> set ds. is_default_specifier d)
           \<and> (\<forall>n \<in> set ns. \<not> is_default_specifier n)
           \<and> sorted_wrt (\<lambda>a b. lc (imported_name a) (imported_name b) \<le> 0) ns
           \<and> map imported_name ns = map fst (sort_by (\<lambda>a b. lc (fst a) (fst b)) (ib_named (snd entry)))"
proof -
  let ?ds = "if truthy_str (ib_defaultName (snd entry))
             then [ImportDefaultSpecifier (the (ib_defaultName (snd entry)))] else []"
  let ?sorted = "sort_by (\<lambda>a b. lc (fst a) (fst b)) (ib_named (snd entry))"
  let ?ns = "map (\<lambda>(importName, alias).
                 ImportSpecifier (if truthy_str alias then the alias else importName) importName) ?sorted"
  have s: "sorted_wrt (\<lambda>a b. lc (fst a) (fst b) \<le> 0) ?sorted"
    using sorted_sort_by [OF consistent_key [OF assms, of fst]] .
  have 1: "declaration_specifiers (importDeclaration lc entry) = ?ds @ ?ns"
    by (simp add: importDeclaration_def)
  have 2: "sorted_wrt (\<lambda>a b. lc (imported_name a) (imported_name b) \<le> 0) ?ns"
    using s by (simp add: sorted_wrt_map case_prod_unfold)
  have 3: "map imported_name ?ns = map fst ?sorted"
    by (simp add: case_prod_unfold comp_def)
  have 4: "\<forall>n \<in> set ?ns. \<not> is_default_specifier n" by auto
  have 5: "length ?ds \<le> 1 \<and> (\<forall>d \<in> set ?ds. is_default_specifier d)" by simp
  from 1 2 3 4 5 show ?thesis by blast
qed

lemma formatImports_sorted:
  assumes "consistent lc"
  shows "sorted_wrt (\<lambda>s t. lc (gi_path s) (gi_path t) \<le> 0) (formatImports lc registry)"
  unfolding formatImports_def using sorted_sort_by [OF consistent_key [OF assms, of gi_path]] .

lemma formatImports_named_sorted:
  assumes "consistent lc" and "e \<in> set (formatImports lc registry)"
  shows "sorted_wrt (\<lambda>a b. lc (fst a) (fst b) \<le> 0) (gi_named e)"
proof -
  from assms(2) obtain e0 where "e = e0\<lparr>gi_named := sort_by (\<lambda>a b. lc (fst a) (fst b)) (gi_named e0)\<rparr>"
    by (auto simp: formatImports_def)
  then show ?thesis
    using sorted_sort_by [OF consistent_key [OF assms(1), of fst]] by simp
qed

lemma formatImportStatement_default_first:
  assumes "truthy_str (gi_default e)" and "join '', '' (map formatSpecifier (gi_named e)) \<noteq> []"
  shows "formatImportStatement e =
           Some (''import '' @ the (gi_default e) @ '', '' @ ''{ ''
                 @ join '', '' (map formatSpecifier (gi_named e)) @ '' }''
                 @ '' from '' @ [CHR 0x22] @ gi_path e @ [CHR 0x22] @ '';'')"
  using assms by (simp add: formatImportStatement_def Let_def)

section \<open>Registering imports\<close>

lemma map_of_update_same [simp]: "map_of (AList.update k v al) k = Some v"
  by (simp add: AList.update_conv')

lemma registerSpec_idem: "registerSpec (registerSpec registry spec) spec = registerSpec registry spec"
proof (cases spec)
  case (NamedImport p n a)
  then show ?thesis by (simp add: registerSpec_def Let_def)
next
  case (DefaultImport p d)
  then show ?thesis by (simp add: registerSpec_def Let_def truthy_str_def)
qed

lemma registerEntry_idem:
  assumes "registerEntry importBuckets entry = Returns b"
  shows "registerEntry b entry = Returns b"
proof (cases entry)
  case (NamedImportSpec p imp al)
  with assms show ?thesis
    by (auto simp: registerEntry_def Let_def getBucket_def split: if_splits)
next
  case (DefaultImportSpec p d)
  with assms show ?thesis
    by (auto simp: registerEntry_def Let_def getBucket_def split: if_splits)
qed

lemma registerEntry_default_conflict:
  assumes "map_of importBuckets path = Some bucket" and "ib_defaultName bucket = Some d0"
    and "d0 \<noteq> []" and "d \<noteq> d0"
  shows "registerEntry importBuckets (DefaultImportSpec path d) = Throws (ImportConflict path)"
  using assms by (simp add: registerEntry_def getBucket_def truthy_str_def)

lemma registerEntry_alias_conflict:
  assumes "map_of importBuckets path = Some bucket"
    and "map_of (ib_named bucket) imp = Some (Some a0)" and "a0 \<noteq> []" and "alias \<noteq> Some a0"
  shows "registerEntry importBuckets (NamedImportSpec path imp alias) = Throws (ImportConflict path)"
  using assms by (auto simp add: registerEntry_def getBucket_def truthy_str_def)

lemma registerEntries_append:
  "registerEntries b (xs @ ys) = bind_out (registerEntries b xs) (\<lambda>b'. registerEntries b' ys)"
proof (induction xs arbitrary: b)
  case Nil
  then show ?case by simp
next
  case (Cons x xs)
  then show ?case by (cases "registerEntry b x") simp_all
qed

lemma registerEntries_fail_fast:
  assumes "registerEntries b specs = Returns b'" and "registerEntry b' entry = Throws e"
  shows "registerEntries b (specs @ entry # rest) = Throws e"
  using assms by (simp add: registerEntries_append)

lemma createComponent_import_conflict:
  assumes "\<not> nullish component"
    and "componentConfigOf (env_config env) (js_String (getprop component ''type'')) = Some cc"
    and "map_of (env_components env) (js_String (getprop component ''type'')) = Some tr"
    and "registerImport_react importBuckets (tr_import tr) = Throws e"
  shows "createComponent (Suc n) env component addKey importBuckets = Throws e"
  using assms by (simp add: createComponent_body_def)

section \<open>Skipped nodes\<close>

lemma renderNode_skip:
  assumes "\<not> nullish item"
    and "componentConfigOf config (js_String (getprop item ''type'')) = Some cc"
    and "cc_codegen cc = Some g" and "cg_skip g"
  shows "renderNode config indentSize item depth registry = Inr (None, registry)"
  using assms by (simp add: renderNode.simps)

lemma mapM_reg_append:
  "mapM_reg f (xs @ ys) s =
     (case mapM_reg f xs s of
        Inl e \<Rightarrow> Inl e
      | Inr (as, s') \<Rightarrow>
          (case mapM_reg f ys s' of Inl e \<Rightarrow> Inl e | Inr (bs, s'') \<Rightarrow> Inr (as @ bs, s'')))"
  by (induction xs arbitrary: s) (auto split: sum.splits)

lemma filterBoolean_append [simp]: "filterBoolean (xs @ ys) = filterBoolean xs @ filterBoolean ys"
  by (simp add: filterBoolean_def)

lemma filterBoolean_None [simp]: "filterBoolean (None # xs) = filterBoolean xs"
  by (simp add: filterBoolean_def)

lemma mapM_reg_skip:
  assumes "\<And>s. f item s = Inr (None, s)"
  shows "map_sum id (\<lambda>(nodes, s'). (filterBoolean nodes, s')) (mapM_reg f (before @ item # after) s)
       = map_sum id (\<lambda>(nodes, s'). (filterBoolean nodes, s')) (mapM_reg f (before @ after) s)"
  using assms by (auto simp: mapM_reg_append split: sum.splits)

lemma renderContent_skip:
  assumes "\<not> nullish item"
    and "componentConfigOf config (js_String (getprop item ''type'')) = Some cc"
    and "cc_codegen cc = Some g" and "cg_skip g"
  shows "renderContent config indentSize (before @ item # after) depth registry
       = renderContent config indentSize (before @ after) depth registry"
proof -
  let ?f = "\<lambda>item r. renderNode config indentSize item depth r"
  have skip: "\<And>s. ?f item s = Inr (None, s)"
    using renderNode_skip [OF assms] .
  have eq: "map_sum id (\<lambda>(nodes, s'). (filterBoolean nodes, s')) (mapM_reg ?f (before @ item # after) registry)
       = map_sum id (\<lambda>(nodes, s'). (filterBoolean nodes, s')) (mapM_reg ?f (before @ after) registry)"
    by (rule mapM_reg_skip [of ?f, OF skip])
  have unfold: "\<And>content. renderContent config indentSize content depth registry
      = (case map_sum id (\<lambda>(nodes, s'). (filterBoolean nodes, s')) (mapM_reg ?f content registry) of
           Inl e \<Rightarrow> Inl e | Inr (nodes, r) \<Rightarrow> Inr (join [newline] nodes, r))"
    by (subst renderContent.simps) (auto simp: filterBoolean_def split: sum.splits)
  show ?thesis by (simp only: unfold eq)
qed

section \<open>Codegen expressions as attributes\<close>

lemma formatAttribute_CodegenExpression:
  "formatAttribute key (CodegenExpression code) depth indentSize =
     Inr (Some (if \<not> includes_newline code then key @ ''={'' @ code @ ''}''
                else key @ ''={'' @ [newline] @ indentLines code (depth + 1) indentSize
                     @ [newline] @ indent depth indentSize @ ''}''))"
  by (simp add: formatAttribute_def CodegenExpression_def isCodegenExpression_def lookup_def)

lemma split_nonempty [simp]: "split c s \<noteq> []"
  by (induction s) (auto split: list.splits)

lemma split_no_separator: "l \<in> set (split c s) \<Longrightarrow> c \<notin> set l"
proof (induction s arbitrary: l)
  case Nil
  then show ?case by simp
next
  case (Cons x xs)
  then show ?case
    by (cases "split c xs") (auto split: if_splits)
qed

lemma join_split [simp]: "join [c] (split c s) = s"
proof (induction s)
  case Nil
  then show ?case by simp
next
  case (Cons x xs)
  show ?case
  proof (cases "split c xs")
    case Nil
    then show ?thesis using split_nonempty [of c xs] by simp
  next
    case (Cons l ls)
    with Cons.IH show ?thesis by (cases ls) auto
  qed
qed

lemma split_without_separator: "c \<notin> set x \<Longrightarrow> split c x = [x]"
  by (induction x) auto

lemma split_append_separator:
  "c \<notin> set x \<Longrightarrow> split c (x @ c # rest) = x # split c rest"
  by (induction x) auto

lemma split_join:
  assumes "xs \<noteq> []" and "\<forall>x \<in> set xs. c \<notin> set x"
  shows "split c (join [c] xs) = xs"
  using assms
proof (induction xs)
  case Nil
  then show ?case by simp
next
  case (Cons x xs)
  show ?case
  proof (cases xs)
    case Nil
    with Cons.prems show ?thesis by (simp add: split_without_separator)
  next
    case (Cons y ys)
    with Cons.IH Cons.prems have ih: "split c (join [c] (y # ys)) = y # ys" by simp
    from Cons.prems have "c \<notin> set x" by simp
    then have "split c (x @ c # join [c] (y # ys)) = x # split c (join [c] (y # ys))"
      by (rule split_append_separator)
    with ih Cons show ?thesis by simp
  qed
qed

lemma indent_no_newline: "newline \<notin> set (indent depth indentSize)"
  by (auto simp: indent_def newline_def)

lemma indentLines_lines:
  assumes "code \<noteq> []"
  shows "split newline (indentLines code depth indentSize)
       = map (\<lambda>line. if line \<noteq> [] then indent depth indentSize @ line else line) (split newline code)"
proof -
  have "\<forall>x \<in> set (map (\<lambda>line. if line \<noteq> [] then indent depth indentSize @ line else line)
                      (split newline code)). newline \<notin> set x"
    using split_no_separator [of _ newline code] indent_no_newline by auto
  then show ?thesis
    using assms by (simp add: indentLines_def split_join)
qed

section \<open>Slot resolution\<close>












lemma distinct_keys_update:
  "distinct (map fst al) \<Longrightarrow> distinct (map fst (AList.update k v al))"
  by (simp add: distinct_update)




lemma strip_simps [simp]:
  "strip (Inl e) = Inl e" "strip (Inr ys) = Inr (filterBoolean ys)"
  by (simp_all add: strip_def)













section \<open>Elements of an array value\<close>

lemma bind_out_Returns:
  "bind_out m f = Returns r \<Longrightarrow> \<exists>x. m = Returns x \<and> f x = Returns r"
  by (cases m) auto

lemma bind_out_assoc:
  "bind_out (bind_out m f) g = bind_out m (\<lambda>x. bind_out (f x) g)"
  by (cases m) auto

lemma mapM_out_append:
  "mapM_out f (xs @ ys) s =
     bind_out (mapM_out f xs s)
       (\<lambda>(as, s'). bind_out (mapM_out f ys s') (\<lambda>(bs, s''). Returns (as @ bs, s'')))"
proof (induction xs arbitrary: s)
  case Nil
  show ?case by (cases "mapM_out f ys s") auto
next
  case (Cons x xs)
  show ?case
  proof (cases "f x s")
    case (Returns r)
    obtain y s1 where r: "r = (y, s1)" by (cases r)
    show ?thesis
      using Returns r Cons.IH [of s1]
      by (cases "mapM_out f xs s1") (auto simp: bind_out_assoc case_prod_unfold)
  qed simp_all
qed

lemma mapM_out_Returns_nth:
  assumes "mapM_out f xs s = Returns (ys, s')"
  shows "length ys = length xs \<and> (\<forall>i < length xs. \<exists>s1 s2. f (xs ! i) s1 = Returns (ys ! i, s2))"
  using assms
proof (induction xs arbitrary: ys s)
  case Nil
  then show ?case by simp
next
  case (Cons x xs)
  from Cons.prems obtain y s1 where hd: "f x s = Returns (y, s1)"
    and rest: "bind_out (mapM_out f xs s1) (\<lambda>(ys', s''). Returns (y # ys', s'')) = Returns (ys, s')"
    by (auto dest!: bind_out_Returns)
  from rest obtain ys' where tl: "mapM_out f xs s1 = Returns (ys', s')" and ys: "ys = y # ys'"
    by (auto dest!: bind_out_Returns)
  from Cons.IH [OF tl] have ih: "length ys' = length xs"
    "\<forall>i < length xs. \<exists>s1 s2. f (xs ! i) s1 = Returns (ys' ! i, s2)" by simp_all
  show ?case
  proof (intro conjI allI impI)
    show "length ys = length (x # xs)" using ih(1) ys by simp
  next
    fix i assume "i < length (x # xs)"
    then show "\<exists>s1 s2. f ((x # xs) ! i) s1 = Returns (ys ! i, s2)"
      using hd ih(2) ys by (cases i) auto
  qed
qed

lemma createObjectExpression_is_object:
  "createObjectExpression n env v flds b = Returns (e, b') \<Longrightarrow> \<exists>props. e = ObjectExpression props"
  by (auto simp: createObjectExpression_def createObjectExpression_body_def dest!: bind_out_Returns)

lemma bind_out_returns:
  assumes "\<exists>r. m = Returns r" and "\<And>x. \<exists>r. f x = Returns r"
  shows "\<exists>r. bind_out m f = Returns r"
  using assms by (cases m) auto

lemma mapM_out_returns:
  assumes "\<And>x s. x \<in> set xs \<Longrightarrow> \<exists>r. f x s = Returns r"
  shows "\<exists>ys s'. mapM_out f xs s = Returns (ys, s')"
  using assms
proof (induction xs arbitrary: s)
  case Nil
  show ?case by simp
next
  case (Cons x xs)
  from Cons.prems [of x s] obtain y s1 where hd: "f x s = Returns (y, s1)" by auto
  from Cons.IH [of s1] Cons.prems obtain ys s2 where tl: "mapM_out f xs s1 = Returns (ys, s2)"
    by auto
  from hd tl show ?case by simp
qed

lemma formatPropValue_body_returns:
  assumes rc: "\<And>x d s. isComponentData x \<Longrightarrow> x = v \<or> (\<exists>xs. v = JArr xs \<and> x \<in> set xs)
                 \<Longrightarrow> \<exists>r. rc x d s = Returns r"
    and fp: "\<And>x d s. (\<exists>xs. v = JArr xs \<and> x \<in> set xs) \<or> (\<exists>kvs k. v = JObj kvs \<and> (k, x) \<in> set kvs)
                 \<Longrightarrow> \<exists>r. fp x d s = Returns r"
  shows "\<exists>r. formatPropValue_body rc fp v depth im = Returns r"
proof (cases v)
  case (JArr xs)
  let ?g = "\<lambda>item im.
              if isComponentData item then rc item (depth + 1) im
              else bind_out (fp item (depth + 1) im)
                     (\<lambda>(formatted, im'). Returns (indent_code (depth + 1) @ snd formatted, im'))"
  have "\<And>x s. x \<in> set xs \<Longrightarrow> \<exists>r. ?g x s = Returns r"
  proof -
    fix x s assume x: "x \<in> set xs"
    show "\<exists>r. ?g x s = Returns r"
    proof (cases "isComponentData x")
      case True
      with rc [of x "depth + 1" s] x JArr show ?thesis by auto
    next
      case False
      from fp [of x "depth + 1" s] x JArr obtain r where "fp x (depth + 1) s = Returns r" by auto
      with False show ?thesis by (cases r) simp
    qed
  qed
  from mapM_out_returns [of xs ?g im, OF this] obtain ys s' where "mapM_out ?g xs im = Returns (ys, s')"
    by blast
  with JArr show ?thesis by (simp add: formatPropValue_body_def)
next
  case (JObj kvs)
  show ?thesis
  proof (cases "isComponentData v")
    case True
    from rc [of v "depth + 2" im] True obtain r where "rc v (depth + 2) im = Returns r" by auto
    with True JObj show ?thesis by (cases r) (simp add: formatPropValue_body_def)
  next
    case False
    let ?g = "\<lambda>e im.
                bind_out (fp (snd e) (depth + 1) im)
                  (\<lambda>(formatted, im').
                     Returns (indent_code (depth + 1) @ fst e @ '': '' @ snd formatted, im'))"
    have "\<And>x s. x \<in> set (filter (\<lambda>e. snd e \<noteq> JUndefined) kvs) \<Longrightarrow> \<exists>r. ?g x s = Returns r"
    proof -
      fix x s assume "x \<in> set (filter (\<lambda>e. snd e \<noteq> JUndefined) kvs)"
      then have "(fst x, snd x) \<in> set kvs" by simp
      with fp [of "snd x" "depth + 1" s] JObj obtain r where "fp (snd x) (depth + 1) s = Returns r"
        by blast
      then show "\<exists>r. ?g x s = Returns r" by (cases r) simp
    qed
    from mapM_out_returns [of "filter (\<lambda>e. snd e \<noteq> JUndefined) kvs" ?g im, OF this]
    obtain ys s' where "mapM_out ?g (filter (\<lambda>e. snd e \<noteq> JUndefined) kvs) im = Returns (ys, s')"
      by blast
    with False JObj show ?thesis by (simp add: formatPropValue_body_def Let_def)
  qed
qed (simp_all add: formatPropValue_body_def)

lemma formatChild_returns:
  assumes "isComponentData x \<Longrightarrow> \<exists>r. rc x depth s = Returns r"
    and "\<exists>r. fp x depth s = Returns r"
  shows "\<exists>r. formatChild rc fp depth x s = Returns r"
proof (cases "isComponentData x")
  case True
  with assms(1) show ?thesis by (simp add: formatChild_def)
next
  case False
  from assms(2) obtain r where "fp x depth s = Returns r" by blast
  with False show ?thesis by (cases r) (simp add: formatChild_def)
qed

lemma formatChildren_body_returns:
  assumes rc: "\<And>x d s. \<not> nullish v \<Longrightarrow> isComponentData x
                 \<Longrightarrow> x = v \<or> (\<exists>xs. v = JArr xs \<and> x \<in> set xs)
                 \<Longrightarrow> \<exists>r. rc x d s = Returns r"
    and fp: "\<And>x d s. \<not> nullish v \<Longrightarrow> x = v \<or> (\<exists>xs. v = JArr xs \<and> x \<in> set xs)
                 \<Longrightarrow> \<exists>r. fp x d s = Returns r"
  shows "\<exists>r. formatChildren_body rc fp v depth im = Returns r"
proof (cases "nullish v")
  case True
  then show ?thesis by (simp add: formatChildren_body_def)
next
  case nn: False
  note rc = rc [OF nn] and fp = fp [OF nn]
  show ?thesis
  proof (cases "\<exists>xs. v = JArr xs")
    case True
    then obtain xs where v: "v = JArr xs" by blast
    have "\<And>x s. x \<in> set xs \<Longrightarrow> \<exists>r. formatChild rc fp depth x s = Returns r"
      using rc fp v by (intro formatChild_returns) auto
    from mapM_out_returns [of xs "formatChild rc fp depth" im, OF this]
    obtain ys s' where "mapM_out (formatChild rc fp depth) xs im = Returns (ys, s')" by blast
    with v show ?thesis by (simp add: formatChildren_body_def)
  next
    case False
    have "\<exists>r. formatChild rc fp depth v im = Returns r"
      using rc fp by (intro formatChild_returns) auto
    then obtain r where "formatChild rc fp depth v im = Returns r" by blast
    with nn False show ?thesis
      by (cases r; cases v) (simp_all add: formatChildren_body_def)
  qed
qed

lemma set_delete_subset: "set (AList.delete k al) \<subseteq> set al"
  by (auto simp: AList.delete_eq)

lemma set_foldl_delete_subset: "set (foldl (\<lambda>ps p. AList.delete p ps) al ks) \<subseteq> set al"
proof (induction ks arbitrary: al)
  case Nil
  show ?case by simp
next
  case (Cons k ks)
  from Cons [of "AList.delete k al"] set_delete_subset [of k al] show ?case by auto
qed

lemma set_cleanProps_subset:
  "set (cleanProps ctx mapEntry component) \<subseteq> set (spread (getprop component ''props''))"
proof -
  let ?c0 = "AList.delete ''editMode'' (AList.delete ''puck'' (spread (getprop component ''props'')))"
  have c0: "set ?c0 \<subseteq> set (spread (getprop component ''props''))"
    using set_delete_subset [of "''editMode''" "AList.delete ''puck'' (spread (getprop component ''props''))"]
      set_delete_subset [of "''puck''" "spread (getprop component ''props'')"]
    by blast
  have c1: "\<And>b. set (if b then AList.delete ''id'' ?c0 else ?c0)
                 \<subseteq> set (spread (getprop component ''props''))"
  proof -
    fix b
    show "set (if b then AList.delete ''id'' ?c0 else ?c0)
            \<subseteq> set (spread (getprop component ''props''))"
      using c0 set_delete_subset [of "''id''" ?c0] by (cases b) auto
  qed
  show ?thesis
    unfolding cleanProps_def Let_def
    using set_foldl_delete_subset c1 by (rule subset_trans)
qed

lemma lookup_in_set: "lookup al k = v \<Longrightarrow> v = JUndefined \<or> (k, v) \<in> set al"
  by (auto simp: lookup_def split: option.splits dest: map_of_SomeD)

lemma renderComponent_body_returns:
  assumes hf: "hookFree ctx" and nn: "\<not> nullish c"
    and fp: "\<And>k v d s. (k, v) \<in> set (spread (getprop c ''props'')) \<Longrightarrow> \<exists>r. fp v d s = Returns r"
    and fc: "\<And>v d s. v = JUndefined \<or> (\<exists>k. (k, v) \<in> set (spread (getprop c ''props'')))
               \<Longrightarrow> \<exists>r. fc v d s = Returns r"
  shows "\<exists>r. renderComponent_body fp fc ctx c depth im = Returns r"
proof -
  define mapEntry where
    "mapEntry = (case ctx_componentMap ctx of
                   None \<Rightarrow> None
                 | Some m \<Rightarrow> map_of m (js_String (getprop c ''type'')))"
  define cleaned where "cleaned = cleanProps ctx mapEntry c"
  have nohook: "(case mapEntry of None \<Rightarrow> None | Some m \<Rightarrow> cm_transformProps m) = None"
  proof (cases mapEntry)
    case None
    then show ?thesis by simp
  next
    case (Some e)
    then obtain m where m: "ctx_componentMap ctx = Some m"
      and "map_of m (js_String (getprop c ''type'')) = Some e"
      by (auto simp: mapEntry_def split: option.splits)
    then have "(js_String (getprop c ''type''), e) \<in> set m" by (auto dest: map_of_SomeD)
    with hf m have "cm_transformProps e = None" by (auto simp: hookFree_def)
    with Some show ?thesis by simp
  qed
  have sub: "set cleaned \<subseteq> set (spread (getprop c ''props''))"
    unfolding cleaned_def by (rule set_cleanProps_subset)
  let ?g = "\<lambda>entry im.
              bind_out (fp (snd entry) depth im)
                (\<lambda>(formatted, im').
                   Returns
                     (if fst formatted = KindString
                      then indent_code depth @ fst entry @ ''='' @ snd formatted
                      else indent_code depth @ fst entry @ ''={'' @ snd formatted @ ''}'',
                      im'))"
  let ?entries = "filter (\<lambda>e. snd e \<noteq> JUndefined) (AList.delete ''children'' cleaned)"
  have each: "\<And>x s. x \<in> set ?entries \<Longrightarrow> \<exists>r. ?g x s = Returns r"
  proof -
    fix x s assume "x \<in> set ?entries"
    then have "(fst x, snd x) \<in> set cleaned" using set_delete_subset [of "''children''" cleaned] by auto
    with sub have "(fst x, snd x) \<in> set (spread (getprop c ''props''))" by blast
    from fp [OF this, of depth s] obtain r where "fp (snd x) depth s = Returns r" by blast
    then show "\<exists>r. ?g x s = Returns r" by (cases r) simp
  qed
  define im1 where
    "im1 = (case (case mapEntry of None \<Rightarrow> None | Some m \<Rightarrow> cm_import m) of
              Some i \<Rightarrow> registerImport_code
                          (case (case mapEntry of None \<Rightarrow> None | Some m \<Rightarrow> cm_as m) of
                             Some a \<Rightarrow> a
                           | None \<Rightarrow> js_String (getprop c ''type'')) i im
            | None \<Rightarrow> im)"
  from mapM_out_returns [of ?entries ?g im1, OF each]
  obtain ys s1 where props: "mapM_out ?g ?entries im1 = Returns (ys, s1)" by blast
  have "lookup cleaned ''children'' = JUndefined
        \<or> (\<exists>k. (k, lookup cleaned ''children'') \<in> set (spread (getprop c ''props'')))"
    using lookup_in_set [OF refl, of cleaned "''children''"] sub by blast
  from fc [OF this, of "depth + 1" s1]
  obtain cs s2 where children: "fc (lookup cleaned ''children'') (depth + 1) s1 = Returns (cs, s2)"
    by auto
  show ?thesis
    unfolding renderComponent_body_def Let_def mapEntry_def [symmetric] cleaned_def [symmetric]
      nohook im1_def [symmetric]
    using nn props children
    by (simp del: mapM_out.simps)
qed

lemma size_member_JArr: "x \<in> set xs \<Longrightarrow> size x + 2 \<le> size (JArr xs)"
  using size_list_member_less [of x xs size] by simp

lemma size_member_JObj: "(k, x) \<in> set kvs \<Longrightarrow> size x + 2 \<le> size (JObj kvs)"
  using size_list_member_less [of "(k, x)" kvs "size_prod (\<lambda>_. 0) size"] by simp

lemma size_prop_value:
  assumes "(k, v) \<in> set (spread (getprop c ''props''))"
  shows "size v + 1 \<le> size c"
proof (cases c)
  case (JObj kvs)
  show ?thesis
  proof (cases "map_of kvs ''props''")
    case None
    with JObj assms show ?thesis by (simp add: lookup_def)
  next
    case (Some p)
    then have "(''props'', p) \<in> set kvs" by (rule map_of_SomeD)
    then have "size p + 2 \<le> size c" unfolding JObj by (rule size_member_JObj)
    moreover from assms JObj Some have "size v \<le> size p"
      using size_spread_le [of k v p] by (simp add: lookup_def)
    ultimately show ?thesis by simp
  qed
qed (use assms in simp_all)

lemma isComponentData_not_nullish: "isComponentData x \<Longrightarrow> \<not> nullish x"
  by (cases x) (simp_all add: isComponentData_def)

lemma code_returns:
  assumes hf: "hookFree ctx"
  shows "(2 * size v + 2 \<le> n \<longrightarrow> (\<exists>r. formatPropValue n ctx v depth im = Returns r))
       \<and> (\<not> nullish c \<longrightarrow> 2 * size c + 1 \<le> n \<longrightarrow> (\<exists>r. renderComponent n ctx c depth im = Returns r))"
proof (induction n arbitrary: v c depth im)
  case 0
  show ?case by simp
next
  case (Suc n)
  have fp: "\<And>v d s. 2 * size v + 2 \<le> n \<Longrightarrow> \<exists>r. formatPropValue n ctx v d s = Returns r"
    using Suc by blast
  have rc: "\<And>c d s. \<not> nullish c \<Longrightarrow> 2 * size c + 1 \<le> n \<Longrightarrow> \<exists>r. renderComponent n ctx c d s = Returns r"
    using Suc by blast
  show ?case
  proof (intro conjI impI)
    assume b: "2 * size v + 2 \<le> Suc n"
    have "\<exists>r. formatPropValue_body (renderComponent n ctx) (formatPropValue n ctx) v depth im = Returns r"
    proof (rule formatPropValue_body_returns)
      fix x d s
      assume cd: "isComponentData x" and "x = v \<or> (\<exists>xs. v = JArr xs \<and> x \<in> set xs)"
      then have "size x \<le> size v" by (auto dest: size_member_JArr)
      with b have "2 * size x + 1 \<le> n" by simp
      from rc [OF isComponentData_not_nullish [OF cd] this]
      show "\<exists>r. renderComponent n ctx x d s = Returns r" .
    next
      fix x d s
      assume "(\<exists>xs. v = JArr xs \<and> x \<in> set xs) \<or> (\<exists>kvs k. v = JObj kvs \<and> (k, x) \<in> set kvs)"
      then have "size x + 2 \<le> size v" by (auto dest: size_member_JArr size_member_JObj)
      with b have "2 * size x + 2 \<le> n" by simp
      from fp [OF this] show "\<exists>r. formatPropValue n ctx x d s = Returns r" .
    qed
    then show "\<exists>r. formatPropValue (Suc n) ctx v depth im = Returns r" by simp
  next
    assume nn: "\<not> nullish c" and b: "2 * size c + 1 \<le> Suc n"
    have "\<exists>r. renderComponent_body (formatPropValue n ctx)
                 (formatChildren_body (renderComponent n ctx) (formatPropValue n ctx)) ctx c depth im
               = Returns r"
    proof (rule renderComponent_body_returns [OF hf nn])
      fix k v d s
      assume "(k, v) \<in> set (spread (getprop c ''props''))"
      from size_prop_value [OF this] b have "2 * size v + 2 \<le> n" by simp
      from fp [OF this] show "\<exists>r. formatPropValue n ctx v d s = Returns r" .
    next
      fix v d s
      assume v: "v = JUndefined \<or> (\<exists>k. (k, v) \<in> set (spread (getprop c ''props'')))"
      show "\<exists>r. formatChildren_body (renderComponent n ctx) (formatPropValue n ctx) v d s = Returns r"
      proof (rule formatChildren_body_returns)
        fix x d' s'
        assume nv: "\<not> nullish v"
          and cd: "isComponentData x" and "x = v \<or> (\<exists>xs. v = JArr xs \<and> x \<in> set xs)"
        then have "size x \<le> size v" by (auto dest: size_member_JArr)
        moreover from v nv b have "2 * size v + 2 \<le> n" by (auto dest: size_prop_value)
        ultimately have "2 * size x + 1 \<le> n" by simp
        from rc [OF isComponentData_not_nullish [OF cd] this]
        show "\<exists>r. renderComponent n ctx x d' s' = Returns r" .
      next
        fix x d' s'
        assume nv: "\<not> nullish v" and "x = v \<or> (\<exists>xs. v = JArr xs \<and> x \<in> set xs)"
        then have "size x \<le> size v" by (auto dest: size_member_JArr)
        moreover from v nv b have "2 * size v + 2 \<le> n" by (auto dest: size_prop_value)
        ultimately have "2 * size x + 2 \<le> n" by simp
        from fp [OF this] show "\<exists>r. formatPropValue n ctx x d' s' = Returns r" .
      qed
    qed
    then show "\<exists>r. renderComponent (Suc n) ctx c depth im = Returns r" by simp
  qed
qed

lemma formatPropValue_returns:
  "hookFree ctx \<Longrightarrow> 2 * size v + 2 \<le> n \<Longrightarrow> \<exists>r. formatPropValue n ctx v depth im = Returns r"
  using code_returns by blast

lemma renderComponent_returns:
  "hookFree ctx \<Longrightarrow> \<not> nullish c \<Longrightarrow> 2 * size c + 1 \<le> n
   \<Longrightarrow> \<exists>r. renderComponent n ctx c depth im = Returns r"
  using code_returns by blast

lemma formatPropValue_array_eq:
  assumes "xs \<noteq> []"
  shows "formatPropValue (Suc n) ctx (JArr xs) depth im =
           bind_out (mapM_out (arrayElement_code n ctx depth) xs im)
             (\<lambda>(parts, im').
                Returns ((KindExpression,
                          ''['' @ [newline] @ join ('','' @ [newline]) parts @ [newline]
                          @ indent_code depth @ '']''), im'))"
proof -
  have "arrayElement_code n ctx depth =
          (\<lambda>item im.
             if isComponentData item then renderComponent n ctx item (depth + 1) im
             else bind_out (formatPropValue n ctx item (depth + 1) im)
                    (\<lambda>(formatted, im'). Returns (indent_code (depth + 1) @ snd formatted, im')))"
    by (intro ext) (simp add: arrayElement_code_def)
  with assms show ?thesis by (simp add: formatPropValue_body_def)
qed

lemma arrayElement_code_returns:
  assumes "hookFree ctx" and "2 * size item + 2 \<le> n"
  shows "\<exists>r. arrayElement_code n ctx depth item im = Returns r"
proof (cases "isComponentData item")
  case True
  from renderComponent_returns [OF assms(1) isComponentData_not_nullish [OF True], of n "depth + 1" im]
    assms(2) True
  show ?thesis by (simp add: arrayElement_code_def)
next
  case False
  from formatPropValue_returns [OF assms, of "depth + 1" im]
  obtain r where "formatPropValue n ctx item (depth + 1) im = Returns r" by blast
  with False show ?thesis by (cases r) (simp add: arrayElement_code_def)
qed

lemma mapM_out_length:
  "mapM_out f xs s = Returns (ys, s') \<Longrightarrow> length ys = length xs"
  by (rule mapM_out_Returns_nth [THEN conjunct1])

lemma formatPropValue_array_returns:
  assumes "hookFree ctx" and "xs \<noteq> []" and "2 * size (JArr xs) \<le> n"
  shows "\<exists>parts im'.
           mapM_out (arrayElement_code n ctx depth) xs im = Returns (parts, im')
         \<and> length parts = length xs
         \<and> formatPropValue (Suc n) ctx (JArr xs) depth im
           = Returns ((KindExpression,
                       ''['' @ [newline] @ join ('','' @ [newline]) parts @ [newline]
                       @ indent_code depth @ '']''), im')"
proof -
  have "\<And>x s. x \<in> set xs \<Longrightarrow> \<exists>r. arrayElement_code n ctx depth x s = Returns r"
  proof -
    fix x s assume "x \<in> set xs"
    from size_member_JArr [OF this] assms(3) have "2 * size x + 2 \<le> n" by simp
    from arrayElement_code_returns [OF assms(1) this]
    show "\<exists>r. arrayElement_code n ctx depth x s = Returns r" .
  qed
  from mapM_out_returns [of xs "arrayElement_code n ctx depth" im, OF this]
  obtain parts im' where m: "mapM_out (arrayElement_code n ctx depth) xs im = Returns (parts, im')"
    by blast
  from m mapM_out_length [OF m] formatPropValue_array_eq [OF assms(2), of n ctx depth im]
  show ?thesis by simp
qed


lemma elementText_is_element:
  "\<exists>rest. elementText depth componentName propLines childrenContent = indent_code depth @ ''<'' @ rest"
  unfolding elementText_def by (simp only: append_assoc append_same_eq same_append_eq split: if_split) blast

lemma renderComponent_body_Returns_text:
  assumes "renderComponent_body fp fc ctx c depth im = Returns (code, im')"
  shows "\<exists>name propLines childrenContent. code = elementText depth name propLines childrenContent"
proof -
  from assms have nn: "\<not> nullish c"
    by (auto simp: renderComponent_body_def split: if_splits)
  show ?thesis
    using assms nn
    unfolding renderComponent_body_def Let_def elementText_def [symmetric]
    by (auto split: if_splits dest!: bind_out_Returns)
qed

lemma renderComponent_is_element:
  assumes "renderComponent n ctx c depth im = Returns (code, im')"
  shows "\<exists>rest. code = indent_code depth @ ''<'' @ rest"
proof (cases n)
  case 0
  with assms show ?thesis by simp
next
  case (Suc m)
  with assms obtain name propLines childrenContent
    where "code = elementText depth name propLines childrenContent"
    by (auto dest!: renderComponent_body_Returns_text)
  with elementText_is_element show ?thesis by simp
qed

lemma createFieldValueNode_array_eq:
  assumes "ftype fd = ''array''"
  shows "createFieldValueNode (Suc n) env (JArr xs) (Some fd) b =
           bind_out (mapM_out (arrayElement n env (arrayFields fd)) xs b)
             (\<lambda>(es, b'). Returns (Some (ArrayExpression es), b'))"
proof -
  have "arrayElement n env (arrayFields fd) =
          (\<lambda>item b.
             case item of
               JUndefined \<Rightarrow> Returns (NullLiteral, b)
             | JObj kvs \<Rightarrow> createObjectExpression_body (createFieldValueNode n env) item (arrayFields fd) b
             | _ \<Rightarrow> Returns (valueToNode item, b))"
    by (intro ext) (simp add: arrayElement_def createObjectExpression_def split: jsval.splits)
  then show ?thesis
    using assms
    by (simp add: createFieldValueNode_body_def createArrayExpression_body_def bind_out_assoc
          case_prod_unfold)
qed

lemma mapM_out_pure:
  assumes "\<And>x s. x \<in> set xs \<Longrightarrow> f x s = Returns (g x, s)"
  shows "mapM_out f xs s = Returns (map g xs, s)"
  using assms by (induction xs) simp_all

lemma createFieldValueNode_scalar:
  assumes "scalarFields flds" and "v \<noteq> JUndefined"
  shows "createFieldValueNode (Suc n) env v (fieldOf flds k) b = Returns (Some (valueToNode v), b)"
proof (cases "fieldOf flds k")
  case None
  with assms(2) show ?thesis by (simp add: createFieldValueNode_body_def)
next
  case (Some fd)
  then obtain fs where "flds = Some fs" and "map_of fs k = Some fd"
    by (auto simp: fieldOf_def split: option.splits)
  then have "(k, fd) \<in> set (case flds of None \<Rightarrow> [] | Some fs \<Rightarrow> fs)"
    by (auto dest: map_of_SomeD)
  with assms(1) have "ftype fd \<noteq> ''slot'' \<and> ftype fd \<noteq> ''array'' \<and> ftype fd \<noteq> ''object''"
    unfolding scalarFields_def by fastforce
  with Some assms(2) show ?thesis by (simp add: createFieldValueNode_body_def)
qed

lemma createObjectExpression_scalar:
  assumes "scalarFields flds"
  shows "createObjectExpression (Suc n) env (JObj kvs) flds b =
           Returns (ObjectExpression
                      (map (\<lambda>entry. (fst entry, valueToNode (snd entry)))
                           (filter (\<lambda>entry. snd entry \<noteq> JUndefined) kvs)), b)"
proof -
  let ?g = "\<lambda>entry b.
             bind_out (createFieldValueNode (Suc n) env (snd entry) (fieldOf flds (fst entry)) b)
               (\<lambda>(node, b').
                  case node of
                    None \<Rightarrow> Returns ([], b')
                  | Some nd \<Rightarrow> Returns ([(fst entry, nd)], b'))"
  let ?entries = "filter (\<lambda>entry. snd entry \<noteq> JUndefined) kvs"
  have "\<And>x s. x \<in> set ?entries \<Longrightarrow> ?g x s = Returns ([(fst x, valueToNode (snd x))], s)"
    using createFieldValueNode_scalar [OF assms] by simp
  from mapM_out_pure [of ?entries ?g "\<lambda>x. [(fst x, valueToNode (snd x))]" b, OF this]
  have "mapM_out ?g ?entries b = Returns (map (\<lambda>x. [(fst x, valueToNode (snd x))]) ?entries, b)" .
  moreover have "concat (map (\<lambda>x. [(fst x, valueToNode (snd x))]) ?entries)
                 = map (\<lambda>entry. (fst entry, valueToNode (snd entry))) ?entries"
    by (induction kvs) simp_all
  ultimately show ?thesis
    by (simp add: createObjectExpression_def createObjectExpression_body_def
          del: createFieldValueNode.simps)
qed

lemma arrayElement_scalar:
  assumes "scalarFields flds"
  shows "arrayElement (Suc n) env flds item b =
           Returns (case item of
                      JUndefined \<Rightarrow> NullLiteral
                    | JObj kvs \<Rightarrow>
                        ObjectExpression
                          (map (\<lambda>entry. (fst entry, valueToNode (snd entry)))
                               (filter (\<lambda>entry. snd entry \<noteq> JUndefined) kvs))
                    | _ \<Rightarrow> valueToNode item, b)"
  using createObjectExpression_scalar [OF assms]
  by (cases item) (simp_all add: arrayElement_def del: valueToNode.simps)

lemma createFieldValueNode_array_scalar:
  assumes "ftype fd = ''array''" and "scalarFields (arrayFields fd)"
  shows "createFieldValueNode (Suc (Suc n)) env (JArr xs) (Some fd) b =
           Returns (Some (ArrayExpression
                            (map (\<lambda>item. case item of
                                            JUndefined \<Rightarrow> NullLiteral
                                          | JObj kvs \<Rightarrow>
                                              ObjectExpression
                                                (map (\<lambda>entry. (fst entry, valueToNode (snd entry)))
                                                     (filter (\<lambda>entry. snd entry \<noteq> JUndefined) kvs))
                                          | _ \<Rightarrow> valueToNode item) xs)), b)"
  by (simp only: createFieldValueNode_array_eq [OF assms(1)]
        mapM_out_pure [of xs "arrayElement (Suc n) env (arrayFields fd)", OF arrayElement_scalar [OF assms(2)]]
        bind_out.simps prod.case)

section \<open>Unregistered types are fatal\<close>

lemma mapM_reg_fails:
  assumes "x \<in> set xs" and "\<And>s. \<exists>e. f x s = Inl e"
  shows "\<exists>e. mapM_reg f xs s = Inl e"
  using assms(1)
proof (induction xs arbitrary: s)
  case Nil
  then show ?case by simp
next
  case (Cons y ys)
  show ?case
  proof (cases "f y s")
    case (Inl e)
    then show ?thesis by simp
  next
    case (Inr r)
    obtain v s1 where r: "r = (v, s1)" by (cases r)
    show ?thesis
    proof (cases "x = y")
      case True
      with assms(2) [of s] Inr show ?thesis by simp
    next
      case False
      with Cons.prems have "x \<in> set ys" by simp
      from Cons.IH [OF this, of s1] obtain e where "mapM_reg f ys s1 = Inl e" by blast
      with Inr r show ?thesis by simp
    qed
  qed
qed

lemma renderContent_fails_if_node_fails:
  assumes "item \<in> set content"
    and "\<And>r. \<exists>e. renderNode config indentSize item depth r = Inl e"
  shows "\<exists>e. renderContent config indentSize content depth registry = Inl e"
proof -
  from assms(1) have ne: "content \<noteq> []" by auto
  from mapM_reg_fails [of item content "\<lambda>item r. renderNode config indentSize item depth r", OF assms(1) assms(2)]
  obtain e where "mapM_reg (\<lambda>item r. renderNode config indentSize item depth r) content registry = Inl e"
    by blast
  with ne show ?thesis by (simp add: renderContent.simps)
qed

lemma renderNode_unknown_fails:
  assumes "unknown_in config item"
  shows "\<exists>e. renderNode config indentSize item depth registry = Inl e"
  using assms
proof (induction arbitrary: depth registry rule: unknown_in.induct)
  case (unknown_here item)
  then show ?case by (simp add: renderNode.simps)
next
  case (unknown_below item cc slot child)
  have "\<And>r. \<exists>e. renderContent config indentSize (snd slot) 1 r = Inl e"
    using renderContent_fails_if_node_fails [OF unknown_below.hyps(5)] unknown_below.IH by blast
  then have "\<And>r. \<exists>e. (case renderContent config indentSize (snd slot) 1 r of
                            Inl e \<Rightarrow> Inl e
                          | Inr (code, r') \<Rightarrow> Inr ((fst slot, code), r')) = Inl e"
    by (metis old.sum.simps(5))
  from mapM_reg_fails [of slot "nodeSlots cc item"
         "\<lambda>slot r. case renderContent config indentSize (snd slot) 1 r of
                      Inl e \<Rightarrow> Inl e
                    | Inr (code, r') \<Rightarrow> Inr ((fst slot, code), r')", OF unknown_below.hyps(4) this]
  obtain e where "mapM_reg (\<lambda>slot r. case renderContent config indentSize (snd slot) 1 r of
                      Inl e \<Rightarrow> Inl e
                    | Inr (code, r') \<Rightarrow> Inr ((fst slot, code), r')) (nodeSlots cc item) registry = Inl e"
    by blast
  with unknown_below.hyps(1,2,3) show ?case
    by (simp add: renderNode.simps)
qed

lemma generateJSX_unknown_fails:
  assumes "opt_content options = Some content" and "item \<in> set content"
    and "unknown_in (opt_config options) item"
  shows "\<exists>e. generateJSX lc options = Inl e"
proof -
  from renderContent_fails_if_node_fails [OF assms(2)] renderNode_unknown_fails [OF assms(3)]
  have "\<And>i d r. \<exists>e. renderContent (opt_config options) i content d r = Inl e" by blast
  then obtain e where "renderContent (opt_config options)
      (case opt_indentSize options of None \<Rightarrow> 2 | Some i \<Rightarrow> i) content
      ((case opt_baseDepth options of None \<Rightarrow> 0 | Some d \<Rightarrow> d) + 1) [] = Inl e"
    by blast
  with assms(1) show ?thesis by (simp add: generateJSX_def)
qed

lemma renderContent_Inr_mapM:
  assumes "renderContent config indentSize content depth registry = Inr (code, registry')"
  shows "\<exists>nodes. mapM_reg (\<lambda>item r. renderNode config indentSize item depth r) content registry
                  = Inr (nodes, registry')"
proof (cases "content = []")
  case True
  with assms show ?thesis by (simp add: renderContent.simps)
next
  case False
  with assms show ?thesis
    by (auto simp: renderContent.simps split: sum.splits)
qed

lemma mapM_out_Returns_member:
  assumes "mapM_out f xs s = Returns r" and "x \<in> set xs"
  shows "\<exists>s1 r1. f x s1 = Returns r1"
proof -
  obtain ys s' where r: "r = (ys, s')" by (cases r)
  from assms(2) obtain i where i: "i < length xs" "xs ! i = x"
    by (auto simp: in_set_conv_nth)
  from mapM_out_Returns_nth [OF assms(1) [unfolded r]] i show ?thesis by blast
qed

lemma createComponent_unknown_never_returns:
  assumes "unknown_in_react env component"
  shows "createComponent n env component addKey b \<noteq> Returns out"
  using assms
proof (induction arbitrary: n addKey b out rule: unknown_in_react.induct)
  case (unknown_here_react component)
  then show ?case by (cases n) (simp_all add: createComponent_body_def)
next
  case (unknown_below_react component cc props name xs child)
  show ?case
  proof (cases n)
    case 0
    then show ?thesis by simp
  next
    case (Suc m)
    let ?transform = "map_of (env_components env) (js_String (getprop component ''type''))"
    let ?slot = "createSlotChildren_body (createComponent m env)"
    let ?attr = "createAttribute_body ?slot (createFieldValueNode m env) (env_includeIds env)
                   (cc_fields cc) ?transform"
    have slot_fails: "\<And>s r. ?slot (JArr xs) s \<noteq> Returns r"
    proof
      fix s r assume "?slot (JArr xs) s = Returns r"
      then have "mapM_out (\<lambda>child. createComponent m env child True) xs s = Returns r"
        by (simp add: createSlotChildren_body_def)
      from mapM_out_Returns_member [OF this unknown_below_react.hyps(8)]
      obtain s1 r1 where "createComponent m env child True s1 = Returns r1" by blast
      with unknown_below_react.IH show False by blast
    qed
    have attr_fails: "\<And>s r. ?attr (name, JArr xs) s \<noteq> Returns r"
    proof
      fix s r assume a: "?attr (name, JArr xs) s = Returns r"
      from unknown_below_react.hyps(6) have "\<not> (\<not> env_includeIds env \<and> name = ''id'')" by blast
      with a unknown_below_react.hyps(7) slot_fails [of s] show False
        by (auto simp: createAttribute_body_def Let_def split: if_splits dest!: bind_out_Returns)
    qed
    have attrs_fail: "\<And>s r. createAttributes_body ?slot (createFieldValueNode m env)
                         (env_includeIds env) props (cc_fields cc) ?transform s \<noteq> Returns r"
    proof
      fix s r
      assume "createAttributes_body ?slot (createFieldValueNode m env)
                (env_includeIds env) props (cc_fields cc) ?transform s = Returns r"
      then obtain parts where "mapM_out ?attr (spread props) s = Returns parts"
        using unknown_below_react.hyps(4)
        by (auto simp: createAttributes_body_def dest!: bind_out_Returns)
      from mapM_out_Returns_member [OF this unknown_below_react.hyps(5)] attr_fails
      show False by blast
    qed
    show ?thesis
    proof
      assume "createComponent n env component addKey b = Returns out"
      with Suc unknown_below_react.hyps(1,2,3) obtain b1 r
        where "createAttributes_body ?slot (createFieldValueNode m env)
                 (env_includeIds env) props (cc_fields cc) ?transform b1 = Returns r"
        by (auto simp: createComponent_body_def Let_def dest!: bind_out_Returns)
      with attrs_fail show False by blast
    qed
  qed
qed

lemma generateReactComponent_unknown_never_returns:
  assumes "rc_content options = Some content" and "item \<in> set content"
    and "unknown_in_react (renderEnv options) item"
  shows "generateReactComponent lc fuel options \<noteq> Returns out"
proof
  assume "generateReactComponent lc fuel options = Returns out"
  with assms(1) obtain r
    where "mapM_out (\<lambda>component. createComponent fuel (renderEnv options) component False) content []
           = Returns r"
    by (auto simp: generateReactComponent_def Let_def dest!: bind_out_Returns)
  from mapM_out_Returns_member [OF this assms(2)]
    createComponent_unknown_never_returns [OF assms(3)]
  show False by blast
qed

lemma renderContent_first_failure:
  assumes "renderContent config indentSize before depth registry = Inr (code, registry')"
    and "renderNode config indentSize item depth registry' = Inl e"
  shows "renderContent config indentSize (before @ item # after) depth registry = Inl e"
proof -
  from renderContent_Inr_mapM [OF assms(1)] obtain nodes
    where m: "mapM_reg (\<lambda>item r. renderNode config indentSize item depth r) before registry
              = Inr (nodes, registry')" by blast
  have "mapM_reg (\<lambda>item r. renderNode config indentSize item depth r) (before @ item # after) registry
        = Inl e"
    by (simp add: mapM_reg_append m assms(2))
  then show ?thesis by (simp add: renderContent.simps)
qed

lemma renderNode_unknown_first:
  assumes "unknown_first config indentSize item registry t"
  shows "renderNode config indentSize item depth registry = Inl (UnknownComponentType t)"
  using assms
proof (induction arbitrary: depth rule: unknown_first.induct)
  case (unknown_first_here item registry)
  then show ?case by (simp add: renderNode.simps)
next
  case (unknown_first_below item cc slotsBefore name before child after slotsAfter registry
          slotStrings registry1 code registry2 t)
  have c: "renderContent config indentSize (before @ child # after) 1 registry1
           = Inl (UnknownComponentType t)"
    by (rule renderContent_first_failure [OF unknown_first_below.hyps(6) unknown_first_below.IH])
  have "renderSlots config indentSize (nodeSlots cc item) registry = Inl (UnknownComponentType t)"
    using unknown_first_below.hyps(5) c
    by (simp add: renderSlots_def unknown_first_below.hyps(4) mapM_reg_append)
  with unknown_first_below.hyps(1,2,3) show ?case
    by (simp add: renderNode.simps renderSlots_def)
qed

lemma generateJSX_unknown_first:
  assumes "opt_content options = Some (before @ item # after)"
    and "renderContent (opt_config options)
           (case opt_indentSize options of None \<Rightarrow> 2 | Some i \<Rightarrow> i) before
           ((case opt_baseDepth options of None \<Rightarrow> 0 | Some d \<Rightarrow> d) + 1) [] = Inr (code, registry)"
    and "unknown_first (opt_config options)
           (case opt_indentSize options of None \<Rightarrow> 2 | Some i \<Rightarrow> i) item registry t"
  shows "generateJSX lc options = Inl (UnknownComponentType t)"
  using renderContent_first_failure [OF assms(2) renderNode_unknown_first [OF assms(3)], of after]
    assms(1)
  by (simp add: generateJSX_def)

lemma mapM_reg_Inl:
  "mapM_reg f xs s = Inl e \<Longrightarrow> \<exists>x \<in> set xs. \<exists>s1. f x s1 = Inl e"
proof (induction xs arbitrary: s)
  case Nil
  then show ?case by simp
next
  case (Cons y ys)
  show ?case
  proof (cases "f y s")
    case (Inl e')
    with Cons.prems show ?thesis by auto
  next
    case (Inr r)
    obtain v s1 where r: "r = (v, s1)" by (cases r)
    from Cons.prems Inr r have "mapM_reg f ys s1 = Inl e"
      by (auto split: sum.splits)
    from Cons.IH [OF this] show ?thesis by auto
  qed
qed

lemma mapM_err_Inl:
  "mapM_err f xs = Inl e \<Longrightarrow> \<exists>x \<in> set xs. f x = Inl e"
  by (induction xs) (auto split: sum.splits)

lemma formatAttribute_Inl: "formatAttribute key v depth indentSize = Inl e \<Longrightarrow> e = TypeError"
  by (auto simp: formatAttribute_def split: if_splits jsval.splits)

lemma finishNode_Inl:
  assumes "finishNode indentSize cc item depth slotStrings registry = Inl e"
  shows "e = TypeError"
proof -
  from assms show ?thesis
    unfolding finishNode_def Let_def
    by (auto split: sum.splits if_splits dest!: mapM_err_Inl formatAttribute_Inl)
qed

lemma render_error_kinds:
  "(renderContent config indentSize content depth registry = Inl e
      \<longrightarrow> e = TypeError \<or> (\<exists>t. e = UnknownComponentType t \<and> componentConfigOf config t = None))"
  "(renderNode config indentSize item depth registry = Inl e
      \<longrightarrow> e = TypeError \<or> (\<exists>t. e = UnknownComponentType t \<and> componentConfigOf config t = None))"
proof (induction config indentSize content depth registry and config indentSize item depth registry
       rule: renderContent_renderNode.induct)
  case (1 config indentSize content depth registry)
  show ?case
  proof
    assume a: "renderContent config indentSize content depth registry = Inl e"
    then have ne: "content \<noteq> []" by (auto simp: renderContent.simps)
    with a have "mapM_reg (\<lambda>item r. renderNode config indentSize item depth r) content registry = Inl e"
      by (auto simp: renderContent.simps split: sum.splits)
    from mapM_reg_Inl [OF this] obtain x r where "x \<in> set content"
      and "renderNode config indentSize x depth r = Inl e" by blast
    with 1 [OF ne] show "e = TypeError \<or> (\<exists>t. e = UnknownComponentType t \<and> componentConfigOf config t = None)"
      by blast
  qed
next
  case (2 config indentSize item depth registry)
  show ?case
  proof
    assume a: "renderNode config indentSize item depth registry = Inl e"
    show "e = TypeError \<or> (\<exists>t. e = UnknownComponentType t \<and> componentConfigOf config t = None)"
    proof (cases "nullish item")
      case True
      with a show ?thesis by (simp add: renderNode.simps)
    next
      case nn: False
      show ?thesis
      proof (cases "componentConfigOf config (js_String (getprop item ''type''))")
        case None
        with a nn show ?thesis by (auto simp: renderNode.simps)
      next
        case (Some cc)
        show ?thesis
        proof (cases "case cc_codegen cc of None \<Rightarrow> False | Some g \<Rightarrow> cg_skip g")
          case True
          with a nn Some show ?thesis by (simp add: renderNode.simps)
        next
          case ns: False
          let ?f = "\<lambda>slot r. case renderContent config indentSize (snd slot) 1 r of
                                Inl e \<Rightarrow> Inl e
                              | Inr (code, r') \<Rightarrow> Inr ((fst slot, code), r')"
          show ?thesis
          proof (cases "mapM_reg ?f (nodeSlots cc item) registry")
            case (Inl e')
            with a nn Some ns have "e' = e" by (simp add: renderNode.simps)
            with Inl have "mapM_reg ?f (nodeSlots cc item) registry = Inl e" by simp
            from mapM_reg_Inl [OF this] obtain x r where x: "x \<in> set (nodeSlots cc item)"
              and "?f x r = Inl e" by blast
            then have "renderContent config indentSize (snd x) 1 r = Inl e"
              by (auto split: sum.splits)
            with 2 [OF nn Some ns x] show ?thesis by blast
          next
            case (Inr r)
            obtain ss r' where "r = (ss, r')" by (cases r)
            with a nn Some ns Inr have "finishNode indentSize cc item depth ss r' = Inl e"
              by (simp add: renderNode.simps)
            from finishNode_Inl [OF this] show ?thesis by simp
          qed
        qed
      qed
    qed
  qed
qed

lemma mapM_out_first_failure:
  assumes "mapM_out f before s = Returns (ys, s')" and "f x s' = Throws e"
  shows "mapM_out f (before @ x # after) s = Throws e"
  using assms by (simp add: mapM_out_append)

lemma createComponent_unknown_first:
  assumes "unknown_first_react env n component importBuckets t"
  shows "createComponent n env component addKey importBuckets = Throws (UnknownComponentType t)"
  using assms
proof (induction arbitrary: addKey rule: unknown_first_react.induct)
  case (unknown_first_here_react component n importBuckets)
  then show ?case by (simp add: createComponent_body_def)
next
  case (unknown_first_below_react component cc transform importBuckets b1 props entriesBefore
          name before child after entriesAfter n parts b2 elements b3 t)
  let ?slot = "createSlotChildren_body (createComponent n env)"
  let ?attr = "createAttribute_body ?slot (createFieldValueNode n env) (env_includeIds env)
                 (cc_fields cc) transform"
  have children: "?slot (JArr (before @ child # after)) b2 = Throws (UnknownComponentType t)"
    unfolding createSlotChildren_body_def
    using mapM_out_first_failure [OF unknown_first_below_react.hyps(11) unknown_first_below_react.IH]
    by simp
  have skip: "\<not> (\<not> env_includeIds env \<and> name = ''id'')"
    using unknown_first_below_react.hyps(9) by blast
  have attr: "?attr (name, JArr (before @ child # after)) b2 = Throws (UnknownComponentType t)"
    using skip unknown_first_below_react.hyps(10) children
    by (simp add: createAttribute_body_def Let_def)
  have pre: "mapM_out ?attr entriesBefore b1 = Returns (parts, b2)"
    using unknown_first_below_react.hyps(8) by (simp add: createSlotChildren_def)
  have "mapM_out ?attr (spread props) b1 = Throws (UnknownComponentType t)"
    unfolding unknown_first_below_react.hyps(7)
    by (rule mapM_out_first_failure [OF pre attr])
  then have attrs: "createAttributes_body ?slot (createFieldValueNode n env) (env_includeIds env)
                      props (cc_fields cc) transform b1 = Throws (UnknownComponentType t)"
    using unknown_first_below_react.hyps(6) by (simp add: createAttributes_body_def)
  show ?case
    using unknown_first_below_react.hyps(1,2,4) attrs
      unknown_first_below_react.hyps(3) [symmetric] unknown_first_below_react.hyps(5) [symmetric]
    by (simp add: createComponent_body_def Let_def)
qed

lemma generateReactComponent_unknown_first:
  assumes "rc_content options = Some (before @ item # after)"
    and "mapM_out (\<lambda>component. createComponent n (renderEnv options) component False) before []
         = Returns (elements, b)"
    and "unknown_first_react (renderEnv options) n item b t"
  shows "generateReactComponent lc n options = Throws (UnknownComponentType t)"
proof -
  have "mapM_out (\<lambda>component. createComponent n (renderEnv options) component False)
          (before @ item # after) [] = Throws (UnknownComponentType t)"
    by (rule mapM_out_first_failure [OF assms(2) createComponent_unknown_first [OF assms(3)]])
  with assms(1) show ?thesis
    by (simp add: generateReactComponent_def Let_def)
qed

lemma bind_out_Throws:
  "bind_out m f = Throws e \<Longrightarrow> m = Throws e \<or> (\<exists>x. m = Returns x \<and> f x = Throws e)"
  by (cases m) auto

lemma mapM_out_Throws:
  "mapM_out f xs s = Throws e \<Longrightarrow> \<exists>x \<in> set xs. \<exists>s1. f x s1 = Throws e"
proof (induction xs arbitrary: s)
  case Nil
  then show ?case by simp
next
  case (Cons y ys)
  from Cons.prems have "f y s = Throws e
      \<or> (\<exists>r. f y s = Returns r \<and> (case r of (v, s') \<Rightarrow>
             bind_out (mapM_out f ys s') (\<lambda>(vs, s''). Returns (v # vs, s''))) = Throws e)"
    by (auto dest!: bind_out_Throws)
  then show ?case
  proof
    assume "f y s = Throws e"
    then show ?thesis by auto
  next
    assume "\<exists>r. f y s = Returns r \<and> (case r of (v, s') \<Rightarrow>
             bind_out (mapM_out f ys s') (\<lambda>(vs, s''). Returns (v # vs, s''))) = Throws e"
    then obtain v s' where "bind_out (mapM_out f ys s') (\<lambda>(vs, s''). Returns (v # vs, s'')) = Throws e"
      by auto
    then have "mapM_out f ys s' = Throws e"
      by (auto dest!: bind_out_Throws)
    from Cons.IH [OF this] show ?thesis by auto
  qed
qed

lemma registerEntry_Throws:
  "registerEntry b entry = Throws e \<Longrightarrow> \<exists>p. e = ImportConflict p"
  by (auto simp: registerEntry_def Let_def split: CodegenImport.splits if_splits)

lemma registerEntries_Throws:
  "registerEntries b specs = Throws e \<Longrightarrow> \<exists>p. e = ImportConflict p"
proof (induction specs arbitrary: b)
  case Nil
  then show ?case by simp
next
  case (Cons s specs)
  then show ?case by (auto dest!: bind_out_Throws registerEntry_Throws)
qed

lemma createSlotChildren_body_Throws:
  "createSlotChildren_body cc v b = Throws e \<Longrightarrow> \<exists>c k s. cc c k s = Throws e"
  by (auto simp: createSlotChildren_body_def split: jsval.splits dest!: mapM_out_Throws)

lemma createObjectExpression_body_Throws:
  assumes "createObjectExpression_body fv v flds b = Throws e"
  shows "\<exists>v f s. fv v f s = Throws e"
proof -
  let ?g = "\<lambda>entry b.
             bind_out (fv (snd entry) (fieldOf flds (fst entry)) b)
               (\<lambda>(node, b').
                  case node of
                    None \<Rightarrow> Returns ([], b')
                  | Some nd \<Rightarrow> Returns ([(fst entry, nd)], b'))"
  define entries where
    "entries = filter (\<lambda>entry. snd entry \<noteq> JUndefined) (if truthy v then spread v else [])"
  from assms have "bind_out (mapM_out ?g entries b)
                     (\<lambda>(properties, b). Returns (ObjectExpression (concat properties), b)) = Throws e"
    unfolding createObjectExpression_body_def entries_def .
  then have "mapM_out ?g entries b = Throws e"
    by (auto dest!: bind_out_Throws)
  from mapM_out_Throws [OF this] obtain x s1 where "?g x s1 = Throws e" by blast
  then have "fv (snd x) (fieldOf flds (fst x)) s1 = Throws e"
    by (auto dest!: bind_out_Throws split: option.splits)
  then show ?thesis by blast
qed

lemma createArrayExpression_body_Throws:
  assumes "createArrayExpression_body oe vs flds b = Throws e"
  shows "e = TypeError \<or> (\<exists>v f s. oe v f s = Throws e)"
proof (cases vs)
  case (JArr xs)
  let ?g = "\<lambda>item b. case item of
                          JUndefined \<Rightarrow> Returns (NullLiteral, b)
                        | JObj kvs \<Rightarrow> oe item flds b
                        | _ \<Rightarrow> Returns (valueToNode item, b)"
  from JArr assms have "mapM_out ?g xs b = Throws e"
    by (auto simp: createArrayExpression_body_def dest!: bind_out_Throws)
  from mapM_out_Throws [OF this] obtain x s1 where x: "?g x s1 = Throws e" by blast
  then have "oe x flds s1 = Throws e" by (cases x) simp_all
  then show ?thesis by blast
qed (use assms in \<open>auto simp: createArrayExpression_body_def split: if_splits\<close>)

lemma createFieldValueNode_body_Throws:
  assumes "createFieldValueNode_body sc ae oe v f b = Throws e"
  shows "(\<exists>v s. sc v s = Throws e) \<or> (\<exists>v f s. ae v f s = Throws e) \<or> (\<exists>v f s. oe v f s = Throws e)"
proof (cases f)
  case None
  with assms show ?thesis by (auto simp: createFieldValueNode_body_def split: if_splits)
next
  case (Some fd)
  with assms have "sc v b = Throws e
      \<or> ae (if nullish v then JArr [] else v) (arrayFields fd) b = Throws e
      \<or> oe (if nullish v then JObj [] else v) (objectFields fd) b = Throws e"
    unfolding createFieldValueNode_body_def
    by (auto split: if_splits dest!: bind_out_Throws)
  then show ?thesis by blast
qed

lemma createAttribute_body_Throws:
  assumes "createAttribute_body sc fv inc flds transform entry b = Throws e"
  shows "(\<exists>v s. sc v s = Throws e) \<or> (\<exists>v f s. fv v f s = Throws e)"
proof -
  let ?f = "fieldOf flds (fst entry)"
  from assms have "(\<exists>s. sc (snd entry) s = Throws e) \<or> (\<exists>s. fv (snd entry) ?f s = Throws e)"
    unfolding createAttribute_body_def Let_def
    by (auto split: if_splits option.splits dest!: bind_out_Throws)
  then show ?thesis by blast
qed

lemma createAttributes_body_Throws:
  assumes "createAttributes_body sc fv inc props flds transform b = Throws e"
  shows "(\<exists>v s. sc v s = Throws e) \<or> (\<exists>v f s. fv v f s = Throws e)"
proof -
  from assms obtain x s1 where "createAttribute_body sc fv inc flds transform x s1 = Throws e"
    unfolding createAttributes_body_def
    by (auto dest!: bind_out_Throws mapM_out_Throws)
  from createAttribute_body_Throws [OF this] show ?thesis .
qed

lemma finishComponent_Throws:
  "finishComponent component transform addKey attributes children = Throws e \<Longrightarrow> e = TypeError"
  by (auto simp: finishComponent_def Let_def split: if_splits jsval.splits dest!: bind_out_Throws)

lemma createComponent_body_Throws:
  assumes "createComponent_body ca env component addKey b = Throws e"
    and "\<And>p f t s. ca p f t s = Throws e \<Longrightarrow> error_of_walk (env_config env) e"
  shows "error_of_walk (env_config env) e"
proof (cases "nullish component")
  case True
  with assms(1) show ?thesis by (simp add: createComponent_body_def error_of_walk_def)
next
  case nn: False
  show ?thesis
  proof (cases "componentConfigOf (env_config env) (js_String (getprop component ''type''))")
    case None
    with assms(1) nn show ?thesis by (auto simp: createComponent_body_def error_of_walk_def)
  next
    case (Some cc)
    let ?transform = "map_of (env_components env) (js_String (getprop component ''type''))"
    from assms(1) nn Some
    have "registerImport_react b (case ?transform of None \<Rightarrow> None | Some tr \<Rightarrow> tr_import tr) = Throws e
        \<or> (\<exists>p f t s. ca p f t s = Throws e)
        \<or> (\<exists>attributes children.
              finishComponent component ?transform addKey attributes children = Throws e)"
      by (auto simp: createComponent_body_def Let_def dest!: bind_out_Throws)
    then show ?thesis
      using assms(2)
      by (auto simp: registerImport_react_def error_of_walk_def
               dest!: registerEntries_Throws finishComponent_Throws)
  qed
qed

lemma create_error_kinds:
  "(createComponent n env component addKey b = Throws e \<longrightarrow> error_of_walk (env_config env) e)
 \<and> (createFieldValueNode n env v f b = Throws e \<longrightarrow> error_of_walk (env_config env) e)"
proof (induction n arbitrary: component addKey b v f)
  case 0
  show ?case by simp
next
  case (Suc n)
  have cc: "\<And>c k s. createComponent n env c k s = Throws e \<Longrightarrow> error_of_walk (env_config env) e"
    using Suc by blast
  have fv: "\<And>v f s. createFieldValueNode n env v f s = Throws e \<Longrightarrow> error_of_walk (env_config env) e"
    using Suc by blast
  have te: "e = TypeError \<Longrightarrow> error_of_walk (env_config env) e"
    by (simp add: error_of_walk_def)
  have sc: "\<And>v s. createSlotChildren_body (createComponent n env) v s = Throws e
              \<Longrightarrow> error_of_walk (env_config env) e"
    using cc by (blast dest!: createSlotChildren_body_Throws)
  have oe: "\<And>v f s. createObjectExpression_body (createFieldValueNode n env) v f s = Throws e
              \<Longrightarrow> error_of_walk (env_config env) e"
    using fv by (blast dest!: createObjectExpression_body_Throws)
  have ae: "\<And>v f s. createArrayExpression_body
                       (createObjectExpression_body (createFieldValueNode n env)) v f s = Throws e
              \<Longrightarrow> error_of_walk (env_config env) e"
    using oe te by (blast dest!: createArrayExpression_body_Throws)
  have ca: "\<And>p f t s. createAttributes_body (createSlotChildren_body (createComponent n env))
                         (createFieldValueNode n env) (env_includeIds env) p f t s = Throws e
              \<Longrightarrow> error_of_walk (env_config env) e"
    using sc fv by (blast dest!: createAttributes_body_Throws)
  show ?case
  proof (intro conjI impI)
    assume "createComponent (Suc n) env component addKey b = Throws e"
    then show "error_of_walk (env_config env) e"
      using ca by (simp only: createComponent.simps) (erule createComponent_body_Throws, blast)
  next
    assume "createFieldValueNode (Suc n) env v f b = Throws e"
    then show "error_of_walk (env_config env) e"
      using sc ae oe by (simp only: createFieldValueNode.simps) (blast dest!: createFieldValueNode_body_Throws)
  qed
qed

lemma generateJSX_error_kinds:
  assumes "generateJSX lc options = Inl e"
  shows "e = TypeError
         \<or> (\<exists>t. e = UnknownComponentType t \<and> componentConfigOf (opt_config options) t = None)"
proof -
  from assms have "renderContent (opt_config options)
      (case opt_indentSize options of None \<Rightarrow> 2 | Some i \<Rightarrow> i)
      (case opt_content options of None \<Rightarrow> [] | Some c \<Rightarrow> c)
      ((case opt_baseDepth options of None \<Rightarrow> 0 | Some d \<Rightarrow> d) + 1) [] = Inl e"
    by (auto simp: generateJSX_def Let_def split: sum.splits)
  with render_error_kinds(1) show ?thesis by blast
qed

lemma generateReactComponent_error_kinds:
  assumes "generateReactComponent lc fuel options = Throws e"
  shows "error_of_walk (rc_config options) e"
proof -
  have cfg: "env_config (renderEnv options) = rc_config options"
    by (simp add: renderEnv_def)
  from assms have "mapM_out (\<lambda>component. createComponent fuel (renderEnv options) component False)
                     (case rc_content options of None \<Rightarrow> [] | Some c \<Rightarrow> c) [] = Throws e"
    by (auto simp: generateReactComponent_def Let_def dest!: bind_out_Throws)
  from mapM_out_Throws [OF this] obtain x s1
    where "createComponent fuel (renderEnv options) x False s1 = Throws e" by blast
  with create_error_kinds [of fuel "renderEnv options" x False s1 e] cfg show ?thesis by simp
qed

text \<open>The lookup \<open>components[type]\<close> also finds what every object inherits: a node whose
  type is the name of a member of \<open>Object.prototype\<close> is taken for a registered one and
  rendered, in both generators that check the schema.\<close>

lemma inherited_member_is_rendered:
  "generateJSX compareCodeUnits
     \<lparr>opt_config = [(''Button'', \<lparr>cc_fields = None, cc_codegen = None\<rparr>)],
      opt_content = Some [ComponentData ''Button'' [], ComponentData ''toString'' []],
      opt_baseDepth = None, opt_indentSize = None\<rparr>
   = Inr \<lparr>gt_jsx = ''<>'' @ [newline] @ ''  <Button />'' @ [newline] @ ''  <toString />''
                     @ [newline] @ ''</>'',
          gt_imports = []\<rparr>
   \<and> generateReactComponent compareCodeUnits 1
       \<lparr>rc_config = [(''Button'', \<lparr>cc_fields = None, cc_codegen = None\<rparr>)],
        rc_content = Some [ComponentData ''toString'' []],
        rc_componentName = None, rc_components = None, rc_includeIds = None,
        rc_reactImport = Some False\<rparr>
     = Returns [ExportNamedFunction ''GeneratedPage''
                  (JSXFragment [JSXElement ''toString'' [] []])]"
  by code_simp

section \<open>Runs that end agree\<close>

lemma settled_refl [simp]: "settled m m"
  by (simp add: settled_def)

lemma settled_OutOfFuel [simp]: "settled OutOfFuel m"
  by (simp add: settled_def)

lemma settled_bind:
  assumes "settled m m'" and "\<And>x. settled (f x) (g x)"
  shows "settled (bind_out m f) (bind_out m' g)"
  using assms by (cases m) (auto simp: settled_def)

lemma settled_mapM:
  assumes "\<And>x s. settled (f x s) (g x s)"
  shows "settled (mapM_out f xs s) (mapM_out g xs s)"
proof (induction xs arbitrary: s)
  case Nil
  show ?case by simp
next
  case (Cons x xs)
  show ?case
    unfolding mapM_out.simps
    by (intro settled_bind assms) (auto intro!: settled_bind Cons.IH)
qed

lemma settled_createSlotChildren_body:
  assumes "\<And>c k b. settled (cc c k b) (cc' c k b)"
  shows "settled (createSlotChildren_body cc v b) (createSlotChildren_body cc' v b)"
  unfolding createSlotChildren_body_def
  by (cases v) (auto intro!: settled_mapM assms)

lemma settled_createObjectExpression_body:
  assumes "\<And>v f b. settled (fv v f b) (fv' v f b)"
  shows "settled (createObjectExpression_body fv v flds b) (createObjectExpression_body fv' v flds b)"
  unfolding createObjectExpression_body_def
  by (intro settled_bind settled_mapM assms) auto

lemma settled_createArrayExpression_body:
  assumes "\<And>v f b. settled (oe v f b) (oe' v f b)"
  shows "settled (createArrayExpression_body oe v flds b) (createArrayExpression_body oe' v flds b)"
proof -
  have item: "\<And>item b. settled
        (case item of JUndefined \<Rightarrow> Returns (NullLiteral, b)
                    | JObj kvs \<Rightarrow> oe item flds b | _ \<Rightarrow> Returns (valueToNode item, b))
        (case item of JUndefined \<Rightarrow> Returns (NullLiteral, b)
                    | JObj kvs \<Rightarrow> oe' item flds b | _ \<Rightarrow> Returns (valueToNode item, b))"
    by (auto split: jsval.splits intro: assms)
  show ?thesis
    unfolding createArrayExpression_body_def
    by (cases v) (auto intro!: settled_bind settled_mapM item)
qed

lemma settled_createFieldValueNode_body:
  assumes "\<And>v b. settled (sc v b) (sc' v b)"
    and "\<And>v f b. settled (ae v f b) (ae' v f b)"
    and "\<And>v f b. settled (oe v f b) (oe' v f b)"
  shows "settled (createFieldValueNode_body sc ae oe v f b) (createFieldValueNode_body sc' ae' oe' v f b)"
  unfolding createFieldValueNode_body_def
  by (auto intro!: settled_bind assms split: option.splits)

lemma settled_createAttribute_body:
  assumes "\<And>v b. settled (sc v b) (sc' v b)"
    and "\<And>v f b. settled (fv v f b) (fv' v f b)"
  shows "settled (createAttribute_body sc fv ids flds tr entry b)
                 (createAttribute_body sc' fv' ids flds tr entry b)"
  unfolding createAttribute_body_def Let_def
  by (auto intro!: settled_bind assms)

lemma settled_createAttributes_body:
  assumes "\<And>v b. settled (sc v b) (sc' v b)"
    and "\<And>v f b. settled (fv v f b) (fv' v f b)"
  shows "settled (createAttributes_body sc fv ids props flds tr b)
                 (createAttributes_body sc' fv' ids props flds tr b)"
  unfolding createAttributes_body_def
  by (intro settled_bind settled_mapM settled_createAttribute_body assms) auto

lemma settled_createComponent_body:
  assumes "\<And>p f t b. settled (ca p f t b) (ca' p f t b)"
  shows "settled (createComponent_body ca env c k b) (createComponent_body ca' env c k b)"
  unfolding createComponent_body_def Let_def
  by (auto intro!: settled_bind assms split: option.splits)

lemma settled_step:
  "settled (createComponent n env c k b) (createComponent (Suc n) env c k b)
   \<and> settled (createFieldValueNode n env v f b) (createFieldValueNode (Suc n) env v f b)"
proof (induction n arbitrary: c k b v f)
  case 0
  show ?case by simp
next
  case (Suc n)
  have cc: "\<And>c k b. settled (createComponent n env c k b) (createComponent (Suc n) env c k b)"
    using Suc.IH by blast
  have fv: "\<And>v f b. settled (createFieldValueNode n env v f b) (createFieldValueNode (Suc n) env v f b)"
    using Suc.IH by blast
  have sc: "\<And>v b. settled (createSlotChildren_body (createComponent n env) v b)
                          (createSlotChildren_body (createComponent (Suc n) env) v b)"
    by (rule settled_createSlotChildren_body) (rule cc)
  have oe: "\<And>v f b. settled (createObjectExpression_body (createFieldValueNode n env) v f b)
                            (createObjectExpression_body (createFieldValueNode (Suc n) env) v f b)"
    by (rule settled_createObjectExpression_body) (rule fv)
  have ae: "\<And>v f b. settled
       (createArrayExpression_body (createObjectExpression_body (createFieldValueNode n env)) v f b)
       (createArrayExpression_body (createObjectExpression_body (createFieldValueNode (Suc n) env)) v f b)"
    by (rule settled_createArrayExpression_body) (rule oe)
  have ca: "\<And>p f t b. settled
       (createAttributes_body (createSlotChildren_body (createComponent n env))
          (createFieldValueNode n env) (env_includeIds env) p f t b)
       (createAttributes_body (createSlotChildren_body (createComponent (Suc n) env))
          (createFieldValueNode (Suc n) env) (env_includeIds env) p f t b)"
    by (rule settled_createAttributes_body) (rule sc, rule fv)
  have "settled
          (createComponent_body
             (createAttributes_body (createSlotChildren_body (createComponent n env))
                (createFieldValueNode n env) (env_includeIds env)) env c k b)
          (createComponent_body
             (createAttributes_body (createSlotChildren_body (createComponent (Suc n) env))
                (createFieldValueNode (Suc n) env) (env_includeIds env)) env c k b)"
    by (rule settled_createComponent_body) (rule ca)
  then have 1: "settled (createComponent (Suc n) env c k b) (createComponent (Suc (Suc n)) env c k b)"
    by (simp only: createComponent.simps(2) [symmetric])
  have "settled
          (createFieldValueNode_body (createSlotChildren_body (createComponent n env))
             (createArrayExpression_body (createObjectExpression_body (createFieldValueNode n env)))
             (createObjectExpression_body (createFieldValueNode n env)) v f b)
          (createFieldValueNode_body (createSlotChildren_body (createComponent (Suc n) env))
             (createArrayExpression_body (createObjectExpression_body (createFieldValueNode (Suc n) env)))
             (createObjectExpression_body (createFieldValueNode (Suc n) env)) v f b)"
    by (rule settled_createFieldValueNode_body) (rule sc, rule ae, rule oe)
  then have 2: "settled (createFieldValueNode (Suc n) env v f b)
                        (createFieldValueNode (Suc (Suc n)) env v f b)"
    by (simp only: createFieldValueNode.simps(2) [symmetric])
  from 1 2 show ?case by blast
qed

lemma settled_trans: "settled a b \<Longrightarrow> settled b c \<Longrightarrow> settled a c"
  by (auto simp: settled_def)

lemma settled_createComponent:
  "settled (createComponent n env c k b) (createComponent (n + d) env c k b)"
proof (induction d)
  case 0
  show ?case by simp
next
  case (Suc d)
  have "settled (createComponent (n + d) env c k b) (createComponent (Suc (n + d)) env c k b)"
    using settled_step by blast
  with Suc show ?case by (auto intro: settled_trans)
qed

lemma settled_generateReactComponent:
  "settled (generateReactComponent lc n options) (generateReactComponent lc (n + d) options)"
  unfolding generateReactComponent_def Let_def
  by (intro settled_bind settled_mapM settled_createComponent) auto

lemma generateReactComponent_fuel_independent:
  assumes "generateReactComponent lc n options \<noteq> OutOfFuel"
    and "generateReactComponent lc m options \<noteq> OutOfFuel"
  shows "generateReactComponent lc n options = generateReactComponent lc m options"
proof (cases "n \<le> m")
  case True
  then obtain d where "m = n + d" using le_Suc_ex by blast
  with settled_generateReactComponent [of lc n options d] assms(1) show ?thesis
    by (simp add: settled_def)
next
  case False
  then obtain d where "n = m + d" using le_Suc_ex [of m n] by auto
  with settled_generateReactComponent [of lc m options d] assms(2) show ?thesis
    by (simp add: settled_def)
qed


lemma settled_formatPropValue_body:
  assumes "\<And>c d im. settled (rc c d im) (rc' c d im)"
    and "\<And>v d im. settled (fp v d im) (fp' v d im)"
  shows "settled (formatPropValue_body rc fp v depth im) (formatPropValue_body rc' fp' v depth im)"
proof (cases v)
  case (JArr xs)
  have item: "\<And>item im. settled
      (if isComponentData item then rc item (depth + 1) im
       else bind_out (fp item (depth + 1) im)
              (\<lambda>(formatted, im'). Returns (indent_code (depth + 1) @ snd formatted, im')))
      (if isComponentData item then rc' item (depth + 1) im
       else bind_out (fp' item (depth + 1) im)
              (\<lambda>(formatted, im'). Returns (indent_code (depth + 1) @ snd formatted, im')))"
    by (auto intro!: settled_bind assms)
  show ?thesis
    unfolding formatPropValue_body_def JArr
    by (auto intro!: settled_bind settled_mapM item)
next
  case (JObj kvs)
  have entry: "\<And>e im. settled
      (bind_out (fp (snd e) (depth + 1) im)
         (\<lambda>(formatted, im'). Returns (indent_code (depth + 1) @ fst e @ '': '' @ snd formatted, im')))
      (bind_out (fp' (snd e) (depth + 1) im)
         (\<lambda>(formatted, im'). Returns (indent_code (depth + 1) @ fst e @ '': '' @ snd formatted, im')))"
    by (auto intro!: settled_bind assms)
  show ?thesis
    unfolding formatPropValue_body_def JObj Let_def
    by (auto intro!: settled_bind settled_mapM entry assms)
qed (simp_all add: formatPropValue_body_def)

lemma settled_formatChild:
  assumes "\<And>c d im. settled (rc c d im) (rc' c d im)"
    and "\<And>v d im. settled (fp v d im) (fp' v d im)"
  shows "settled (formatChild rc fp depth child im) (formatChild rc' fp' depth child im)"
  unfolding formatChild_def by (auto intro!: settled_bind assms)

lemma settled_formatChildren_body:
  assumes "\<And>c d im. settled (rc c d im) (rc' c d im)"
    and "\<And>v d im. settled (fp v d im) (fp' v d im)"
  shows "settled (formatChildren_body rc fp v depth im) (formatChildren_body rc' fp' v depth im)"
  unfolding formatChildren_body_def
  by (cases v) (auto intro!: settled_bind settled_mapM settled_formatChild assms)

lemma settled_renderComponent_body:
  assumes "\<And>v d im. settled (fp v d im) (fp' v d im)"
    and "\<And>v d im. settled (fc v d im) (fc' v d im)"
  shows "settled (renderComponent_body fp fc ctx c depth im) (renderComponent_body fp' fc' ctx c depth im)"
proof -
  have line: "\<And>entry im. settled
      (bind_out (fp (snd entry) depth im)
         (\<lambda>(formatted, im').
            Returns
              (if fst formatted = KindString
               then indent_code depth @ fst entry @ ''='' @ snd formatted
               else indent_code depth @ fst entry @ ''={'' @ snd formatted @ ''}'',
               im')))
      (bind_out (fp' (snd entry) depth im)
         (\<lambda>(formatted, im').
            Returns
              (if fst formatted = KindString
               then indent_code depth @ fst entry @ ''='' @ snd formatted
               else indent_code depth @ fst entry @ ''={'' @ snd formatted @ ''}'',
               im')))"
    by (intro settled_bind assms) simp
  show ?thesis
    unfolding renderComponent_body_def Let_def
    by (auto intro!: settled_bind settled_mapM line assms simp del: join.simps)
qed

lemma settled_step_code:
  "settled (renderComponent n ctx c d im) (renderComponent (Suc n) ctx c d im)
   \<and> settled (formatPropValue n ctx v d im) (formatPropValue (Suc n) ctx v d im)"
proof (induction n arbitrary: c d im v)
  case 0
  show ?case by simp
next
  case (Suc n)
  have rc: "\<And>c d im. settled (renderComponent n ctx c d im) (renderComponent (Suc n) ctx c d im)"
    using Suc.IH by blast
  have fp: "\<And>v d im. settled (formatPropValue n ctx v d im) (formatPropValue (Suc n) ctx v d im)"
    using Suc.IH by blast
  have fc: "\<And>v d im. settled
       (formatChildren_body (renderComponent n ctx) (formatPropValue n ctx) v d im)
       (formatChildren_body (renderComponent (Suc n) ctx) (formatPropValue (Suc n) ctx) v d im)"
    by (rule settled_formatChildren_body) (rule rc, rule fp)
  have "settled
          (renderComponent_body (formatPropValue n ctx)
             (formatChildren_body (renderComponent n ctx) (formatPropValue n ctx)) ctx c d im)
          (renderComponent_body (formatPropValue (Suc n) ctx)
             (formatChildren_body (renderComponent (Suc n) ctx) (formatPropValue (Suc n) ctx)) ctx c d im)"
    by (rule settled_renderComponent_body) (rule fp, rule fc)
  then have 1: "settled (renderComponent (Suc n) ctx c d im) (renderComponent (Suc (Suc n)) ctx c d im)"
    by (simp only: renderComponent.simps(2) [symmetric])
  have "settled
          (formatPropValue_body (renderComponent n ctx) (formatPropValue n ctx) v d im)
          (formatPropValue_body (renderComponent (Suc n) ctx) (formatPropValue (Suc n) ctx) v d im)"
    by (rule settled_formatPropValue_body) (rule rc, rule fp)
  then have 2: "settled (formatPropValue (Suc n) ctx v d im) (formatPropValue (Suc (Suc n)) ctx v d im)"
    by (simp only: formatPropValue.simps(2) [symmetric])
  from 1 2 show ?case by blast
qed

lemma settled_renderComponent:
  "settled (renderComponent n ctx c dp im) (renderComponent (n + d) ctx c dp im)"
proof (induction d)
  case 0
  show ?case by simp
next
  case (Suc d)
  have "settled (renderComponent (n + d) ctx c dp im) (renderComponent (Suc (n + d)) ctx c dp im)"
    using settled_step_code by blast
  with Suc show ?case by (auto intro: settled_trans)
qed

lemma settled_generateReactCode:
  "settled (generateReactCode lc n options) (generateReactCode lc (n + d) options)"
  unfolding generateReactCode_def Let_def
  by (intro settled_bind settled_mapM settled_renderComponent) auto

lemma generateReactCode_fuel_independent:
  assumes "generateReactCode lc n options \<noteq> OutOfFuel"
    and "generateReactCode lc m options \<noteq> OutOfFuel"
  shows "generateReactCode lc n options = generateReactCode lc m options"
proof (cases "n \<le> m")
  case True
  then obtain d where "m = n + d" using le_Suc_ex by blast
  with settled_generateReactCode [of lc n options d] assms(1) show ?thesis
    by (simp add: settled_def)
next
  case False
  then obtain d where "n = m + d" using le_Suc_ex [of m n] by auto
  with settled_generateReactCode [of lc m options d] assms(2) show ?thesis
    by (simp add: settled_def)
qed

section \<open>The claims\<close>

text \<open>
  C10. With an empty or absent top-level content sequence every generator returns, for any
  fuel and any options: \<open>generateJSX\<close> gives the empty fragment \<open><></>\<close> at the base
  indentation and an empty import list; \<open>generateReactComponent\<close> gives a program whose
  function returns an empty fragment and whose only import is the optional React import;
  \<open>generateReactCode\<close> gives the placeholder comment as the body and no import line but
  the optional React import.
\<close>

theorem empty_content_generates_empty_body:
  assumes "opt_content jo = None \<or> opt_content jo = Some []"
    and "rc_content ro = None \<or> rc_content ro = Some []"
    and "co_content co = None \<or> co_content co = Some []"
  shows "generateJSX lc jo =
           Inr \<lparr>gt_jsx = indent (case opt_baseDepth jo of None \<Rightarrow> 0 | Some d \<Rightarrow> d)
                            (case opt_indentSize jo of None \<Rightarrow> 2 | Some i \<Rightarrow> i) @ ''<></>'',
                gt_imports = []\<rparr>
       \<and> generateReactComponent lc fuel ro =
           Returns ((if (case rc_reactImport ro of None \<Rightarrow> True | Some b \<Rightarrow> b)
                     then [ImportDeclaration [ImportDefaultSpecifier ''React''] ''react''] else [])
                    @ [ExportNamedFunction
                         (case rc_componentName ro of None \<Rightarrow> ''GeneratedPage'' | Some n \<Rightarrow> n)
                         (JSXFragment [])])
       \<and> generateReactCode lc fuel co =
           Returns
             (if (case co_includeReactImport co of None \<Rightarrow> False | Some b \<Rightarrow> b)
              then \<lparr>res_code = REACT_IMPORT @ [newline, newline] @ emptyBody co,
                    res_imports = [REACT_IMPORT]\<rparr>
              else \<lparr>res_code = emptyBody co, res_imports = []\<rparr>)"
proof (intro conjI)
  show "generateJSX lc jo =
          Inr \<lparr>gt_jsx = indent (case opt_baseDepth jo of None \<Rightarrow> 0 | Some d \<Rightarrow> d)
                           (case opt_indentSize jo of None \<Rightarrow> 2 | Some i \<Rightarrow> i) @ ''<></>'',
               gt_imports = []\<rparr>"
    by (rule generateJSX_empty [OF assms(1)])
qed (rule generateReactComponent_empty [OF assms(2)], rule generateReactCode_empty [OF assms(3)])

theorem empty_content_witness:
  "generateJSX compareCodeUnits
     \<lparr>opt_config = [], opt_content = None, opt_baseDepth = None, opt_indentSize = None\<rparr>
     = Inr \<lparr>gt_jsx = ''<></>'', gt_imports = []\<rparr>
   \<and> generateReactComponent compareCodeUnits 0
       \<lparr>rc_config = [], rc_content = Some [], rc_componentName = None, rc_components = None,
        rc_includeIds = None, rc_reactImport = None\<rparr>
     = Returns [ImportDeclaration [ImportDefaultSpecifier ''React''] ''react'',
                ExportNamedFunction ''GeneratedPage'' (JSXFragment [])]
   \<and> (\<exists>code. generateReactCode compareCodeUnits 0
             \<lparr>co_content = None, co_componentMap = None, co_componentName = None,
              co_exportDefault = None, co_includeImports = None, co_includeReactImport = None,
              co_omitIds = None, co_wrapper = None\<rparr>
           = Returns \<lparr>res_code = code, res_imports = []\<rparr>)"
  using empty_content_generates_empty_body
    [of "\<lparr>opt_config = [], opt_content = None, opt_baseDepth = None, opt_indentSize = None\<rparr>"
        "\<lparr>rc_config = [], rc_content = Some [], rc_componentName = None, rc_components = None,
          rc_includeIds = None, rc_reactImport = None\<rparr>"
        "\<lparr>co_content = None, co_componentMap = None, co_componentName = None,
          co_exportDefault = None, co_includeImports = None, co_includeReactImport = None,
          co_omitIds = None, co_wrapper = None\<rparr>"
        compareCodeUnits 0]
  by (simp add: indent_def)


text \<open>
  C4 (amended). For every state of the registry, hence for every sequence of registrations
  in any order, and for every consistent collation \<open>lc\<close> (the platform's \<open>localeCompare\<close>):
  the import declarations of \<open>generateReactComponent\<close> are ordered by path, each lists its
  default specifier (at most one) before its named specifiers, and the named specifiers are
  ordered by imported name; the import list of \<open>generateJSX\<close> is ordered by path with the
  named imports of each entry ordered by name, and \<open>formatImportStatement\<close> prints the
  default name before the braces of the named ones.
\<close>

theorem finalized_imports_sorted:
  assumes "consistent lc"
  shows "sorted_wrt (\<lambda>s t. lc (declaration_path s) (declaration_path t) \<le> 0)
           (importDeclarations lc importBuckets)
       \<and> (\<forall>entry. \<exists>ds ns.
             declaration_specifiers (importDeclaration lc entry) = ds @ ns
             \<and> length ds \<le> 1 \<and> (\<forall>d \<in> set ds. is_default_specifier d)
             \<and> (\<forall>n \<in> set ns. \<not> is_default_specifier n)
             \<and> sorted_wrt (\<lambda>a b. lc (imported_name a) (imported_name b) \<le> 0) ns
             \<and> map imported_name ns
                 = map fst (sort_by (\<lambda>a b. lc (fst a) (fst b)) (ib_named (snd entry))))
       \<and> sorted_wrt (\<lambda>s t. lc (gi_path s) (gi_path t) \<le> 0) (formatImports lc registry)
       \<and> (\<forall>e \<in> set (formatImports lc registry).
             sorted_wrt (\<lambda>a b. lc (fst a) (fst b) \<le> 0) (gi_named e))
       \<and> (\<forall>e. truthy_str (gi_default e) \<and> join '', '' (map formatSpecifier (gi_named e)) \<noteq> []
             \<longrightarrow> formatImportStatement e =
                   Some (''import '' @ the (gi_default e) @ '', '' @ ''{ ''
                         @ join '', '' (map formatSpecifier (gi_named e)) @ '' }''
                         @ '' from '' @ [CHR 0x22] @ gi_path e @ [CHR 0x22] @ '';''))"
  using importDeclarations_sorted [OF assms] importDeclaration_specifiers [OF assms]
    formatImports_sorted [OF assms] formatImports_named_sorted [OF assms]
    formatImportStatement_default_first
  by blast

theorem finalized_imports_sorted_witness:
  "sorted_wrt (\<lambda>s t. compareCodeUnits (gi_path s) (gi_path t) \<le> 0)
     (formatImports compareCodeUnits
        (registerImport []
           (Some (Many [NamedImport ''b'' ''y'' None, DefaultImport ''a'' ''D'',
                        NamedImport ''b'' ''x'' (Some ''z'')]))))
   \<and> formatImportStatements
       (formatImports compareCodeUnits
          (registerImport []
             (Some (Many [NamedImport ''b'' ''y'' None, DefaultImport ''b'' ''D'',
                          NamedImport ''b'' ''x'' (Some ''z'')]))))
     = [''import D, { x as z, y } from '' @ [CHR 0x22] @ ''b'' @ [CHR 0x22] @ '';'']"
proof
  show "sorted_wrt (\<lambda>s t. compareCodeUnits (gi_path s) (gi_path t) \<le> 0)
     (formatImports compareCodeUnits
        (registerImport []
           (Some (Many [NamedImport ''b'' ''y'' None, DefaultImport ''a'' ''D'',
                        NamedImport ''b'' ''x'' (Some ''z'')]))))"
    using finalized_imports_sorted [OF consistent_compareCodeUnits] by blast
next
  show "formatImportStatements
       (formatImports compareCodeUnits
          (registerImport []
             (Some (Many [NamedImport ''b'' ''y'' None, DefaultImport ''b'' ''D'',
                          NamedImport ''b'' ''x'' (Some ''z'')]))))
     = [''import D, { x as z, y } from '' @ [CHR 0x22] @ ''b'' @ [CHR 0x22] @ '';'']"
    by code_simp
qed

text \<open>
  The claim as stated fails on \<open>generateReactCode\<close>: \<open>buildImports\<close> sorts the paths and
  keeps the named specifiers of a path in the order of their first registration. Two nodes
  \<open>Row\<close> and \<open>Col\<close> importing from the same path give \<open>{ Row, Col }\<close>, though \<open>Col\<close> sorts
  before \<open>Row\<close>.
\<close>

theorem named_specifiers_unsorted_counterexample:
  "(case generateReactCode compareCodeUnits 1
           \<lparr>co_content = Some [ComponentData ''Row'' [], ComponentData ''Col'' []],
            co_componentMap = Some
              [(''Row'', \<lparr>cm_as = None,
                          cm_import = Some \<lparr>ci_path = ''antd'', ci_name = None, ci_default = None\<rparr>,
                          cm_omitProps = None, cm_preserveId = None, cm_transformProps = None\<rparr>),
               (''Col'', \<lparr>cm_as = None,
                          cm_import = Some \<lparr>ci_path = ''antd'', ci_name = None, ci_default = None\<rparr>,
                          cm_omitProps = None, cm_preserveId = None, cm_transformProps = None\<rparr>)],
            co_componentName = None, co_exportDefault = None, co_includeImports = None,
            co_includeReactImport = None, co_omitIds = None, co_wrapper = None\<rparr> of
      Returns r \<Rightarrow> res_imports r
    | _ \<Rightarrow> [])
   = [''import { Row, Col } from '' @ [CHR 0x22] @ ''antd'' @ [CHR 0x22] @ '';'']
   \<and> compareCodeUnits ''Col'' ''Row'' < 0"
  by code_simp


text \<open>
  C2 (amended). In the registry of \<open>generateReactComponent\<close>, registering a default import
  for a path that holds a different, non-empty default name, or a named import whose exported
  name holds a different, non-empty alias, throws \<open>ImportConflict\<close> at once: the specs that
  follow in the same registration are not processed, and the \<open>createComponent\<close> call that
  registers it throws the same error, whatever the fuel.
\<close>

theorem import_conflict_fails_at_registration:
  "(map_of importBuckets path = Some bucket \<and> ib_defaultName bucket = Some d0 \<and> d0 \<noteq> [] \<and> d \<noteq> d0
      \<longrightarrow> registerEntry importBuckets (DefaultImportSpec path d) = Throws (ImportConflict path))
 \<and> (map_of importBuckets path = Some bucket \<and> map_of (ib_named bucket) imp = Some (Some a0)
        \<and> a0 \<noteq> [] \<and> a \<noteq> Some a0
      \<longrightarrow> registerEntry importBuckets (NamedImportSpec path imp a) = Throws (ImportConflict path))
 \<and> (registerEntries importBuckets specs = Returns b' \<and> registerEntry b' entry = Throws e
      \<longrightarrow> registerImport_react importBuckets (Some (Many (specs @ entry # rest))) = Throws e)
 \<and> (\<not> nullish component
        \<and> componentConfigOf (env_config env) (js_String (getprop component ''type'')) = Some cc
        \<and> map_of (env_components env) (js_String (getprop component ''type'')) = Some tr
        \<and> registerImport_react b (tr_import tr) = Throws e
      \<longrightarrow> createComponent (Suc n) env component addKey b = Throws e)"
  using registerEntry_default_conflict registerEntry_alias_conflict registerEntries_fail_fast
    createComponent_import_conflict
  by (simp add: registerImport_react_def)

theorem import_conflict_witness:
  "generateReactComponent compareCodeUnits 1
     \<lparr>rc_config = [(''A'', \<lparr>cc_fields = None, cc_codegen = None\<rparr>),
                   (''B'', \<lparr>cc_fields = None, cc_codegen = None\<rparr>)],
      rc_content = Some [ComponentData ''A'' [], ComponentData ''B'' []],
      rc_componentName = None,
      rc_components = Some
        [(''A'', \<lparr>tr_as = None, tr_import = Some (One (DefaultImportSpec ''ui'' ''Alpha'')),
                  tr_mapProps = None, tr_slotProps = []\<rparr>),
         (''B'', \<lparr>tr_as = None, tr_import = Some (One (DefaultImportSpec ''ui'' ''Beta'')),
                  tr_mapProps = None, tr_slotProps = []\<rparr>)],
      rc_includeIds = None, rc_reactImport = None\<rparr>
   = Throws (ImportConflict ''ui'')"
proof -
  let ?b = "[(''ui'', \<lparr>ib_named = [], ib_defaultName = Some ''Alpha''\<rparr>)]"
  let ?env = "\<lparr>env_config = [(''A'', \<lparr>cc_fields = None, cc_codegen = None\<rparr>),
                              (''B'', \<lparr>cc_fields = None, cc_codegen = None\<rparr>)],
               env_components =
                 [(''A'', \<lparr>tr_as = None, tr_import = Some (One (DefaultImportSpec ''ui'' ''Alpha'')),
                           tr_mapProps = None, tr_slotProps = []\<rparr>),
                  (''B'', \<lparr>tr_as = None, tr_import = Some (One (DefaultImportSpec ''ui'' ''Beta'')),
                           tr_mapProps = None, tr_slotProps = []\<rparr>)],
               env_includeIds = False\<rparr>"
  have conflict: "registerEntry ?b (DefaultImportSpec ''ui'' ''Beta'') = Throws (ImportConflict ''ui'')"
    using import_conflict_fails_at_registration
            [of ?b "''ui''" "\<lparr>ib_named = [], ib_defaultName = Some ''Alpha''\<rparr>" "''Alpha''" "''Beta''"]
    by simp
  have first: "createComponent (Suc 0) ?env (ComponentData ''A'' []) False [] =
                 Returns (JSXElement ''A'' [] [], ?b)"
    by code_simp
  have second: "createComponent (Suc 0) ?env (ComponentData ''B'' []) False ?b =
                  Throws (ImportConflict ''ui'')"
    using conflict
    by (simp add: createComponent_body_def ComponentData_def lookup_def registerImport_react_def
          componentConfigOf_def objectPrototypeKeys_def)
  show ?thesis
    using first second by (simp add: generateReactComponent_def renderEnv_def)
qed

text \<open>
  The claim as stated fails on the other two generators, which have no conflict error. In
  \<open>generateJSX\<close> the first default name of a path stays and a later one is dropped, and the
  alias of a named import is replaced by the latest one; the generation returns.
\<close>

theorem import_conflict_counterexample:
  "registerImport [] (Some (Many [DefaultImport ''ui'' ''Alpha'', DefaultImport ''ui'' ''Beta'']))
     = [(''ui'', \<lparr>ie_default = Some ''Alpha'', ie_named = []\<rparr>)]
   \<and> registerImport []
       (Some (Many [NamedImport ''ui'' ''Button'' (Some ''A''), NamedImport ''ui'' ''Button'' (Some ''B'')]))
     = [(''ui'', \<lparr>ie_default = None, ie_named = [(''Button'', Some ''B'')]\<rparr>)]
   \<and> (case generateJSX compareCodeUnits
            \<lparr>opt_config =
               [(''A'', \<lparr>cc_fields = None,
                         cc_codegen = Some \<lparr>cg_component = None,
                           cg_import = Some (One (DefaultImport ''ui'' ''Alpha'')),
                           cg_mapProps = None, cg_skip = False\<rparr>\<rparr>),
                (''B'', \<lparr>cc_fields = None,
                         cc_codegen = Some \<lparr>cg_component = None,
                           cg_import = Some (One (DefaultImport ''ui'' ''Beta'')),
                           cg_mapProps = None, cg_skip = False\<rparr>\<rparr>)],
             opt_content = Some [ComponentData ''A'' [], ComponentData ''B'' []],
             opt_baseDepth = None, opt_indentSize = None\<rparr> of
        Inr tree \<Rightarrow> gt_imports tree
      | Inl e \<Rightarrow> [])
     = [\<lparr>gi_path = ''ui'', gi_default = Some ''Alpha'', gi_named = []\<rparr>]"
  by code_simp

text \<open>
  C7. Registering the same spec twice leaves the registries of \<open>generateReactComponent\<close>
  (\<open>registerEntry_idem\<close>) and of \<open>generateJSX\<close> (\<open>registerSpec_idem\<close>) unchanged. The
  registry of \<open>generateReactCode\<close> does not: \<open>registerImport\<close> looks for an entry whose
  alias is the local name, and stores no alias when the local name is the imported name, so
  the second registration of \<open>{path: "antd", name: "Row"}\<close> under the local name \<open>Row\<close>
  appends the specifier again. Two nodes of one type give \<open>import { Row, Row }\<close>.
\<close>

theorem reregistration_duplicates_named_import:
  "registerImport_code ''Row'' \<lparr>ci_path = ''antd'', ci_name = Some ''Row'', ci_default = None\<rparr>
     (registerImport_code ''Row'' \<lparr>ci_path = ''antd'', ci_name = Some ''Row'', ci_default = None\<rparr> [])
     = [(''antd'', \<lparr>ir_defaultImport = None, ir_named = [(''Row'', None), (''Row'', None)]\<rparr>)]
   \<and> (case generateReactCode compareCodeUnits 1
            \<lparr>co_content = Some [ComponentData ''Stack'' [], ComponentData ''Stack'' []],
             co_componentMap = Some
               [(''Stack'', \<lparr>cm_as = Some ''Row'',
                   cm_import = Some \<lparr>ci_path = ''antd'', ci_name = Some ''Row'', ci_default = None\<rparr>,
                   cm_omitProps = None, cm_preserveId = None, cm_transformProps = None\<rparr>)],
             co_componentName = None, co_exportDefault = None, co_includeImports = None,
             co_includeReactImport = None, co_omitIds = None, co_wrapper = None\<rparr> of
        Returns r \<Rightarrow> res_imports r
      | _ \<Rightarrow> [])
     = [''import { Row, Row } from '' @ [CHR 0x22] @ ''antd'' @ [CHR 0x22] @ '';'']"
  by code_simp


text \<open>
  C6. In \<open>generateJSX\<close>, a node whose component config is marked \<open>skip\<close> renders to no
  output and leaves the registry as it was, whatever its props hold: its slots are not
  rendered and its import is not registered. In its parent's content it is as if it were
  not there: the content with the node and the content without it render alike.
\<close>

theorem skipped_node_renders_nothing:
  assumes "\<not> nullish item"
    and "componentConfigOf config (js_String (getprop item ''type'')) = Some cc"
    and "cc_codegen cc = Some g" and "cg_skip g"
  shows "renderNode config indentSize item depth registry = Inr (None, registry)
       \<and> renderContent config indentSize (before @ item # after) depth registry
         = renderContent config indentSize (before @ after) depth registry"
  using renderNode_skip [OF assms] renderContent_skip [OF assms] by simp

theorem skipped_node_witness:
  "renderNode
     [(''Box'', \<lparr>cc_fields = None, cc_codegen = None\<rparr>),
      (''Hidden'', \<lparr>cc_fields = Some [(''children'', Field ''slot'' None None)],
                    cc_codegen = Some \<lparr>cg_component = None, cg_import = None,
                                        cg_mapProps = None, cg_skip = True\<rparr>\<rparr>)]
     2 (ComponentData ''Hidden'' [(''children'', JArr [ComponentData ''Unknown'' []])]) 1 []
   = Inr (None, [])
   \<and> renderContent
       [(''Box'', \<lparr>cc_fields = None, cc_codegen = None\<rparr>),
        (''Hidden'', \<lparr>cc_fields = Some [(''children'', Field ''slot'' None None)],
                      cc_codegen = Some \<lparr>cg_component = None, cg_import = None,
                                          cg_mapProps = None, cg_skip = True\<rparr>\<rparr>)]
       2 [ComponentData ''Box'' [],
          ComponentData ''Hidden'' [(''children'', JArr [ComponentData ''Unknown'' []])]] 1 []
     = Inr (''  <Box />'', [])"
proof -
  let ?cfg = "[(''Box'', \<lparr>cc_fields = None, cc_codegen = None\<rparr>),
      (''Hidden'', \<lparr>cc_fields = Some [(''children'', Field ''slot'' None None)],
                    cc_codegen = Some \<lparr>cg_component = None, cg_import = None,
                                        cg_mapProps = None, cg_skip = True\<rparr>\<rparr>)]"
  let ?item = "ComponentData ''Hidden'' [(''children'', JArr [ComponentData ''Unknown'' []])]"
  have skip: "renderNode ?cfg 2 ?item 1 [] = Inr (None, [])
     \<and> renderContent ?cfg 2 ([ComponentData ''Box'' []] @ ?item # []) 1 []
       = renderContent ?cfg 2 ([ComponentData ''Box'' []] @ []) 1 []"
    by (rule skipped_node_renders_nothing
              [of ?item ?cfg
                  "\<lparr>cc_fields = Some [(''children'', Field ''slot'' None None)],
                    cc_codegen = Some \<lparr>cg_component = None, cg_import = None,
                                        cg_mapProps = None, cg_skip = True\<rparr>\<rparr>"
                  "\<lparr>cg_component = None, cg_import = None, cg_mapProps = None, cg_skip = True\<rparr>"])
       (simp_all add: ComponentData_def lookup_def componentConfigOf_def objectPrototypeKeys_def)
  have box: "renderContent ?cfg 2 [ComponentData ''Box'' []] 1 [] = Inr (''  <Box />'', [])"
    by code_simp
  from skip box show ?thesis by simp
qed

text \<open>
  C9 (amended). \<open>formatAttribute\<close> never quotes a codegen expression as data. A wrapped
  string without a line break is emitted as it is between the braces. A wrapped string with
  line breaks is emitted on lines of its own between the braces, and the lines emitted are the
  lines of the wrapped string, each non-empty one indented by \<open>depth + 1\<close> levels.
\<close>

theorem codegen_expression_emitted_as_code:
  "formatAttribute key (CodegenExpression code) depth indentSize =
     Inr (Some (if \<not> includes_newline code then key @ ''={'' @ code @ ''}''
                else key @ ''={'' @ [newline] @ indentLines code (depth + 1) indentSize
                     @ [newline] @ indent depth indentSize @ ''}''))
   \<and> (code \<noteq> [] \<longrightarrow>
        split newline (indentLines code (depth + 1) indentSize)
        = map (\<lambda>line. if line \<noteq> [] then indent (depth + 1) indentSize @ line else line)
              (split newline code))"
  using formatAttribute_CodegenExpression indentLines_lines by simp

theorem codegen_expression_witness:
  "formatAttribute ''icon'' (codegenExpression ''<Sparkles />'') 2 2
     = Inr (Some ''icon={<Sparkles />}'')"
  using codegen_expression_emitted_as_code [of "''icon''" "''<Sparkles />''" 2 2]
  by (simp add: codegenExpression_def includes_newline_def newline_def trim_def trimEnd_def
        trimStart_def is_space_def)

text \<open>
  The claim as stated fails on a wrapped string with a line break: the code between the
  braces is not the wrapped string, every line of it is indented.
\<close>

theorem codegen_expression_counterexample:
  "formatAttribute ''icon'' (CodegenExpression (''<a>'' @ [newline] @ ''</a>'')) 1 2
     = Inr (Some (''icon={'' @ [newline] @ ''    <a>'' @ [newline] @ ''    </a>'' @ [newline]
                  @ ''  }''))
   \<and> formatAttribute ''icon'' (CodegenExpression (''<a>'' @ [newline] @ ''</a>'')) 1 2
     \<noteq> Inr (Some (''icon={'' @ (''<a>'' @ [newline] @ ''</a>'') @ ''}''))"
  by code_simp






text \<open>
  C8 (amended). In \<open>generateReactCode\<close>, \<open>formatPropValue\<close> serializes a non-empty array
  by serializing each element on its own, in order, each on the import state the element
  before it left, and puts the parts in a bracketed list. The part of an element that has
  both a \<open>type\<close> and a \<open>props\<close> field is what \<open>renderComponent\<close> returns for it, an
  element text that opens, after its indentation, with \<open><\<close>; the part of any other element
  is its own literal. When
  no component has a \<open>transformProps\<close> hook the serialization returns, on any fuel above
  twice the size of the array value. In \<open>generateReactComponent\<close>,
  \<open>createFieldValueNode\<close> serializes an array value of an array-kind field element by
  element into an array expression, and an object element, one shaped like a content node
  included, goes to \<open>createObjectExpression\<close> and comes back as an object literal; when the
  item schema has no slot, array or object field, the serialization returns the literals
  of the elements and leaves the imports as they were.
\<close>

theorem array_elements_serialized_individually:
  "(xs \<noteq> []
      \<longrightarrow> formatPropValue (Suc n) ctx (JArr xs) depth im =
            bind_out (mapM_out (arrayElement_code n ctx depth) xs im)
              (\<lambda>(parts, im').
                 Returns ((KindExpression,
                           ''['' @ [newline] @ join ('','' @ [newline]) parts @ [newline]
                           @ indent_code depth @ '']''), im')))
 \<and> arrayElement_code n ctx depth item im =
       (if isComponentData item then renderComponent n ctx item (depth + 1) im
        else bind_out (formatPropValue n ctx item (depth + 1) im)
               (\<lambda>(formatted, im'). Returns (indent_code (depth + 1) @ snd formatted, im')))
 \<and> (renderComponent n ctx item depth im = Returns (code, im')
      \<longrightarrow> (\<exists>rest. code = indent_code depth @ ''<'' @ rest))
 \<and> (hookFree ctx \<and> xs \<noteq> [] \<and> 2 * size (JArr xs) \<le> n
      \<longrightarrow> (\<exists>parts im'.
             mapM_out (arrayElement_code n ctx depth) xs im = Returns (parts, im')
             \<and> length parts = length xs
             \<and> formatPropValue (Suc n) ctx (JArr xs) depth im
                 = Returns ((KindExpression,
                             ''['' @ [newline] @ join ('','' @ [newline]) parts @ [newline]
                             @ indent_code depth @ '']''), im')))
 \<and> (ftype fd = ''array''
      \<longrightarrow> createFieldValueNode (Suc n) env (JArr xs) (Some fd) b =
            bind_out (mapM_out (arrayElement n env (arrayFields fd)) xs b)
              (\<lambda>(es, b'). Returns (Some (ArrayExpression es), b')))
 \<and> arrayElement n env flds (JObj kvs) b = createObjectExpression n env (JObj kvs) flds b
 \<and> (createObjectExpression n env v flds b = Returns (e, b')
      \<longrightarrow> (\<exists>props. e = ObjectExpression props))
 \<and> (ftype fd = ''array'' \<and> scalarFields (arrayFields fd)
      \<longrightarrow> createFieldValueNode (Suc (Suc n)) env (JArr xs) (Some fd) b =
            Returns (Some (ArrayExpression
                             (map (\<lambda>item. case item of
                                             JUndefined \<Rightarrow> NullLiteral
                                           | JObj kvs \<Rightarrow>
                                               ObjectExpression
                                                 (map (\<lambda>entry. (fst entry, valueToNode (snd entry)))
                                                      (filter (\<lambda>entry. snd entry \<noteq> JUndefined) kvs))
                                           | _ \<Rightarrow> valueToNode item) xs)), b))"
proof (intro conjI impI)
  assume "xs \<noteq> []"
  then show "formatPropValue (Suc n) ctx (JArr xs) depth im =
               bind_out (mapM_out (arrayElement_code n ctx depth) xs im)
                 (\<lambda>(parts, im').
                    Returns ((KindExpression,
                              ''['' @ [newline] @ join ('','' @ [newline]) parts @ [newline]
                              @ indent_code depth @ '']''), im'))"
    by (rule formatPropValue_array_eq)
next
  show "arrayElement_code n ctx depth item im =
          (if isComponentData item then renderComponent n ctx item (depth + 1) im
           else bind_out (formatPropValue n ctx item (depth + 1) im)
                  (\<lambda>(formatted, im'). Returns (indent_code (depth + 1) @ snd formatted, im')))"
    by (rule arrayElement_code_def)
next
  assume "renderComponent n ctx item depth im = Returns (code, im')"
  then show "\<exists>rest. code = indent_code depth @ ''<'' @ rest"
    by (rule renderComponent_is_element)
next
  assume a: "hookFree ctx \<and> xs \<noteq> [] \<and> 2 * size (JArr xs) \<le> n"
  show "\<exists>parts im'.
          mapM_out (arrayElement_code n ctx depth) xs im = Returns (parts, im')
          \<and> length parts = length xs
          \<and> formatPropValue (Suc n) ctx (JArr xs) depth im
              = Returns ((KindExpression,
                          ''['' @ [newline] @ join ('','' @ [newline]) parts @ [newline]
                          @ indent_code depth @ '']''), im')"
    by (rule formatPropValue_array_returns
              [OF a [THEN conjunct1] a [THEN conjunct2, THEN conjunct1]
                  a [THEN conjunct2, THEN conjunct2]])
next
  assume "ftype fd = ''array''"
  then show "createFieldValueNode (Suc n) env (JArr xs) (Some fd) b =
               bind_out (mapM_out (arrayElement n env (arrayFields fd)) xs b)
                 (\<lambda>(es, b'). Returns (Some (ArrayExpression es), b'))"
    by (rule createFieldValueNode_array_eq)
next
  show "arrayElement n env flds (JObj kvs) b = createObjectExpression n env (JObj kvs) flds b"
    by (simp add: arrayElement_def)
next
  assume "createObjectExpression n env v flds b = Returns (e, b')"
  then show "\<exists>props. e = ObjectExpression props"
    by (rule createObjectExpression_is_object)
next
  assume a: "ftype fd = ''array'' \<and> scalarFields (arrayFields fd)"
  show "createFieldValueNode (Suc (Suc n)) env (JArr xs) (Some fd) b =
          Returns (Some (ArrayExpression
                           (map (\<lambda>item. case item of
                                           JUndefined \<Rightarrow> NullLiteral
                                         | JObj kvs \<Rightarrow>
                                             ObjectExpression
                                               (map (\<lambda>entry. (fst entry, valueToNode (snd entry)))
                                                    (filter (\<lambda>entry. snd entry \<noteq> JUndefined) kvs))
                                         | _ \<Rightarrow> valueToNode item) xs)), b)"
    by (rule createFieldValueNode_array_scalar [OF a [THEN conjunct1] a [THEN conjunct2]])
qed

theorem array_elements_witness:
  "formatPropValue 3 \<lparr>ctx_componentMap = None, ctx_omitIds = True\<rparr>
     (JArr [ComponentData ''Item'' [], JNum 7]) 2 []
   = Returns ((KindExpression,
               ''['' @ [newline] @ ''      <Item />,'' @ [newline] @ ''      7'' @ [newline]
               @ ''    ]''), [])
   \<and> (\<exists>parts im'.
         length parts = 2
         \<and> formatPropValue 19 \<lparr>ctx_componentMap = None, ctx_omitIds = True\<rparr>
             (JArr [ComponentData ''Item'' [], JNum 7]) 2 []
           = Returns ((KindExpression,
                       ''['' @ [newline] @ join ('','' @ [newline]) parts @ [newline]
                       @ indent_code 2 @ '']''), im'))
   \<and> createFieldValueNode 2 \<lparr>env_config = [], env_components = [], env_includeIds = False\<rparr>
       (JArr [ComponentData ''Button'' [(''label'', JStr ''Go'')], JNum 3, JUndefined])
       (Some (Field ''array'' None None)) []
     = Returns (Some (ArrayExpression
                        [ObjectExpression
                           [(''type'', StringLiteral ''Button''),
                            (''props'', ObjectExpression [(''label'', StringLiteral ''Go'')])],
                         NumericLiteral 3, NullLiteral]), [])"
proof (intro conjI)
  let ?ctx = "\<lparr>ctx_componentMap = None, ctx_omitIds = True\<rparr>"
  let ?xs = "[ComponentData ''Item'' [], JNum 7]"
  have rule1: "?xs \<noteq> []
      \<longrightarrow> formatPropValue (Suc 2) ?ctx (JArr ?xs) 2 [] =
            bind_out (mapM_out (arrayElement_code 2 ?ctx 2) ?xs [])
              (\<lambda>(parts, im').
                 Returns ((KindExpression,
                           ''['' @ [newline] @ join ('','' @ [newline]) parts @ [newline]
                           @ indent_code 2 @ '']''), im'))"
    by (rule array_elements_serialized_individually [THEN conjunct1])
  have "formatPropValue (Suc 2) ?ctx (JArr ?xs) 2 [] =
            bind_out (mapM_out (arrayElement_code 2 ?ctx 2) ?xs [])
              (\<lambda>(parts, im').
                 Returns ((KindExpression,
                           ''['' @ [newline] @ join ('','' @ [newline]) parts @ [newline]
                           @ indent_code 2 @ '']''), im'))"
    by (rule rule1 [THEN mp]) simp
  also have "\<dots> = Returns ((KindExpression,
               ''['' @ [newline] @ ''      <Item />,'' @ [newline] @ ''      7'' @ [newline]
               @ ''    ]''), [])"
    by code_simp
  finally have "formatPropValue (Suc 2) ?ctx (JArr ?xs) 2 []
        = Returns ((KindExpression,
                    ''['' @ [newline] @ ''      <Item />,'' @ [newline] @ ''      7'' @ [newline]
                    @ ''    ]''), [])" .
  moreover have "(3 :: nat) = Suc 2" by simp
  ultimately show "formatPropValue 3 ?ctx (JArr ?xs) 2 []
        = Returns ((KindExpression,
                    ''['' @ [newline] @ ''      <Item />,'' @ [newline] @ ''      7'' @ [newline]
                    @ ''    ]''), [])"
    by (simp only:)
next
  let ?ctx = "\<lparr>ctx_componentMap = None, ctx_omitIds = True\<rparr>"
  let ?xs = "[ComponentData ''Item'' [], JNum 7]"
  have hf: "hookFree ?ctx"
    by (simp add: hookFree_def)
  have sz: "2 * size (JArr ?xs) \<le> 18"
    by (simp add: ComponentData_def)
  have ne: "?xs \<noteq> []" by simp
  have rule4: "hookFree ?ctx \<and> ?xs \<noteq> [] \<and> 2 * size (JArr ?xs) \<le> 18
      \<longrightarrow> (\<exists>parts im'.
             mapM_out (arrayElement_code 18 ?ctx 2) ?xs [] = Returns (parts, im')
             \<and> length parts = length ?xs
             \<and> formatPropValue (Suc 18) ?ctx (JArr ?xs) 2 []
                 = Returns ((KindExpression,
                             ''['' @ [newline] @ join ('','' @ [newline]) parts @ [newline]
                             @ indent_code 2 @ '']''), im'))"
    by (rule array_elements_serialized_individually
          [THEN conjunct2, THEN conjunct2, THEN conjunct2, THEN conjunct1])
  have "\<exists>parts im'.
          mapM_out (arrayElement_code 18 ?ctx 2) ?xs [] = Returns (parts, im')
          \<and> length parts = length ?xs
          \<and> formatPropValue (Suc 18) ?ctx (JArr ?xs) 2 []
              = Returns ((KindExpression,
                          ''['' @ [newline] @ join ('','' @ [newline]) parts @ [newline]
                          @ indent_code 2 @ '']''), im')"
    by (rule rule4 [THEN mp]) (intro conjI hf ne sz)
  then obtain parts im'
    where l: "length parts = length ?xs"
      and r: "formatPropValue (Suc 18) ?ctx (JArr ?xs) 2 []
              = Returns ((KindExpression,
                          ''['' @ [newline] @ join ('','' @ [newline]) parts @ [newline]
                          @ indent_code 2 @ '']''), im')"
    by blast
  have n: "(19 :: nat) = Suc 18" by simp
  from l have l2: "length parts = 2" by simp
  show "\<exists>parts im'.
         length parts = 2
         \<and> formatPropValue 19 ?ctx (JArr ?xs) 2 []
           = Returns ((KindExpression,
                       ''['' @ [newline] @ join ('','' @ [newline]) parts @ [newline]
                       @ indent_code 2 @ '']''), im')"
    unfolding n using l2 r by blast
next
  let ?env = "\<lparr>env_config = [], env_components = [], env_includeIds = False\<rparr>"
  let ?fd = "Field ''array'' None None"
  let ?ys = "[ComponentData ''Button'' [(''label'', JStr ''Go'')], JNum 3, JUndefined]"
  have rule8: "ftype ?fd = ''array'' \<and> scalarFields (arrayFields ?fd)
      \<longrightarrow> createFieldValueNode (Suc (Suc 0)) ?env (JArr ?ys) (Some ?fd) [] =
            Returns (Some (ArrayExpression
                             (map (\<lambda>item. case item of
                                             JUndefined \<Rightarrow> NullLiteral
                                           | JObj kvs \<Rightarrow>
                                               ObjectExpression
                                                 (map (\<lambda>entry. (fst entry, valueToNode (snd entry)))
                                                      (filter (\<lambda>entry. snd entry \<noteq> JUndefined) kvs))
                                           | _ \<Rightarrow> valueToNode item) ?ys)), [])"
    by (rule array_elements_serialized_individually
          [THEN conjunct2, THEN conjunct2, THEN conjunct2, THEN conjunct2, THEN conjunct2,
           THEN conjunct2, THEN conjunct2])
  have "createFieldValueNode (Suc (Suc 0)) ?env (JArr ?ys) (Some ?fd) [] =
            Returns (Some (ArrayExpression
                             (map (\<lambda>item. case item of
                                             JUndefined \<Rightarrow> NullLiteral
                                           | JObj kvs \<Rightarrow>
                                               ObjectExpression
                                                 (map (\<lambda>entry. (fst entry, valueToNode (snd entry)))
                                                      (filter (\<lambda>entry. snd entry \<noteq> JUndefined) kvs))
                                           | _ \<Rightarrow> valueToNode item) ?ys)), [])"
    by (rule rule8 [THEN mp]) (simp add: scalarFields_def)
  moreover have two: "(2 :: nat) = Suc (Suc 0)" by simp
  ultimately show "createFieldValueNode 2 ?env (JArr ?ys) (Some ?fd) []
     = Returns (Some (ArrayExpression
                        [ObjectExpression
                           [(''type'', StringLiteral ''Button''),
                            (''props'', ObjectExpression [(''label'', StringLiteral ''Go'')])],
                         NumericLiteral 3, NullLiteral]), [])"
    unfolding two by (simp add: ComponentData_def del: createFieldValueNode.simps)
qed

text \<open>
  The claim as stated fails on \<open>generateReactComponent\<close>, the generator that has array-kind
  fields: \<open>createArrayExpression\<close> turns every object element into an object literal, and
  an element \<open>{type, props}\<close> is emitted as data, not rendered as an element.
\<close>

theorem array_element_counterexample:
  "generateReactComponent compareCodeUnits 4
     \<lparr>rc_config =
        [(''List'', \<lparr>cc_fields = Some [(''items'', Field ''array'' None None)], cc_codegen = None\<rparr>),
         (''Button'', \<lparr>cc_fields = Some [(''label'', Field ''text'' None None)], cc_codegen = None\<rparr>)],
      rc_content = Some [ComponentData ''List''
                           [(''items'', JArr [ComponentData ''Button'' [(''label'', JStr ''Go'')]])]],
      rc_componentName = None, rc_components = None, rc_includeIds = None,
      rc_reactImport = Some False\<rparr>
   = Returns [ExportNamedFunction ''GeneratedPage''
                (JSXFragment
                   [JSXElement ''List''
                      [(''items'',
                        JSXExpressionContainer
                          (ArrayExpression
                             [ObjectExpression
                                [(''type'', StringLiteral ''Button''),
                                 (''props'', ObjectExpression [(''label'', StringLiteral ''Go'')])]]))]
                      []])]"
  by code_simp


text \<open>
  C1 (amended). In \<open>generateJSX\<close> and \<open>generateReactComponent\<close>, a content tree that
  holds a node of unregistered type (in the top-level content, or in the content of a slot
  prop of a registered node, at any depth; in \<open>generateJSX\<close> not below a node marked
  \<open>skip\<close>, in \<open>generateReactComponent\<close> through the props that \<open>mapProps\<close> returned) gives
  no output at all. \<open>generateJSX\<close> throws, and
  what it throws is a \<open>TypeError\<close> or the \<open>UnknownComponentType\<close> of an unregistered type;
  \<open>generateReactComponent\<close> returns for no amount of fuel, and an \<open>UnknownComponentType\<close>
  it throws names an unregistered type. When everything the walk visits before the node
  renders (the siblings before it at every level, the slots or props before its slot, the
  imports of its ancestors), the error thrown is \<open>UnknownComponentType\<close> with the type of that
  node, at any depth and whatever follows the node; in \<open>generateReactComponent\<close> for
  every fuel from the one that renders what comes before. A type is unregistered when it is
  no key of the schema and no name that \<open>Object.prototype\<close> defines.
\<close>

theorem unknown_type_is_fatal:
  "(opt_content jo = Some content \<and> item \<in> set content \<and> unknown_in (opt_config jo) item
      \<longrightarrow> (\<exists>e. generateJSX lc jo = Inl e
                \<and> (e = TypeError
                     \<or> (\<exists>t. e = UnknownComponentType t \<and> componentConfigOf (opt_config jo) t = None))))
 \<and> (opt_content jo = Some (before @ item # after)
        \<and> renderContent (opt_config jo) (case opt_indentSize jo of None \<Rightarrow> 2 | Some i \<Rightarrow> i) before
              ((case opt_baseDepth jo of None \<Rightarrow> 0 | Some d \<Rightarrow> d) + 1) [] = Inr (code, registry)
        \<and> unknown_first (opt_config jo) (case opt_indentSize jo of None \<Rightarrow> 2 | Some i \<Rightarrow> i)
              item registry t
      \<longrightarrow> generateJSX lc jo = Inl (UnknownComponentType t))
 \<and> (rc_content ro = Some content \<and> item \<in> set content \<and> unknown_in_react (renderEnv ro) item
      \<longrightarrow> (\<forall>fuel. generateReactComponent lc fuel ro = OutOfFuel
                    \<or> (\<exists>e. generateReactComponent lc fuel ro = Throws e
                            \<and> error_of_walk (rc_config ro) e)))
 \<and> (rc_content ro = Some (before @ item # after)
        \<and> mapM_out (\<lambda>component. createComponent n (renderEnv ro) component False) before []
            = Returns (elements, b)
        \<and> unknown_first_react (renderEnv ro) n item b t
      \<longrightarrow> (\<forall>d. generateReactComponent lc (n + d) ro = Throws (UnknownComponentType t)))"
proof (intro conjI impI allI)
  assume a: "opt_content jo = Some content \<and> item \<in> set content \<and> unknown_in (opt_config jo) item"
  from generateJSX_unknown_fails
         [OF a [THEN conjunct1] a [THEN conjunct2, THEN conjunct1] a [THEN conjunct2, THEN conjunct2]]
  obtain e where e: "generateJSX lc jo = Inl e" by blast
  from generateJSX_error_kinds [OF e] e
  show "\<exists>e. generateJSX lc jo = Inl e
          \<and> (e = TypeError
               \<or> (\<exists>t. e = UnknownComponentType t \<and> componentConfigOf (opt_config jo) t = None))"
    by blast
next
  assume a: "opt_content jo = Some (before @ item # after)
        \<and> renderContent (opt_config jo) (case opt_indentSize jo of None \<Rightarrow> 2 | Some i \<Rightarrow> i) before
              ((case opt_baseDepth jo of None \<Rightarrow> 0 | Some d \<Rightarrow> d) + 1) [] = Inr (code, registry)
        \<and> unknown_first (opt_config jo) (case opt_indentSize jo of None \<Rightarrow> 2 | Some i \<Rightarrow> i)
              item registry t"
  show "generateJSX lc jo = Inl (UnknownComponentType t)"
    by (rule generateJSX_unknown_first
              [OF a [THEN conjunct1] a [THEN conjunct2, THEN conjunct1]
                  a [THEN conjunct2, THEN conjunct2]])
next
  fix fuel
  assume a: "rc_content ro = Some content \<and> item \<in> set content
             \<and> unknown_in_react (renderEnv ro) item"
  have never: "\<And>out. generateReactComponent lc fuel ro \<noteq> Returns out"
    by (rule generateReactComponent_unknown_never_returns
              [OF a [THEN conjunct1] a [THEN conjunct2, THEN conjunct1]
                  a [THEN conjunct2, THEN conjunct2]])
  show "generateReactComponent lc fuel ro = OutOfFuel
        \<or> (\<exists>e. generateReactComponent lc fuel ro = Throws e \<and> error_of_walk (rc_config ro) e)"
  proof (cases "generateReactComponent lc fuel ro")
    case (Returns out)
    with never show ?thesis by blast
  next
    case (Throws e)
    from generateReactComponent_error_kinds [OF Throws] Throws show ?thesis by blast
  next
    case OutOfFuel
    then show ?thesis by blast
  qed
next
  fix d
  assume a: "rc_content ro = Some (before @ item # after)
        \<and> mapM_out (\<lambda>component. createComponent n (renderEnv ro) component False) before []
            = Returns (elements, b)
        \<and> unknown_first_react (renderEnv ro) n item b t"
  have "generateReactComponent lc n ro = Throws (UnknownComponentType t)"
    by (rule generateReactComponent_unknown_first
              [OF a [THEN conjunct1] a [THEN conjunct2, THEN conjunct1]
                  a [THEN conjunct2, THEN conjunct2]])
  with settled_generateReactComponent [of lc n ro d]
  show "generateReactComponent lc (n + d) ro = Throws (UnknownComponentType t)"
    by (simp add: settled_def)
qed

theorem unknown_type_witness:
  "generateJSX compareCodeUnits
     \<lparr>opt_config =
        [(''Section'', \<lparr>cc_fields = Some [(''children'', Field ''slot'' None None)],
                        cc_codegen = None\<rparr>),
         (''Button'', \<lparr>cc_fields = None, cc_codegen = None\<rparr>)],
      opt_content = Some
        [ComponentData ''Button'' [],
         ComponentData ''Section''
           [(''children'', JArr [ComponentData ''Button'' [], ComponentData ''Mystery'' [],
                                ComponentData ''Button'' []])]],
      opt_baseDepth = None, opt_indentSize = None\<rparr>
   = Inl (UnknownComponentType ''Mystery'')
   \<and> generateReactComponent compareCodeUnits 5
       \<lparr>rc_config =
          [(''Section'', \<lparr>cc_fields = Some [(''content'', Field ''slot'' None None)],
                          cc_codegen = None\<rparr>),
           (''Button'', \<lparr>cc_fields = None, cc_codegen = None\<rparr>)],
        rc_content = Some
          [ComponentData ''Button'' [],
           ComponentData ''Section''
             [(''content'', JArr [ComponentData ''Button'' [], ComponentData ''Mystery'' []])]],
        rc_componentName = None, rc_components = None, rc_includeIds = None,
        rc_reactImport = None\<rparr>
     = Throws (UnknownComponentType ''Mystery'')"
proof
  let ?section = "\<lparr>cc_fields = Some [(''children'', Field ''slot'' None None)], cc_codegen = None\<rparr>"
  let ?cfg = "[(''Section'', ?section), (''Button'', \<lparr>cc_fields = None, cc_codegen = None\<rparr>)]"
  let ?button = "ComponentData ''Button'' []"
  let ?mystery = "ComponentData ''Mystery'' []"
  let ?node = "ComponentData ''Section'' [(''children'', JArr [?button, ?mystery, ?button])]"
  let ?jo = "\<lparr>opt_config = ?cfg, opt_content = Some [?button, ?node],
              opt_baseDepth = None, opt_indentSize = None\<rparr>"
  have ty: "js_String (getprop ?mystery ''type'') = ''Mystery''"
    by (simp add: ComponentData_def lookup_def)
  have "unknown_first ?cfg 2 ?mystery [] (js_String (getprop ?mystery ''type''))"
    by (rule unknown_first_here)
       (simp_all add: ComponentData_def lookup_def componentConfigOf_def objectPrototypeKeys_def)
  then have leaf: "unknown_first ?cfg 2 ?mystery [] ''Mystery''"
    by (simp only: ty)
  have slots: "nodeSlots ?section ?node = [] @ (''children'', [?button] @ ?mystery # [?button]) # []"
    by (simp add: nodeSlots_def nodeProps_def getSlotFieldNames_def collectSlots_def slotStep_def
          ComponentData_def lookup_def)
  have sibling: "renderContent ?cfg 2 [?button] 1 [] = Inr (''  <Button />'', [])"
    by code_simp
  have node: "unknown_first ?cfg 2 ?node [] ''Mystery''"
    by (rule unknown_first_below [where cc = ?section, OF _ _ _ slots _ sibling leaf])
       (simp_all add: ComponentData_def lookup_def componentConfigOf_def objectPrototypeKeys_def
          renderSlots_def)
  have content: "opt_content ?jo = Some ([?button] @ ?node # [])"
    by simp
  have before: "renderContent (opt_config ?jo) (case opt_indentSize ?jo of None \<Rightarrow> 2 | Some i \<Rightarrow> i)
                  [?button] ((case opt_baseDepth ?jo of None \<Rightarrow> 0 | Some d \<Rightarrow> d) + 1) []
                = Inr (''  <Button />'', [])"
    using sibling by simp
  have first: "unknown_first (opt_config ?jo) (case opt_indentSize ?jo of None \<Rightarrow> 2 | Some i \<Rightarrow> i)
                 ?node [] ''Mystery''"
    using node by simp
  have rule2: "opt_content ?jo = Some ([?button] @ ?node # [])
        \<and> renderContent (opt_config ?jo) (case opt_indentSize ?jo of None \<Rightarrow> 2 | Some i \<Rightarrow> i)
              [?button] ((case opt_baseDepth ?jo of None \<Rightarrow> 0 | Some d \<Rightarrow> d) + 1) []
            = Inr (''  <Button />'', [])
        \<and> unknown_first (opt_config ?jo) (case opt_indentSize ?jo of None \<Rightarrow> 2 | Some i \<Rightarrow> i)
              ?node [] ''Mystery''
      \<longrightarrow> generateJSX compareCodeUnits ?jo = Inl (UnknownComponentType ''Mystery'')"
    by (rule unknown_type_is_fatal [THEN conjunct2, THEN conjunct1])
  show "generateJSX compareCodeUnits ?jo = Inl (UnknownComponentType ''Mystery'')"
    by (rule rule2 [THEN mp]) (intro conjI content before first)
next
  let ?section = "\<lparr>cc_fields = Some [(''content'', Field ''slot'' None None)], cc_codegen = None\<rparr>"
  let ?cfg = "[(''Section'', ?section), (''Button'', \<lparr>cc_fields = None, cc_codegen = None\<rparr>)]"
  let ?button = "ComponentData ''Button'' []"
  let ?mystery = "ComponentData ''Mystery'' []"
  let ?node = "ComponentData ''Section'' [(''content'', JArr [?button, ?mystery])]"
  let ?ro = "\<lparr>rc_config = ?cfg, rc_content = Some [?button, ?node],
              rc_componentName = None, rc_components = None, rc_includeIds = None,
              rc_reactImport = None\<rparr>"
  let ?env = "\<lparr>env_config = ?cfg, env_components = [], env_includeIds = False\<rparr>"
  have env: "renderEnv ?ro = ?env"
    by (simp add: renderEnv_def)
  have ty: "js_String (getprop ?mystery ''type'') = ''Mystery''"
    by (simp add: ComponentData_def lookup_def)
  have "unknown_first_react ?env (Suc 0) ?mystery [] (js_String (getprop ?mystery ''type''))"
    by (rule unknown_first_here_react)
       (simp_all add: ComponentData_def lookup_def componentConfigOf_def objectPrototypeKeys_def)
  then have leaf: "unknown_first_react ?env (Suc 0) ?mystery [] ''Mystery''"
    by (simp only: ty)
  have props: "spread (transformedProps None ?node)
               = [] @ (''content'', JArr ([?button] @ ?mystery # [])) # []"
    by (simp add: transformedProps_def ComponentData_def lookup_def)
  have sibling: "mapM_out (\<lambda>c. createComponent (Suc 0) ?env c True) [?button] []
                 = Returns ([JSXElement ''Button'' [] []], [])"
    by code_simp
  have none: "mapM_out (createAttribute_body (createSlotChildren (Suc 0) ?env)
                          (createFieldValueNode (Suc 0) ?env) (env_includeIds ?env)
                          (cc_fields ?section) None) [] []
              = Returns ([], [])"
    by simp
  have node: "unknown_first_react ?env (Suc (Suc 0)) ?node [] ''Mystery''"
    by (rule unknown_first_below_react
              [where cc = ?section and transform = None and bI = "[]"
                 and props = "transformedProps None ?node",
               OF _ _ _ _ refl _ props none _ _ sibling leaf])
       (simp_all add: ComponentData_def lookup_def componentConfigOf_def objectPrototypeKeys_def
          registerImport_react_def transformedProps_def isSlot_def fieldOf_def)
  have content: "rc_content ?ro = Some ([?button] @ ?node # [])"
    by simp
  have before: "mapM_out (\<lambda>component. createComponent (Suc (Suc 0)) (renderEnv ?ro) component False)
                  [?button] []
                = Returns ([JSXElement ''Button'' [] []], [])"
    by code_simp
  have first: "unknown_first_react (renderEnv ?ro) (Suc (Suc 0)) ?node [] ''Mystery''"
    using node by (simp only: env)
  have rule4: "rc_content ?ro = Some ([?button] @ ?node # [])
        \<and> mapM_out (\<lambda>component. createComponent (Suc (Suc 0)) (renderEnv ?ro) component False)
              [?button] []
            = Returns ([JSXElement ''Button'' [] []], [])
        \<and> unknown_first_react (renderEnv ?ro) (Suc (Suc 0)) ?node [] ''Mystery''
      \<longrightarrow> (\<forall>d. generateReactComponent compareCodeUnits (Suc (Suc 0) + d) ?ro
                  = Throws (UnknownComponentType ''Mystery''))"
    by (rule unknown_type_is_fatal [THEN conjunct2, THEN conjunct2, THEN conjunct2])
  have "\<forall>d. generateReactComponent compareCodeUnits (Suc (Suc 0) + d) ?ro
             = Throws (UnknownComponentType ''Mystery'')"
    by (rule rule4 [THEN mp]) (intro conjI content before first)
  then have "generateReactComponent compareCodeUnits (Suc (Suc 0) + 3) ?ro
             = Throws (UnknownComponentType ''Mystery'')"
    by (rule spec)
  moreover have "Suc (Suc 0) + 3 = (5 :: nat)" by simp
  ultimately show "generateReactComponent compareCodeUnits 5 ?ro = Throws (UnknownComponentType ''Mystery'')"
    by (simp only:)
qed

text \<open>
  The claim as stated fails on \<open>generateReactCode\<close>, which never reads the schema and renders
  a node of any type under the type's own name; in \<open>generateJSX\<close> on a node of unregistered
  type below a node marked \<open>skip\<close>, which is never visited; and in \<open>generateReactComponent\<close>
  on a tree where the imports of two registered nodes conflict before the node of unregistered
  type is reached: the error is the import conflict.
\<close>

theorem unknown_type_counterexample:
  "generateReactCode compareCodeUnits 1
     \<lparr>co_content = Some [ComponentData ''Mystery'' []],
      co_componentMap = Some
        [(''Known'', \<lparr>cm_as = None, cm_import = None, cm_omitProps = None, cm_preserveId = None,
                      cm_transformProps = None\<rparr>)],
      co_componentName = None, co_exportDefault = None, co_includeImports = None,
      co_includeReactImport = None, co_omitIds = None, co_wrapper = None\<rparr>
   = Returns
       \<lparr>res_code = join [newline]
          [''export function GeneratedPage() {'', ''  return ('', ''    <>'', ''    <Mystery />'',
           ''    </>'', ''  );'', ''}''],
        res_imports = []\<rparr>
   \<and> generateJSX compareCodeUnits
       \<lparr>opt_config =
          [(''Box'', \<lparr>cc_fields = None, cc_codegen = None\<rparr>),
           (''Hidden'', \<lparr>cc_fields = Some [(''children'', Field ''slot'' None None)],
                         cc_codegen = Some \<lparr>cg_component = None, cg_import = None,
                                             cg_mapProps = None, cg_skip = True\<rparr>\<rparr>)],
        opt_content = Some
          [ComponentData ''Box'' [],
           ComponentData ''Hidden'' [(''children'', JArr [ComponentData ''Mystery'' []])]],
        opt_baseDepth = None, opt_indentSize = None\<rparr>
     = Inr \<lparr>gt_jsx = ''<>'' @ [newline] @ ''  <Box />'' @ [newline] @ ''</>'', gt_imports = []\<rparr>
   \<and> generateReactComponent compareCodeUnits 1
       \<lparr>rc_config = [(''A'', \<lparr>cc_fields = None, cc_codegen = None\<rparr>),
                     (''B'', \<lparr>cc_fields = None, cc_codegen = None\<rparr>)],
        rc_content = Some [ComponentData ''A'' [], ComponentData ''B'' [],
                          ComponentData ''Mystery'' []],
        rc_componentName = None,
        rc_components = Some
          [(''A'', \<lparr>tr_as = None, tr_import = Some (One (DefaultImportSpec ''ui'' ''Alpha'')),
                    tr_mapProps = None, tr_slotProps = []\<rparr>),
           (''B'', \<lparr>tr_as = None, tr_import = Some (One (DefaultImportSpec ''ui'' ''Beta'')),
                    tr_mapProps = None, tr_slotProps = []\<rparr>)],
        rc_includeIds = None, rc_reactImport = None\<rparr>
     = Throws (ImportConflict ''ui'')"
  by code_simp

end
